(* ===== verification/Sproutboat_Prelude.thy ===== *)
theory Sproutboat_Prelude
  imports Complex_Main "HOL-Library.AList" "HOL-Library.List_Lexorder" "HOL-Library.Char_ord"
begin

text \<open>
  Shared vocabulary of the development: the fragment of JavaScript's strings, arrays, sets and
  maps the sources use, JSON values and HTTP responses, and the generic lemmas and locales the
  component theories rest on.

  \<^item> A JavaScript string is a \<open>string\<close>; a timestamp is the number of milliseconds since
    the epoch (the sources store \<open>toISOString()\<close> texts, whose order is the order of the
    instants they name).
  \<^item> A JavaScript \<open>Map\<close> is an association list with distinct keys in insertion order:
    \<open>set\<close> is \<open>AList.update\<close> (an existing key keeps its place, a new one goes last) and
    \<open>delete\<close> is \<open>AList.delete\<close>.
  \<^item> A thrown error or a non-2xx answer is a value of a sum type or a response.
\<close>

section \<open>Collections of facts\<close>

named_theorems js_simps \<open>executable string and array helpers\<close>
named_theorems ok_intros \<open>operations keep the well-formedness of their state\<close>
named_theorems frame_simps \<open>fields an operation leaves alone\<close>

section \<open>Types the components share\<close>

type_synonym ms = int
type_synonym owner = string
type_synonym digest = string

text \<open>JSON values as \<open>JSON.parse\<close> yields them. A JSON number is a rational here.\<close>

datatype json =
    JNull
  | JBool bool
  | JNum rat
  | JStr string
  | JArr "json list"
  | JObj "(string \<times> json) list"

text \<open>A field of a JSON object (a repeated name has its last value), and the test for one.\<close>

definition json_field :: "json \<Rightarrow> string \<Rightarrow> json option" where
  "json_field j k = (case j of JObj kvs \<Rightarrow> map_of (rev kvs) k | _ \<Rightarrow> None)"

definition isJsonObj :: "json \<Rightarrow> bool" where
  "isJsonObj j = (case j of JObj _ \<Rightarrow> True | _ \<Rightarrow> False)"

text \<open>\<open>Response.json(body, { status })\<close>, with the headers the handlers set.\<close>

record response =
  rs_status :: nat
  rs_body :: json
  rs_headers :: "(string \<times> string) list"

definition json_response :: "nat \<Rightarrow> json \<Rightarrow> response" where
  "json_response st b = \<lparr>rs_status = st, rs_body = b, rs_headers = []\<rparr>"

definition error_response :: "nat \<Rightarrow> string \<Rightarrow> response" where
  "error_response st msg = json_response st (JObj [(''error'', JStr msg)])"

lemma json_response_sel [simp]:
  "rs_status (json_response st b) = st"
  "rs_body (json_response st b) = b"
  "rs_headers (json_response st b) = []"
  by (simp_all add: json_response_def)

lemma error_response_sel [simp]:
  "rs_status (error_response st msg) = st"
  "rs_body (error_response st msg) = JObj [(''error'', JStr msg)]"
  by (simp_all add: error_response_def)

section \<open>Strings\<close>

definition starts_with :: "string \<Rightarrow> string \<Rightarrow> bool" where
  "starts_with s p \<longleftrightarrow> take (length p) s = p"

definition ends_with :: "string \<Rightarrow> string \<Rightarrow> bool" where
  "ends_with s p \<longleftrightarrow> length p \<le> length s \<and> drop (length s - length p) s = p"

fun includes_sub :: "string \<Rightarrow> string \<Rightarrow> bool" where
  "includes_sub [] p = (p = [])"
| "includes_sub (c # s) p = (starts_with (c # s) p \<or> includes_sub s p)"

text \<open>\<open>s.split(c)\<close> for a one-character separator: never empty.\<close>

fun split_on :: "char \<Rightarrow> string \<Rightarrow> string list" where
  "split_on c [] = [[]]"
| "split_on c (x # xs) =
     (if x = c then [] # split_on c xs
      else (case split_on c xs of [] \<Rightarrow> [[x]] | w # ws \<Rightarrow> (x # w) # ws))"

definition is_space :: "char \<Rightarrow> bool" where
  "is_space c \<longleftrightarrow> c \<in> {CHR '' '', CHR 0x09, CHR 0x0A, CHR 0x0B, CHR 0x0C, CHR 0x0D, CHR 0xA0}"

definition js_trim :: "string \<Rightarrow> string" where
  "js_trim s = rev (dropWhile is_space (rev (dropWhile is_space s)))"

definition is_lower :: "char \<Rightarrow> bool" where
  "is_lower c \<longleftrightarrow> CHR ''a'' \<le> c \<and> c \<le> CHR ''z''"

definition is_upper :: "char \<Rightarrow> bool" where
  "is_upper c \<longleftrightarrow> CHR ''A'' \<le> c \<and> c \<le> CHR ''Z''"

definition is_digit :: "char \<Rightarrow> bool" where
  "is_digit c \<longleftrightarrow> CHR ''0'' \<le> c \<and> c \<le> CHR ''9''"

definition is_hex :: "char \<Rightarrow> bool" where
  "is_hex c \<longleftrightarrow> is_digit c \<or> (CHR ''a'' \<le> c \<and> c \<le> CHR ''f'')"

definition lower_char :: "char \<Rightarrow> char" where
  "lower_char c = (if is_upper c then char_of (of_char c + (32::nat)) else c)"

definition upper_char :: "char \<Rightarrow> char" where
  "upper_char c = (if is_lower c then char_of (of_char c - (32::nat)) else c)"

definition to_lower :: "string \<Rightarrow> string" where
  "to_lower s = map lower_char s"

definition to_upper :: "string \<Rightarrow> string" where
  "to_upper s = map upper_char s"

definition digit_val :: "char \<Rightarrow> nat" where
  "digit_val c = of_char c - 48"

text \<open>The value of a string of decimal digits, as \<open>Number(s)\<close> reads it.\<close>

definition dec_val :: "string \<Rightarrow> nat" where
  "dec_val s = foldl (\<lambda>n c. n * 10 + digit_val c) 0 s"

text \<open>\<open>/^[a-f0-9]{64}$/\<close>: a sha256 digest in hex.\<close>

definition hex64 :: "string \<Rightarrow> bool" where
  "hex64 s \<longleftrightarrow> length s = 64 \<and> list_all is_hex s"

text \<open>\<open>JSON.stringify\<close> of a string: the escapes of the language standard.\<close>

definition hex_digit :: "nat \<Rightarrow> char" where
  "hex_digit n = (if n < 10 then char_of (48 + n) else char_of (87 + n))"

definition json_escape :: "char \<Rightarrow> string" where
  "json_escape c =
     (let n = (of_char c :: nat)
      in if n = 0x22 \<or> n = 0x5C then [CHR 0x5C, c]
         else if n = 8 then [CHR 0x5C, CHR ''b''] else if n = 9 then [CHR 0x5C, CHR ''t'']
         else if n = 10 then [CHR 0x5C, CHR ''n''] else if n = 12 then [CHR 0x5C, CHR ''f'']
         else if n = 13 then [CHR 0x5C, CHR ''r'']
         else if n < 32 then [CHR 0x5C] @ ''u00'' @ [hex_digit (n div 16), hex_digit (n mod 16)]
         else [c])"

text \<open>\<open>String(n)\<close> of a natural number.\<close>

fun nat_text :: "nat \<Rightarrow> string" where
  "nat_text n = (if n < 10 then [char_of (48 + n)] else nat_text (n div 10) @ [char_of (48 + n mod 10)])"

declare nat_text.simps [simp del]

definition json_quote :: "string \<Rightarrow> string" where
  "json_quote s = [CHR 0x22] @ concat (map json_escape s) @ [CHR 0x22]"

fun join_with :: "string \<Rightarrow> string list \<Rightarrow> string" where
  "join_with sep [] = []"
| "join_with sep [x] = x"
| "join_with sep (x # y # xs) = x @ sep @ join_with sep (y # xs)"

text \<open>
  \<open>Number(s)\<close> on a string: \<open>None\<close> for \<open>NaN\<close> and the infinities. The value is exact; rounding to
  a double is not modelled.
\<close>

definition all_digits :: "string \<Rightarrow> bool" where
  "all_digits s \<longleftrightarrow> s \<noteq> [] \<and> list_all is_digit s"

definition radix_digit :: "char \<Rightarrow> nat" where
  "radix_digit c = (if is_digit c then digit_val c
     else if is_lower c then of_char c - 87 else if is_upper c then of_char c - 55 else 99)"

definition radix_val :: "nat \<Rightarrow> string \<Rightarrow> rat option" where
  "radix_val b s = (if s \<noteq> [] \<and> list_all (\<lambda>c. radix_digit c < b) s
     then Some (of_nat (foldl (\<lambda>n c. n * b + radix_digit c) 0 s)) else None)"

definition exponent_val :: "string \<Rightarrow> rat option" where
  "exponent_val s =
     (if starts_with s ''-'' then if all_digits (tl s) then Some (1 / 10 ^ dec_val (tl s)) else None
      else let t = (if starts_with s ''+'' then tl s else s)
           in if all_digits t then Some (10 ^ dec_val t) else None)"

definition decimal_val :: "string \<Rightarrow> rat option" where
  "decimal_val s =
     (let m = takeWhile (\<lambda>c. c \<noteq> CHR ''e'' \<and> c \<noteq> CHR ''E'') s;
          e = drop (length m) s;
          i = takeWhile (\<lambda>c. c \<noteq> CHR ''.'') m;
          f = drop (Suc (length i)) m
      in if list_all is_digit i \<and> list_all is_digit f \<and> i @ f \<noteq> []
         then (case (if e = [] then Some 1 else exponent_val (tl e)) of
                 None \<Rightarrow> None
               | Some x \<Rightarrow> Some (of_nat (dec_val (i @ f)) / 10 ^ length f * x))
         else None)"

definition js_number :: "string \<Rightarrow> rat option" where
  "js_number s =
     (let t = js_trim s
      in if t = [] then Some 0
         else if starts_with t ''0x'' \<or> starts_with t ''0X'' then radix_val 16 (drop 2 t)
         else if starts_with t ''0o'' \<or> starts_with t ''0O'' then radix_val 8 (drop 2 t)
         else if starts_with t ''0b'' \<or> starts_with t ''0B'' then radix_val 2 (drop 2 t)
         else if starts_with t ''-'' then map_option uminus (decimal_val (tl t))
         else if starts_with t ''+'' then decimal_val (tl t)
         else decimal_val t)"

lemma split_on_nonempty [simp]: "split_on c s \<noteq> []"
  by (cases s) (auto split: list.splits)

lemma starts_with_append [simp]: "starts_with (p @ s) p"
  by (simp add: starts_with_def)

lemma starts_with_iff: "starts_with s p \<longleftrightarrow> (\<exists>t. s = p @ t)"
  by (metis append_take_drop_id starts_with_append starts_with_def)

lemma ends_with_iff: "ends_with s p \<longleftrightarrow> (\<exists>t. s = t @ p)"
proof
  assume "ends_with s p"
  then have "s = take (length s - length p) s @ p"
    by (metis append_take_drop_id ends_with_def)
  then show "\<exists>t. s = t @ p" ..
qed (auto simp: ends_with_def)

lemma split_on_append: "split_on c (a @ c # b) = split_on c a @ split_on c b"
proof (induction a)
  case (Cons x a)
  obtain w ws where "split_on c a = w # ws"
    by (meson neq_Nil_conv split_on_nonempty)
  with Cons show ?case
    by simp
qed simp

lemma last_split_on: "last (split_on c (a @ c # b)) = last (split_on c b)"
  by (simp add: split_on_append)

section \<open>Arrays and sets\<close>

text \<open>
  \<open>[...new Set(xs)]\<close>: the first occurrence of each element, in order (HOL's \<open>remdups\<close>
  keeps the last one).
\<close>

fun uniq_from :: "'a list \<Rightarrow> 'a list \<Rightarrow> 'a list" where
  "uniq_from seen [] = []"
| "uniq_from seen (x # xs) =
     (if x \<in> set seen then uniq_from seen xs else x # uniq_from (x # seen) xs)"

definition uniq :: "'a list \<Rightarrow> 'a list" where
  "uniq xs = uniq_from [] xs"

lemma set_uniq_from: "set (uniq_from seen xs) = set xs - set seen"
  by (induction xs arbitrary: seen) auto

lemma set_uniq [simp]: "set (uniq xs) = set xs"
  by (simp add: uniq_def set_uniq_from)

lemma distinct_uniq_from: "distinct (uniq_from seen xs)"
  by (induction xs arbitrary: seen) (auto simp: set_uniq_from)

lemma distinct_uniq [simp]: "distinct (uniq xs)"
  by (simp add: uniq_def distinct_uniq_from)

lemma uniq_from_id: "distinct xs \<Longrightarrow> set xs \<inter> set seen = {} \<Longrightarrow> uniq_from seen xs = xs"
  by (induction xs arbitrary: seen) auto

lemma uniq_id [simp]: "distinct xs \<Longrightarrow> uniq xs = xs"
  by (simp add: uniq_def uniq_from_id)

text \<open>\<open>ORDER BY key DESC\<close> over rows in insertion order.\<close>

definition sort_desc :: "('a \<Rightarrow> int) \<Rightarrow> 'a list \<Rightarrow> 'a list" where
  "sort_desc f xs = sort_key (\<lambda>x. - f x) xs"

lemma set_sort_desc [simp]: "set (sort_desc f xs) = set xs"
  by (simp add: sort_desc_def)

lemma length_sort_desc [simp]: "length (sort_desc f xs) = length xs"
  by (simp add: sort_desc_def)

lemma distinct_sort_desc [simp]: "distinct (sort_desc f xs) = distinct xs"
  by (simp add: sort_desc_def)

lemma sorted_sort_desc: "sorted_wrt (\<lambda>a b. f b \<le> f a) (sort_desc f xs)"
proof -
  have "sorted (map (\<lambda>x. - f x) (sort_desc f xs))"
    by (simp add: sort_desc_def)
  then show ?thesis
    by (simp add: sorted_map)
qed

lemma filter_sort_desc: "filter P (sort_desc f xs) = sort_desc f (filter P xs)"
  by (simp add: sort_desc_def filter_sort)

lemma filter_not_drop: "distinct xs \<Longrightarrow> filter (\<lambda>x. x \<notin> set (drop n xs)) xs = take n xs"
proof -
  assume d: "distinct xs"
  then have "set (take n xs) \<inter> set (drop n xs) = {}"
    by (simp add: set_take_disj_set_drop_if_distinct)
  then have "filter (\<lambda>x. x \<notin> set (drop n xs)) (take n xs) = take n xs"
    by (auto intro!: filter_True)
  moreover have "filter (\<lambda>x. x \<notin> set (drop n xs)) (drop n xs) = []"
    by simp
  ultimately show ?thesis
    by (metis append.right_neutral append_take_drop_id filter_append)
qed

lemma sorted_wrt_take_drop:
  assumes "sorted_wrt R xs" and "x \<in> set (take n xs)" and "y \<in> set (drop n xs)"
  shows "R x y"
  using assms by (metis append_take_drop_id sorted_wrt_append)

lemma distinct_map_filterI [intro]: "distinct (map f xs) \<Longrightarrow> distinct (map f (filter P xs))"
  by (rule distinct_map_filter)

lemma map_map_same:
  "(\<And>x. x \<in> set xs \<Longrightarrow> f (g x) = f x) \<Longrightarrow> map f (map g xs) = map f xs"
  by simp

lemma filter_map_other:
  "(\<And>x. x \<in> set xs \<Longrightarrow> P (f x) = P x) \<Longrightarrow> (\<And>x. x \<in> set xs \<Longrightarrow> P x \<Longrightarrow> f x = x)
    \<Longrightarrow> filter P (map f xs) = filter P xs"
  by (induction xs) auto

text \<open>\<open>INSERT OR IGNORE\<close> into a table with the given key: a row whose key exists is skipped.\<close>

definition insert_or_ignore :: "('a \<Rightarrow> 'k) \<Rightarrow> 'a \<Rightarrow> 'a list \<Rightarrow> 'a list" where
  "insert_or_ignore key r tbl = (if key r \<in> key ` set tbl then tbl else tbl @ [r])"

lemma insert_or_ignore_distinct [simp]:
  "distinct (map key tbl) \<Longrightarrow> distinct (map key (insert_or_ignore key r tbl))"
  by (auto simp: insert_or_ignore_def)

lemma insert_or_ignore_keys [simp]:
  "key ` set (insert_or_ignore key r tbl) = insert (key r) (key ` set tbl)"
  by (auto simp: insert_or_ignore_def)

lemma insert_or_ignore_subset: "set tbl \<subseteq> set (insert_or_ignore key r tbl)"
  by (auto simp: insert_or_ignore_def)

lemma insert_or_ignore_cases: "x \<in> set (insert_or_ignore key r tbl) \<Longrightarrow> x = r \<or> x \<in> set tbl"
  by (auto simp: insert_or_ignore_def split: if_splits)

text \<open>Key sets of a filtered table, stated over an opaque key type.\<close>

lemma image_filter_subset: "f ` set xs \<subseteq> K \<Longrightarrow> f ` set (filter P xs) \<subseteq> K"
  by auto

lemma image_filter_mono:
  assumes "f ` set xs \<subseteq> g ` set ys"
  shows "f ` set (filter (\<lambda>x. Q (f x)) xs) \<subseteq> g ` set (filter (\<lambda>y. Q (g y)) ys)"
proof
  fix k assume "k \<in> f ` set (filter (\<lambda>x. Q (f x)) xs)"
  then have "k \<in> g ` set ys" and "Q k"
    using assms by auto
  then show "k \<in> g ` set (filter (\<lambda>y. Q (g y)) ys)"
    by auto
qed

lemma image_filter_neq:
  assumes "K \<subseteq> g ` set ys" and "k \<notin> K"
  shows "K \<subseteq> g ` set (filter (\<lambda>y. g y \<noteq> k) ys)"
proof
  fix x assume "x \<in> K"
  then have "x \<in> g ` set ys" "x \<noteq> k"
    using assms by auto
  then show "x \<in> g ` set (filter (\<lambda>y. g y \<noteq> k) ys)"
    by auto
qed

lemma image_drop_gone:
  assumes "fst ` set rs \<subseteq> key ` set xs"
  shows "fst ` set (filter (\<lambda>r. fst r \<notin> key ` set (filter P xs)) rs) \<subseteq> key ` set (filter (\<lambda>x. \<not> P x) xs)"
proof
  fix k assume "k \<in> fst ` set (filter (\<lambda>r. fst r \<notin> key ` set (filter P xs)) rs)"
  then have "k \<in> key ` set xs" "k \<notin> key ` set (filter P xs)"
    using assms by auto
  then show "k \<in> key ` set (filter (\<lambda>x. \<not> P x) xs)"
    by auto
qed

lemma find_Some_iff_ex: "(\<exists>x. List.find P xs = Some x) \<longleftrightarrow> (\<exists>x \<in> set xs. P x)"
  by (metis find_None_iff not_Some_eq)

lemma find_SomeD: "List.find P xs = Some x \<Longrightarrow> x \<in> set xs \<and> P x"
  by (metis find_Some_iff nth_mem)

text \<open>Reading a table after an upsert, over an opaque key type.\<close>

lemma lookup_upsert_old:
  assumes "k0 \<in> key ` set xs" and "\<And>x. key (f x) = key x" and "\<And>x. g (f x) = v"
  shows "map_option g (List.find (\<lambda>x. key x = k) (map (\<lambda>x. if key x = k0 then f x else x) xs)) =
    (if k = k0 then Some v else map_option g (List.find (\<lambda>x. key x = k) xs))"
proof (cases "k = k0")
  case True
  then show ?thesis
    using assms(1) by (induction xs) (auto simp: assms(2,3))
next
  case False
  then have "List.find (\<lambda>x. key x = k) (map (\<lambda>x. if key x = k0 then f x else x) xs) = List.find (\<lambda>x. key x = k) xs"
    by (induction xs) (auto simp: assms(2))
  then show ?thesis
    using False by simp
qed

lemma lookup_upsert_new:
  assumes "key r \<notin> key ` set xs"
  shows "map_option g (List.find (\<lambda>x. key x = k) (xs @ [r])) =
    (if k = key r then Some (g r) else map_option g (List.find (\<lambda>x. key x = k) xs))"
  using assms by (induction xs) auto

section \<open>Results\<close>

fun bind_result :: "'e + 'a \<Rightarrow> ('a \<Rightarrow> 'e + 'b) \<Rightarrow> 'e + 'b" where
  "bind_result (Inl e) f = Inl e"
| "bind_result (Inr a) f = f a"

lemma bind_result_Inr [simp]: "bind_result r f = Inr b \<longleftrightarrow> (\<exists>a. r = Inr a \<and> f a = Inr b)"
  by (cases r) auto

lemma bind_result_Inl: "bind_result r f = Inl e \<longleftrightarrow> r = Inl e \<or> (\<exists>a. r = Inr a \<and> f a = Inl e)"
  by (cases r) auto

section \<open>A contract for stateful components\<close>

text \<open>
  Several components are machines: a start state, a step function over the operations a caller
  may invoke, and a well-formedness every operation keeps. The client lemma is proved once: any
  sequence of operations keeps it.
\<close>

locale machine =
  fixes start :: 's
    and step :: "'s \<Rightarrow> 'op \<Rightarrow> 's"
    and inv :: "'s \<Rightarrow> bool"
  assumes start_inv: "inv start"
    and step_inv: "inv s \<Longrightarrow> inv (step s a)"
begin

definition run :: "'op list \<Rightarrow> 's" where
  "run as = foldl step start as"

lemma run_from_inv: "inv s \<Longrightarrow> inv (foldl step s as)"
  by (induction as arbitrary: s) (auto intro: step_inv)

lemma run_inv: "inv (run as)"
  unfolding run_def by (rule run_from_inv [OF start_inv])

lemma run_snoc: "run (as @ [a]) = step (run as) a"
  by (simp add: run_def)

end

section \<open>A contract for paged listings\<close>

text \<open>
  Events, KV keys and other listings are read a page at a time: a page comes with the cursor of
  the next one, or none at the end. \<open>rest c\<close> is what a listing still owes a reader whose cursor
  is \<open>c\<close>. The reader below asks for pages until there is no cursor; its fuel bounds the number of
  requests, and it is \<open>None\<close> when that is not enough.
\<close>

primrec walk_pages :: "('c option \<Rightarrow> 'a list \<times> 'c option) \<Rightarrow> nat \<Rightarrow> 'c option \<Rightarrow> 'a list option" where
  "walk_pages page 0 c = None"
| "walk_pages page (Suc n) c =
     (case snd (page c) of
        None \<Rightarrow> Some (fst (page c))
      | Some k \<Rightarrow> map_option (\<lambda>xs. fst (page c) @ xs) (walk_pages page n (Some k)))"

locale pager =
  fixes page :: "'c option \<Rightarrow> 'a list \<times> 'c option"
    and rest :: "'c option \<Rightarrow> 'a list"
  assumes page_split: "rest c = fst (page c) @ (case snd (page c) of None \<Rightarrow> [] | Some k \<Rightarrow> rest (Some k))"
    and page_progress: "snd (page c) = Some k \<Longrightarrow> fst (page c) \<noteq> []"
begin

lemma walk_rest: "walk_pages page n c = Some xs \<Longrightarrow> xs = rest c"
proof (induction n arbitrary: c xs)
  case (Suc n)
  then show ?case
    using page_split [of c] by (cases "snd (page c)") auto
qed simp

lemma walk_ends: "length (rest c) < n \<Longrightarrow> walk_pages page n c = Some (rest c)"
proof (induction n arbitrary: c)
  case (Suc n)
  show ?case
  proof (cases "snd (page c)")
    case None
    then show ?thesis
      using page_split [of c] by simp
  next
    case (Some k)
    then have "rest c = fst (page c) @ rest (Some k)" "fst (page c) \<noteq> []"
      using page_split [of c] page_progress [of c k] by simp_all
    then have "length (rest (Some k)) < n"
      using Suc.prems by (cases "fst (page c)") auto
    then show ?thesis
      using Some Suc.IH \<open>rest c = fst (page c) @ rest (Some k)\<close> by simp
  qed
qed simp

end

text \<open>The usual way to meet the contract: a strictly sorted listing, cut at the last key shown.\<close>

lemma page_of_sorted:
  fixes key :: "'a \<Rightarrow> 'k"
  assumes "0 < n" and "n < length xs" and "sorted_wrt (\<lambda>a b. R (key a) (key b)) xs"
    and "\<And>a b. R a b \<Longrightarrow> \<not> R b a" and "\<And>a. \<not> R a a"
  shows "filter (\<lambda>x. R (key (last (take n xs))) (key x)) xs = drop n xs"
proof -
  define k where "k = key (xs ! (n - 1))"
  have last: "last (take n xs) = xs ! (n - 1)"
    using assms(1,2) by (subst last_conv_nth) (auto simp: min_def)
  have "\<not> R k (key x)" if "x \<in> set (take n xs)" for x
  proof -
    obtain i where "i < length (take n xs)" "x = take n xs ! i"
      using \<open>x \<in> set (take n xs)\<close> by (metis in_set_conv_nth)
    then have i: "i < n" "x = xs ! i"
      by simp_all
    then have "i = n - 1 \<or> R (key x) k"
      using assms(2,3) by (cases "i = n - 1") (auto simp: sorted_wrt_iff_nth_less k_def)
    then show ?thesis
      using assms(4,5) i by (auto simp: k_def)
  qed
  moreover have "R k (key x)" if "x \<in> set (drop n xs)" for x
  proof -
    obtain i where "i < length (drop n xs)" "x = drop n xs ! i"
      using \<open>x \<in> set (drop n xs)\<close> by (metis in_set_conv_nth)
    then have "n + i < length xs" "x = xs ! (n + i)"
      using assms(2) by simp_all
    then show ?thesis
      using assms(1,3) by (simp add: sorted_wrt_iff_nth_less k_def)
  qed
  ultimately have "filter (\<lambda>x. R k (key x)) (take n xs @ drop n xs) = drop n xs"
    unfolding filter_append by (simp add: filter_False filter_True)
  then show ?thesis
    by (simp add: last k_def)
qed

end
