(* ===== verification/Store.thy ===== *)
theory Store
  imports Sproutboat_Prelude
begin

text \<open>
  The metadata store of the control service (\<open>src/apps/control/src/store.ts\<close>): projects,
  deployments, artifacts, bans, custom domains, secrets and storage resources in one SQLite
  database.

  A table is the list of its rows in rowid order (an insert appends, since a new rowid is one
  more than the largest); \<open>ORDER BY\<close> is a stable sort of that list. A statement that breaks a
  primary key, a unique index or a foreign key is \<open>Inl\<close> of the violation: the transaction is
  rolled back and the database is the one before the call. \<open>ON DELETE CASCADE\<close> is written out.
  Timestamps are milliseconds (the code stores \<open>toISOString()\<close> texts, which sort as the instants
  do) and the clock, random ids and the cipher are arguments.
\<close>

section \<open>Rows and the database\<close>

record artifact_row =
  ar_owner :: owner
  ar_digest :: digest
  ar_created_at :: ms

record project_row =
  pr_owner :: owner
  pr_name :: string
  pr_username :: string
  pr_created_at :: ms

record deployment =
  d_id :: string
  d_owner :: owner
  d_project :: string
  d_username :: string
  d_hostname :: string
  d_artifact :: digest
  d_sprout_path :: string
  d_deployed_at :: ms
  d_active :: bool
  d_binary_size :: "int option"
  d_compile_ms :: "int option"

record custom_domain =
  cd_hostname :: string
  cd_owner :: owner
  cd_project :: string
  cd_token :: string
  cd_verified_at :: "ms option"
  cd_created_at :: ms

record secret_row =
  se_owner :: owner
  se_project :: string
  se_name :: string
  se_ciphertext :: string
  se_updated_at :: ms

datatype ResourceKind = Kv | D1 | R2 | Queue

record storage_resource =
  r_id :: string
  r_owner :: owner
  r_kind :: ResourceKind
  r_name :: string
  r_created_at :: ms

record db =
  artifacts :: "artifact_row list"
  projects :: "project_row list"
  deployments :: "deployment list"
  banned_owners :: "(owner \<times> ms) list"
  custom_domains :: "custom_domain list"
  secrets :: "secret_row list"
  resources :: "storage_resource list"
  deployment_resources :: "(string \<times> string) list"

datatype sql_error = UniqueViolation | ForeignKeyViolation

type_synonym artifact_ref = "owner \<times> digest"
type_synonym project_key = "owner \<times> string"
type_synonym 'a tx = "sql_error + db \<times> 'a"

definition empty_db :: db where
  "empty_db = \<lparr>artifacts = [], projects = [], deployments = [], banned_owners = [],
     custom_domains = [], secrets = [], resources = [], deployment_resources = []\<rparr>"

definition kind_text :: "ResourceKind \<Rightarrow> string" where
  "kind_text k = (case k of Kv \<Rightarrow> ''kv'' | D1 \<Rightarrow> ''d1'' | R2 \<Rightarrow> ''r2'' | Queue \<Rightarrow> ''queue'')"

definition RESOURCE_KINDS :: "ResourceKind list" where
  "RESOURCE_KINDS = [Kv, D1, R2, Queue]"

text \<open>The primary keys and unique indexes of the schema.\<close>

definition ar_key :: "artifact_row \<Rightarrow> artifact_ref" where
  "ar_key a = (ar_owner a, ar_digest a)"

definition pr_key :: "project_row \<Rightarrow> project_key" where
  "pr_key p = (pr_owner p, pr_name p)"

definition d_key :: "deployment \<Rightarrow> project_key" where
  "d_key d = (d_owner d, d_project d)"

definition refOf :: "deployment \<Rightarrow> artifact_ref" where
  "refOf d = (d_owner d, d_artifact d)"

definition cd_pk :: "custom_domain \<Rightarrow> string \<times> owner" where
  "cd_pk c = (cd_hostname c, cd_owner c)"

definition cd_key :: "custom_domain \<Rightarrow> project_key" where
  "cd_key c = (cd_owner c, cd_project c)"

definition cd_verified :: "custom_domain \<Rightarrow> bool" where
  "cd_verified c = (cd_verified_at c \<noteq> None)"

definition se_key :: "secret_row \<Rightarrow> project_key" where
  "se_key s = (se_owner s, se_project s)"

definition se_pk :: "secret_row \<Rightarrow> project_key \<times> string" where
  "se_pk s = (se_key s, se_name s)"

definition r_unique :: "storage_resource \<Rightarrow> owner \<times> ResourceKind \<times> string" where
  "r_unique r = (r_owner r, r_kind r, r_name r)"

section \<open>Cascading deletes\<close>

text \<open>\<open>DELETE FROM deployments WHERE P\<close>, with the cascade to \<open>deployment_resources\<close>.\<close>

definition delete_deployments :: "(deployment \<Rightarrow> bool) \<Rightarrow> db \<Rightarrow> db" where
  "delete_deployments P db =
     (let gone = map d_id (filter P (deployments db))
      in db\<lparr>deployments := filter (\<lambda>d. \<not> P d) (deployments db),
            deployment_resources := filter (\<lambda>x. fst x \<notin> set gone) (deployment_resources db)\<rparr>)"

text \<open>
  \<open>DELETE FROM projects WHERE P\<close>, with the cascade to the deployments, custom domains and
  secrets that reference a deleted project.
\<close>

definition delete_projects :: "(project_key \<Rightarrow> bool) \<Rightarrow> db \<Rightarrow> db" where
  "delete_projects P db =
     (let gone = filter P (map pr_key (projects db));
          db1 = delete_deployments (\<lambda>d. d_key d \<in> set gone) db
      in db1\<lparr>projects := filter (\<lambda>p. \<not> P (pr_key p)) (projects db1),
             custom_domains := filter (\<lambda>c. cd_key c \<notin> set gone) (custom_domains db1),
             secrets := filter (\<lambda>s. se_key s \<notin> set gone) (secrets db1)\<rparr>)"

section \<open>Reads\<close>

definition orphanedAmong :: "artifact_ref list \<Rightarrow> db \<Rightarrow> artifact_ref list" where
  "orphanedAmong refs db =
     filter (\<lambda>r. r \<in> ar_key ` set (artifacts db) \<and> r \<notin> refOf ` set (deployments db)) (uniq refs)"

definition ownerDeployments :: "owner \<Rightarrow> db \<Rightarrow> deployment list" where
  "ownerDeployments o1 db = sort_desc d_deployed_at (filter (\<lambda>d. d_owner d = o1) (deployments db))"

definition projectDeployments :: "owner \<Rightarrow> string \<Rightarrow> db \<Rightarrow> deployment list" where
  "projectDeployments o1 p db =
     sort_desc d_deployed_at (filter (\<lambda>d. d_owner d = o1 \<and> d_project d = p) (deployments db))"

definition projectDeployment :: "owner \<Rightarrow> string \<Rightarrow> string \<Rightarrow> db \<Rightarrow> deployment option" where
  "projectDeployment o1 p i db =
     List.find (\<lambda>d. d_id d = i \<and> d_owner d = o1 \<and> d_project d = p) (deployments db)"

definition ownerProjectCount :: "owner \<Rightarrow> db \<Rightarrow> nat" where
  "ownerProjectCount o1 db = length (filter (\<lambda>p. pr_owner p = o1) (projects db))"

record project_summary =
  ps_name :: string
  ps_hostname :: string
  ps_activeDeploymentId :: string
  ps_deployedAt :: ms

text \<open>The collation key of \<open>localeCompare\<close> is an argument.\<close>

definition activeProjects :: "(string \<Rightarrow> 'k::linorder) \<Rightarrow> owner \<Rightarrow> db \<Rightarrow> project_summary list" where
  "activeProjects collate o1 db =
     sort_key (\<lambda>s. collate (ps_name s))
       (map (\<lambda>d. \<lparr>ps_name = d_project d, ps_hostname = d_hostname d,
                   ps_activeDeploymentId = d_id d, ps_deployedAt = d_deployed_at d\<rparr>)
          (filter (\<lambda>d. d_owner d = o1 \<and> d_active d) (deployments db)))"

record global_stats =
  gs_owners :: nat
  gs_projects :: nat
  gs_activeProjects :: nat
  gs_deployments :: nat
  gs_artifacts :: nat
  gs_bannedOwners :: nat

definition globalStats :: "db \<Rightarrow> global_stats" where
  "globalStats db = \<lparr>
     gs_owners = length (uniq (map pr_owner (projects db))),
     gs_projects = length (projects db),
     gs_activeProjects = length (filter d_active (deployments db)),
     gs_deployments = length (deployments db),
     gs_artifacts = length (artifacts db),
     gs_bannedOwners = length (banned_owners db)\<rparr>"

definition bannedOwners :: "db \<Rightarrow> owner list" where
  "bannedOwners db = map fst (banned_owners db)"

record owner_rollup =
  or_ownerId :: owner
  or_username :: string
  or_projects :: nat
  or_deployments :: nat
  or_activeProjects :: nat
  or_banned :: bool

text \<open>\<open>GROUP BY owner_id\<close> walks the owner index, so the groups come in owner order.\<close>

definition ownerRollups :: "db \<Rightarrow> owner_rollup list" where
  "ownerRollups db =
     map (\<lambda>o1. let rows = filter (\<lambda>d. d_owner d = o1) (deployments db)
               in \<lparr>or_ownerId = o1,
                   or_username = fold max (map d_username rows) [],
                   or_projects = length (uniq (map d_project rows)),
                   or_deployments = length rows,
                   or_activeProjects = length (filter d_active rows),
                   or_banned = (o1 \<in> set (bannedOwners db))\<rparr>)
       (sort (uniq (map d_owner (deployments db))))"

definition ownerDomainCounts :: "owner \<Rightarrow> db \<Rightarrow> (string \<times> nat) list" where
  "ownerDomainCounts o1 db =
     (let rows = filter (\<lambda>c. cd_owner c = o1) (custom_domains db)
      in map (\<lambda>p. (p, length (filter (\<lambda>c. cd_project c = p) rows))) (sort (uniq (map cd_project rows))))"

text \<open>The join of \<open>deployment_resources\<close> and \<open>deployments\<close> for one owner, as (resource, project).\<close>

definition bound_pairs :: "owner \<Rightarrow> db \<Rightarrow> (string \<times> string) list" where
  "bound_pairs o1 db =
     concat (map (\<lambda>x. map (\<lambda>d. (snd x, d_project d))
                        (filter (\<lambda>d. d_id d = fst x \<and> d_owner d = o1) (deployments db)))
               (deployment_resources db))"

definition ownerResourceProjects :: "owner \<Rightarrow> db \<Rightarrow> (string \<times> string list) list" where
  "ownerResourceProjects o1 db =
     fold (\<lambda>x m. AList.update (fst x)
                  ((case map_of m (fst x) of None \<Rightarrow> [] | Some ps \<Rightarrow> ps) @ [snd x]) m)
       (sort_key snd (uniq (bound_pairs o1 db))) []"

definition resourceReferencingProjects :: "owner \<Rightarrow> string \<Rightarrow> db \<Rightarrow> string list" where
  "resourceReferencingProjects o1 rid db =
     sort (uniq (map snd (filter (\<lambda>x. fst x = rid) (bound_pairs o1 db))))"

definition deploymentResources :: "owner \<Rightarrow> string \<Rightarrow> db \<Rightarrow> storage_resource list" where
  "deploymentResources o1 did db =
     sort_key (\<lambda>r. [kind_text (r_kind r), r_name r])
       (concat (map (\<lambda>x. concat (map (\<lambda>d. filter (\<lambda>r. r_id r = snd x \<and> r_owner r = o1) (resources db))
                          (filter (\<lambda>d. d_id d = fst x \<and> d_owner d = o1) (deployments db))))
          (filter (\<lambda>x. fst x = did) (deployment_resources db))))"

definition projectCustomDomains :: "owner \<Rightarrow> string \<Rightarrow> db \<Rightarrow> custom_domain list" where
  "projectCustomDomains o1 p db =
     sort_key cd_hostname (filter (\<lambda>c. cd_owner c = o1 \<and> cd_project c = p) (custom_domains db))"

definition secretNames :: "owner \<Rightarrow> string \<Rightarrow> db \<Rightarrow> string list" where
  "secretNames o1 p db = sort (map se_name (filter (\<lambda>s. se_key s = (o1, p)) (secrets db)))"

definition secretCount :: "owner \<Rightarrow> string \<Rightarrow> db \<Rightarrow> nat" where
  "secretCount o1 p db = length (filter (\<lambda>s. se_key s = (o1, p)) (secrets db))"

definition projectSecretValues :: "(string \<Rightarrow> string) \<Rightarrow> owner \<Rightarrow> string \<Rightarrow> db \<Rightarrow> (string \<times> string) list" where
  "projectSecretValues decrypt o1 p db =
     map (\<lambda>s. (se_name s, decrypt (se_ciphertext s))) (filter (\<lambda>s. se_key s = (o1, p)) (secrets db))"

definition ownerResources :: "owner \<Rightarrow> db \<Rightarrow> storage_resource list" where
  "ownerResources o1 db =
     sort_key (\<lambda>r. [kind_text (r_kind r), r_name r]) (filter (\<lambda>r. r_owner r = o1) (resources db))"

definition resourceById :: "owner \<Rightarrow> string \<Rightarrow> db \<Rightarrow> storage_resource option" where
  "resourceById o1 i db = List.find (\<lambda>r. r_id r = i \<and> r_owner r = o1) (resources db)"

definition resourceCount :: "owner \<Rightarrow> db \<Rightarrow> nat" where
  "resourceCount o1 db = length (filter (\<lambda>r. r_owner r = o1) (resources db))"

definition projectHosts :: "owner \<Rightarrow> string \<Rightarrow> db \<Rightarrow> string list" where
  "projectHosts o1 p db =
     sort (uniq (map d_hostname (filter (\<lambda>d. d_key d = (o1, p) \<and> d_active d) (deployments db))
       @ map cd_hostname (filter (\<lambda>c. cd_key c = (o1, p) \<and> cd_verified c) (custom_domains db))))"

section \<open>Mutations\<close>

text \<open>\<open>UPDATE deployments SET active = 0 WHERE owner_id = ? AND project = ?\<close>\<close>

definition deactivate :: "owner \<Rightarrow> string \<Rightarrow> deployment list \<Rightarrow> deployment list" where
  "deactivate o1 p ds = map (\<lambda>d. if d_owner d = o1 \<and> d_project d = p then d\<lparr>d_active := False\<rparr> else d) ds"

text \<open>
  The argument's \<open>d_active\<close> is ignored: the code's input has no such field. The two
  \<open>INSERT OR IGNORE\<close>s come first, so the insert of the deployment can only fail on its id.
\<close>

definition recordDeployment :: "deployment \<Rightarrow> string list \<Rightarrow> db \<Rightarrow> deployment tx" where
  "recordDeployment input resourceIds db =
     (let row = input\<lparr>d_active := True\<rparr>;
          ps = insert_or_ignore pr_key
                 \<lparr>pr_owner = d_owner row, pr_name = d_project row, pr_username = d_username row,
                  pr_created_at = d_deployed_at row\<rparr> (projects db);
          as = insert_or_ignore ar_key
                 \<lparr>ar_owner = d_owner row, ar_digest = d_artifact row, ar_created_at = d_deployed_at row\<rparr>
                 (artifacts db);
          ds = deactivate (d_owner row) (d_project row) (deployments db)
      in if d_id row \<in> d_id ` set ds then Inl UniqueViolation
         else Inr (db\<lparr>projects := ps, artifacts := as, deployments := ds @ [row],
                      deployment_resources :=
                        fold (\<lambda>rid. insert_or_ignore id (d_id row, rid)) (uniq resourceIds)
                          (deployment_resources db)\<rparr>, row))"

definition activateDeployment :: "owner \<Rightarrow> string \<Rightarrow> string \<Rightarrow> db \<Rightarrow> db \<times> deployment option" where
  "activateDeployment o1 p i db =
     (case projectDeployment o1 p i db of
        None \<Rightarrow> (db, None)
      | Some target \<Rightarrow>
          (db\<lparr>deployments := map (\<lambda>d. if d_id d = i then d\<lparr>d_active := True\<rparr> else d)
                               (deactivate o1 p (deployments db))\<rparr>,
           Some (target\<lparr>d_active := True\<rparr>)))"

record project_deletion =
  pd_removed :: nat
  pd_hostnames :: "string list"
  pd_orphanedArtifacts :: "artifact_ref list"

definition deleteProject :: "owner \<Rightarrow> string \<Rightarrow> db \<Rightarrow> db \<times> project_deletion" where
  "deleteProject o1 p db =
     (let rows = filter (\<lambda>d. d_owner d = o1 \<and> d_project d = p) (deployments db);
          db' = delete_projects (\<lambda>k. k = (o1, p)) db
      in (db', \<lparr>pd_removed = length rows, pd_hostnames = uniq (map d_hostname rows),
                pd_orphanedArtifacts = orphanedAmong (map refOf rows) db'\<rparr>))"

record deployment_deletion =
  dd_deleted :: bool
  dd_active :: bool
  dd_orphanedArtifacts :: "artifact_ref list"

definition deleteDeployment :: "owner \<Rightarrow> string \<Rightarrow> string \<Rightarrow> db \<Rightarrow> db \<times> deployment_deletion option" where
  "deleteDeployment o1 p i db =
     (case projectDeployment o1 p i db of
        None \<Rightarrow> (db, None)
      | Some row \<Rightarrow>
          if d_active row
          then (db, Some \<lparr>dd_deleted = False, dd_active = True, dd_orphanedArtifacts = []\<rparr>)
          else let db' = delete_deployments (\<lambda>d. d_id d = i) db
               in (db', Some \<lparr>dd_deleted = True, dd_active = False,
                              dd_orphanedArtifacts = orphanedAmong [refOf row] db'\<rparr>))"

text \<open>The versions \<open>pruneProjectDeployments\<close> removes: all but the newest \<open>keep\<close> inactive ones.\<close>

definition doomed_versions :: "owner \<Rightarrow> string \<Rightarrow> nat \<Rightarrow> db \<Rightarrow> deployment list" where
  "doomed_versions o1 p keep db = drop keep (filter (\<lambda>d. \<not> d_active d) (projectDeployments o1 p db))"

definition pruneProjectDeployments :: "owner \<Rightarrow> string \<Rightarrow> rat \<Rightarrow> db \<Rightarrow> db \<times> artifact_ref list" where
  "pruneProjectDeployments o1 p keep db =
     (if of_int (floor keep) \<noteq> keep \<or> keep < 1 then (db, [])
      else let doomed = doomed_versions o1 p (nat (floor keep)) db
           in if doomed = [] then (db, [])
              else let db' = fold (\<lambda>row. delete_deployments (\<lambda>d. d_id d = d_id row)) doomed db
                   in (db', orphanedAmong (map refOf doomed) db'))"

definition banOwner :: "ms \<Rightarrow> owner \<Rightarrow> db \<Rightarrow> db" where
  "banOwner now o1 db = db\<lparr>banned_owners := insert_or_ignore fst (o1, now) (banned_owners db)\<rparr>"

definition unbanOwner :: "owner \<Rightarrow> db \<Rightarrow> db" where
  "unbanOwner o1 db = db\<lparr>banned_owners := filter (\<lambda>b. fst b \<noteq> o1) (banned_owners db)\<rparr>"

definition deleteOwner :: "owner \<Rightarrow> db \<Rightarrow> db \<times> project_deletion" where
  "deleteOwner o1 db =
     (let rows = filter (\<lambda>d. d_owner d = o1) (deployments db);
          db1 = delete_projects (\<lambda>k. fst k = o1) db;
          db' = db1\<lparr>resources := filter (\<lambda>r. r_owner r \<noteq> o1) (resources db1)\<rparr>
      in (db', \<lparr>pd_removed = length rows, pd_hostnames = uniq (map d_hostname rows),
                pd_orphanedArtifacts = orphanedAmong (map refOf rows) db'\<rparr>))"

subsection \<open>Custom domains\<close>

definition DOMAIN_CLAIM_TTL_MS :: int where
  "DOMAIN_CLAIM_TTL_MS = 24 * 60 * 60000"

definition claimIsStale :: "ms \<Rightarrow> custom_domain \<Rightarrow> bool" where
  "claimIsStale now c \<longleftrightarrow> \<not> cd_verified c \<and> cd_created_at c < now - DOMAIN_CLAIM_TTL_MS"

definition dropStaleClaims :: "ms \<Rightarrow> string \<Rightarrow> db \<Rightarrow> db" where
  "dropStaleClaims now h db =
     db\<lparr>custom_domains := filter (\<lambda>c. \<not> (cd_hostname c = h \<and> \<not> cd_verified c \<and>
                                       cd_created_at c < now - DOMAIN_CLAIM_TTL_MS)) (custom_domains db)\<rparr>"

definition customDomainByHostname :: "ms \<Rightarrow> string \<Rightarrow> db \<Rightarrow> custom_domain option" where
  "customDomainByHostname now h db =
     (let rows = sort_desc cd_created_at (filter (\<lambda>c. cd_hostname c = h) (custom_domains db));
          live = filter (\<lambda>c. \<not> claimIsStale now c) rows
      in case List.find cd_verified live of
           Some c \<Rightarrow> Some c
         | None \<Rightarrow> (case live of [] \<Rightarrow> None | c # _ \<Rightarrow> Some c))"

datatype ClaimResult = Claimed custom_domain | VerifiedElsewhere | AlreadyYours

text \<open>The stale claims are dropped even when the claim is refused: the transaction commits.\<close>

definition claimCustomDomain ::
    "ms \<Rightarrow> string \<Rightarrow> owner \<Rightarrow> string \<Rightarrow> string \<Rightarrow> db \<Rightarrow> ClaimResult tx" where
  "claimCustomDomain now h o1 p token db =
     (let db1 = dropStaleClaims now h db
      in if \<exists>c \<in> set (custom_domains db1). cd_hostname c = h \<and> cd_verified c
         then Inr (db1, VerifiedElsewhere)
         else if \<exists>c \<in> set (custom_domains db1). cd_hostname c = h \<and> cd_owner c = o1
         then Inr (db1, AlreadyYours)
         else if (o1, p) \<notin> pr_key ` set (projects db1) then Inl ForeignKeyViolation
         else let row = \<lparr>cd_hostname = h, cd_owner = o1, cd_project = p, cd_token = token,
                         cd_verified_at = None, cd_created_at = now\<rparr>
              in Inr (db1\<lparr>custom_domains := custom_domains db1 @ [row]\<rparr>, Claimed row))"

definition addCustomDomain ::
    "ms \<Rightarrow> string \<Rightarrow> owner \<Rightarrow> string \<Rightarrow> string \<Rightarrow> db \<Rightarrow> (custom_domain option) tx" where
  "addCustomDomain now h o1 p token db =
     (case claimCustomDomain now h o1 p token db of
        Inl e \<Rightarrow> Inl e
      | Inr (db', Claimed c) \<Rightarrow> Inr (db', Some c)
      | Inr (db', _) \<Rightarrow> Inr (db', None))"

definition markCustomDomainVerified :: "ms \<Rightarrow> owner \<Rightarrow> string \<Rightarrow> string \<Rightarrow> db \<Rightarrow> db \<times> bool" where
  "markCustomDomainVerified now o1 p h db =
     (if \<exists>c \<in> set (custom_domains db). cd_hostname c = h \<and> cd_verified c then (db, False)
      else let hit = (\<lambda>c. cd_hostname c = h \<and> cd_owner c = o1 \<and> cd_project c = p \<and> \<not> cd_verified c);
               marked = (\<exists>c \<in> set (custom_domains db). hit c);
               rows = map (\<lambda>c. if hit c then c\<lparr>cd_verified_at := Some now\<rparr> else c) (custom_domains db)
           in if marked
              then (db\<lparr>custom_domains := filter (\<lambda>c. \<not> (cd_hostname c = h \<and> cd_owner c \<noteq> o1)) rows\<rparr>, True)
              else (db, False))"

definition deleteCustomDomain :: "owner \<Rightarrow> string \<Rightarrow> string \<Rightarrow> db \<Rightarrow> db \<times> bool" where
  "deleteCustomDomain o1 p h db =
     (let hit = (\<lambda>c. cd_hostname c = h \<and> cd_owner c = o1 \<and> cd_project c = p)
      in (db\<lparr>custom_domains := filter (\<lambda>c. \<not> hit c) (custom_domains db)\<rparr>,
          \<exists>c \<in> set (custom_domains db). hit c))"

subsection \<open>Secrets and resources\<close>

text \<open>An upsert: a row that exists keeps its place and its key.\<close>

definition setSecret ::
    "(string \<Rightarrow> string) \<Rightarrow> ms \<Rightarrow> owner \<Rightarrow> string \<Rightarrow> string \<Rightarrow> string \<Rightarrow> db \<Rightarrow> unit tx" where
  "setSecret encrypt now o1 p name v db =
     (let row = \<lparr>se_owner = o1, se_project = p, se_name = name, se_ciphertext = encrypt v, se_updated_at = now\<rparr>
      in if se_pk row \<in> se_pk ` set (secrets db)
         then Inr (db\<lparr>secrets := map (\<lambda>s. if se_pk s = se_pk row
                       then s\<lparr>se_ciphertext := encrypt v, se_updated_at := now\<rparr> else s) (secrets db)\<rparr>, ())
         else if (o1, p) \<notin> pr_key ` set (projects db) then Inl ForeignKeyViolation
         else Inr (db\<lparr>secrets := secrets db @ [row]\<rparr>, ()))"

definition deleteSecret :: "owner \<Rightarrow> string \<Rightarrow> string \<Rightarrow> db \<Rightarrow> db \<times> bool" where
  "deleteSecret o1 p name db =
     (let hit = (\<lambda>s. se_pk s = ((o1, p), name))
      in (db\<lparr>secrets := filter (\<lambda>s. \<not> hit s) (secrets db)\<rparr>, \<exists>s \<in> set (secrets db). hit s))"

text \<open>\<open>hex\<close> is the 24 hex digits of \<open>randomBytes(12)\<close>.\<close>

definition createResource ::
    "string \<Rightarrow> ms \<Rightarrow> owner \<Rightarrow> ResourceKind \<Rightarrow> string \<Rightarrow> db \<Rightarrow> storage_resource tx" where
  "createResource hex now o1 k name db =
     (let row = \<lparr>r_id = kind_text k @ ''_'' @ hex, r_owner = o1, r_kind = k, r_name = name, r_created_at = now\<rparr>
      in if r_id row \<in> r_id ` set (resources db) \<or> r_unique row \<in> r_unique ` set (resources db)
         then Inl UniqueViolation
         else Inr (db\<lparr>resources := resources db @ [row]\<rparr>, row))"

definition renameResource :: "owner \<Rightarrow> string \<Rightarrow> string \<Rightarrow> db \<Rightarrow> bool tx" where
  "renameResource o1 i name db =
     (let hit = (\<lambda>r. r_id r = i \<and> r_owner r = o1);
          rows = map (\<lambda>r. if hit r then r\<lparr>r_name := name\<rparr> else r) (resources db)
      in if distinct (map r_unique rows)
         then Inr (db\<lparr>resources := rows\<rparr>, \<exists>r \<in> set (resources db). hit r)
         else Inl UniqueViolation)"

definition deleteResource :: "owner \<Rightarrow> string \<Rightarrow> db \<Rightarrow> db \<times> bool" where
  "deleteResource o1 i db =
     (let hit = (\<lambda>r. r_id r = i \<and> r_owner r = o1)
      in (db\<lparr>resources := filter (\<lambda>r. \<not> hit r) (resources db)\<rparr>, \<exists>r \<in> set (resources db). hit r))"

subsection \<open>Dropping an artifact row\<close>

text \<open>
  The guarded delete of \<open>collectArtifacts\<close>: only while none of the owner's deployments
  references the artifact. The flag is the statement's \<open>changes\<close>.
\<close>

definition drop_artifact_row :: "artifact_ref \<Rightarrow> db \<Rightarrow> db \<times> bool" where
  "drop_artifact_row ref db =
     (if ref \<in> refOf ` set (deployments db) then (db, False)
      else (db\<lparr>artifacts := filter (\<lambda>a. ar_key a \<noteq> ref) (artifacts db)\<rparr>,
            ref \<in> ar_key ` set (artifacts db)))"

section \<open>The store as a machine\<close>

text \<open>
  One constructor per exported mutation. A violation rolls the transaction back, so the step
  leaves the database as it was.
\<close>

datatype db_op =
    RecordDeployment deployment "string list"
  | ActivateDeployment owner string string
  | DeleteProject owner string
  | DeleteDeployment owner string string
  | PruneProjectDeployments owner string rat
  | BanOwner ms owner
  | UnbanOwner owner
  | DeleteOwner owner
  | ClaimCustomDomain ms string owner string string
  | MarkCustomDomainVerified ms owner string string
  | DeleteCustomDomain owner string string
  | SetSecret ms owner string string string
  | DeleteSecret owner string string
  | CreateResource string ms owner ResourceKind string
  | RenameResource owner string string
  | DeleteResource owner string
  | DropArtifactRow owner digest

definition commit :: "db \<Rightarrow> 'a tx \<Rightarrow> db" where
  "commit db t = (case t of Inl _ \<Rightarrow> db | Inr r \<Rightarrow> fst r)"

fun db_step :: "(string \<Rightarrow> string) \<Rightarrow> db \<Rightarrow> db_op \<Rightarrow> db" where
  "db_step enc db (RecordDeployment d rs) = commit db (recordDeployment d rs db)"
| "db_step enc db (ActivateDeployment o1 p i) = fst (activateDeployment o1 p i db)"
| "db_step enc db (DeleteProject o1 p) = fst (deleteProject o1 p db)"
| "db_step enc db (DeleteDeployment o1 p i) = fst (deleteDeployment o1 p i db)"
| "db_step enc db (PruneProjectDeployments o1 p k) = fst (pruneProjectDeployments o1 p k db)"
| "db_step enc db (BanOwner now o1) = banOwner now o1 db"
| "db_step enc db (UnbanOwner o1) = unbanOwner o1 db"
| "db_step enc db (DeleteOwner o1) = fst (deleteOwner o1 db)"
| "db_step enc db (ClaimCustomDomain now h o1 p t) = commit db (claimCustomDomain now h o1 p t db)"
| "db_step enc db (MarkCustomDomainVerified now o1 p h) = fst (markCustomDomainVerified now o1 p h db)"
| "db_step enc db (DeleteCustomDomain o1 p h) = fst (deleteCustomDomain o1 p h db)"
| "db_step enc db (SetSecret now o1 p n v) = commit db (setSecret enc now o1 p n v db)"
| "db_step enc db (DeleteSecret o1 p n) = fst (deleteSecret o1 p n db)"
| "db_step enc db (CreateResource hex now o1 k n) = commit db (createResource hex now o1 k n db)"
| "db_step enc db (RenameResource o1 i n) = commit db (renameResource o1 i n db)"
| "db_step enc db (DeleteResource o1 i) = fst (deleteResource o1 i db)"
| "db_step enc db (DropArtifactRow o1 dg) = fst (drop_artifact_row (o1, dg) db)"

section \<open>Well-formedness\<close>

text \<open>The keys and unique indexes of the schema.\<close>

definition keys_ok :: "db \<Rightarrow> bool" where
  "keys_ok db \<longleftrightarrow>
     distinct (map ar_key (artifacts db)) \<and>
     distinct (map pr_key (projects db)) \<and>
     distinct (map d_id (deployments db)) \<and>
     distinct (map fst (banned_owners db)) \<and>
     distinct (map cd_pk (custom_domains db)) \<and>
     distinct (map se_pk (secrets db)) \<and>
     distinct (map r_id (resources db)) \<and>
     distinct (map r_unique (resources db)) \<and>
     distinct (deployment_resources db)"

text \<open>The foreign keys.\<close>

definition refs_ok :: "db \<Rightarrow> bool" where
  "refs_ok db \<longleftrightarrow>
     refOf ` set (deployments db) \<subseteq> ar_key ` set (artifacts db) \<and>
     d_key ` set (deployments db) \<subseteq> pr_key ` set (projects db) \<and>
     cd_key ` set (custom_domains db) \<subseteq> pr_key ` set (projects db) \<and>
     se_key ` set (secrets db) \<subseteq> pr_key ` set (projects db) \<and>
     fst ` set (deployment_resources db) \<subseteq> d_id ` set (deployments db)"

text \<open>
  What the code adds to the schema: a project always has exactly one active version (the unique
  index only forbids two), and a verified hostname has no other claim (the index only forbids a
  second verified one).
\<close>

definition active_ok :: "db \<Rightarrow> bool" where
  "active_ok db \<longleftrightarrow>
     distinct (map d_key (filter d_active (deployments db))) \<and>
     pr_key ` set (projects db) \<subseteq> d_key ` set (filter d_active (deployments db))"

definition domains_ok :: "db \<Rightarrow> bool" where
  "domains_ok db \<longleftrightarrow>
     (\<forall>c \<in> set (custom_domains db). cd_verified c \<longrightarrow>
        (\<forall>c' \<in> set (custom_domains db). cd_hostname c' = cd_hostname c \<longrightarrow> c' = c))"

definition db_ok :: "db \<Rightarrow> bool" where
  "db_ok db \<longleftrightarrow> keys_ok db \<and> refs_ok db \<and> active_ok db \<and> domains_ok db"

end
