(* ===== verification/Store_Invariants.thy ===== *)
theory Store_Invariants
  imports Store
begin

text \<open>
  The store keeps its well-formedness: keys and unique indexes, foreign keys, one active version
  per project and a single claim on a verified hostname, through every mutation. The store is an
  instance of the \<open>machine\<close> locale, so this holds after any sequence of calls.
\<close>

lemmas db_ok_defs = db_ok_def keys_ok_def refs_ok_def active_ok_def domains_ok_def

lemma empty_db_ok [ok_intros]: "db_ok empty_db"
  by (simp add: db_ok_defs empty_db_def)

section \<open>Row keys under the updates\<close>

lemma key_update [simp]:
  "d_id (d\<lparr>d_active := b\<rparr>) = d_id d"
  "d_key (d\<lparr>d_active := b\<rparr>) = d_key d"
  "refOf (d\<lparr>d_active := b\<rparr>) = refOf d"
  "cd_pk (c\<lparr>cd_verified_at := v\<rparr>) = cd_pk c"
  "cd_key (c\<lparr>cd_verified_at := v\<rparr>) = cd_key c"
  "se_pk (s\<lparr>se_ciphertext := x, se_updated_at := t\<rparr>) = se_pk s"
  "se_key (s\<lparr>se_ciphertext := x, se_updated_at := t\<rparr>) = se_key s"
  by (simp_all add: d_key_def refOf_def cd_pk_def cd_key_def se_pk_def se_key_def)

lemma deactivate_keys [simp]:
  "map d_id (deactivate o1 p ds) = map d_id ds"
  "map d_key (deactivate o1 p ds) = map d_key ds"
  "map refOf (deactivate o1 p ds) = map refOf ds"
  by (induction ds) (auto simp: deactivate_def d_key_def refOf_def)

lemma deactivate_key_sets [simp]:
  "d_id ` set (deactivate o1 p ds) = d_id ` set ds"
  "d_key ` set (deactivate o1 p ds) = d_key ` set ds"
  "refOf ` set (deactivate o1 p ds) = refOf ` set ds"
  by (metis deactivate_keys(1) set_map, metis deactivate_keys(2) set_map, metis deactivate_keys(3) set_map)

lemma deactivate_active:
  "filter d_active (deactivate o1 p ds) = filter (\<lambda>d. d_active d \<and> d_key d \<noteq> (o1, p)) ds"
  by (induction ds) (auto simp: deactivate_def d_key_def)

text \<open>Setting \<open>active\<close> on one id, given that no row of its project is active.\<close>

definition set_active :: "string \<Rightarrow> deployment list \<Rightarrow> deployment list" where
  "set_active i ds = map (\<lambda>d. if d_id d = i then d\<lparr>d_active := True\<rparr> else d) ds"

lemma set_active_keys [simp]:
  "map d_id (set_active i ds) = map d_id ds"
  "map d_key (set_active i ds) = map d_key ds"
  "map refOf (set_active i ds) = map refOf ds"
  by (induction ds) (auto simp: set_active_def d_key_def refOf_def)

lemma set_active_key_sets [simp]:
  "d_id ` set (set_active i ds) = d_id ` set ds"
  "d_key ` set (set_active i ds) = d_key ` set ds"
  "refOf ` set (set_active i ds) = refOf ` set ds"
  by (metis set_active_keys(1) set_map, metis set_active_keys(2) set_map, metis set_active_keys(3) set_map)

lemma set_active_absent: "i \<notin> d_id ` set ds \<Longrightarrow> set_active i ds = ds"
  by (induction ds) (auto simp: set_active_def)

lemma set_active_distinct:
  assumes "distinct (map d_id ds)" and "d \<in> set ds" and "d_id d = i" and "\<not> d_active d"
    and "d_key d \<notin> d_key ` set (filter d_active ds)"
    and "distinct (map d_key (filter d_active ds))"
  shows "distinct (map d_key (filter d_active (set_active i ds)))
    \<and> d_key ` set (filter d_active (set_active i ds)) = insert (d_key d) (d_key ` set (filter d_active ds))"
  using assms
proof (induction ds)
  case (Cons x ds)
  show ?case
  proof (cases "x = d")
    case True
    then have "i \<notin> d_id ` set ds"
      using Cons.prems by auto
    then have "set_active i ds = ds"
      by (rule set_active_absent)
    then have "set_active i (x # ds) = x\<lparr>d_active := True\<rparr> # ds"
      using Cons.prems True by (simp add: set_active_def)
    then show ?thesis
      using Cons.prems True by auto
  next
    case False
    then have "d_id x \<noteq> i"
      using Cons.prems by auto
    then have "set_active i (x # ds) = x # set_active i ds"
      by (simp add: set_active_def)
    moreover have "distinct (map d_key (filter d_active (set_active i ds)))
      \<and> d_key ` set (filter d_active (set_active i ds)) = insert (d_key d) (d_key ` set (filter d_active ds))"
      using Cons False by (auto split: if_splits)
    ultimately show ?thesis
      using Cons.prems by (auto split: if_splits)
  qed
qed simp

section \<open>Deployments and projects\<close>

lemma fold_insert_or_ignore:
  "distinct tbl \<Longrightarrow> distinct (fold (\<lambda>x. insert_or_ignore id (f x)) xs tbl)"
  "set (fold (\<lambda>x. insert_or_ignore id (f x)) xs tbl) = set tbl \<union> f ` set xs"
  by (induction xs arbitrary: tbl) (auto simp: insert_or_ignore_def)

lemma recordDeployment_ok:
  assumes "db_ok db" and rec: "recordDeployment input rids db = Inr (db', row)"
  shows "db_ok db'"
proof -
  define k where "k = d_key row"
  have row: "row = input\<lparr>d_active := True\<rparr>" "d_active row"
    and fresh: "d_id row \<notin> d_id ` set (deployments db)"
    using rec by (auto simp: recordDeployment_def Let_def split: if_splits)
  have db': "db' = db\<lparr>
      projects := insert_or_ignore pr_key
        \<lparr>pr_owner = d_owner row, pr_name = d_project row, pr_username = d_username row,
         pr_created_at = d_deployed_at row\<rparr> (projects db),
      artifacts := insert_or_ignore ar_key
        \<lparr>ar_owner = d_owner row, ar_digest = d_artifact row, ar_created_at = d_deployed_at row\<rparr>
        (artifacts db),
      deployments := deactivate (d_owner row) (d_project row) (deployments db) @ [row],
      deployment_resources := fold (\<lambda>rid. insert_or_ignore id (d_id row, rid)) (uniq rids)
        (deployment_resources db)\<rparr>"
    using rec by (auto simp: recordDeployment_def Let_def split: if_splits)
  have old: "distinct (map pr_key (projects db))" "distinct (map ar_key (artifacts db))"
    "distinct (deployment_resources db)"
    "fst ` set (deployment_resources db) \<subseteq> d_id ` set (deployments db)"
    using assms(1) by (simp_all add: db_ok_defs)
  have tabs: "deployments db' = deactivate (d_owner row) (d_project row) (deployments db) @ [row]"
    "pr_key ` set (projects db') = insert k (pr_key ` set (projects db))"
    "distinct (map pr_key (projects db'))"
    "ar_key ` set (artifacts db') = insert (refOf row) (ar_key ` set (artifacts db))"
    "distinct (map ar_key (artifacts db'))"
    "distinct (deployment_resources db')"
    "banned_owners db' = banned_owners db" "custom_domains db' = custom_domains db"
    "secrets db' = secrets db" "resources db' = resources db"
    by (simp_all add: db' old fold_insert_or_ignore k_def d_key_def refOf_def pr_key_def [of "\<lparr>pr_owner = _, pr_name = _, pr_username = _, pr_created_at = _\<rparr>"]
        ar_key_def [of "\<lparr>ar_owner = _, ar_digest = _, ar_created_at = _\<rparr>"])
  have dr: "fst ` set (deployment_resources db') \<subseteq> insert (d_id row) (d_id ` set (deployments db))"
    using old(4) by (auto simp: db' fold_insert_or_ignore)
  have act: "filter d_active (deployments db') =
      filter (\<lambda>d. d_active d \<and> d_key d \<noteq> k) (deployments db) @ [row]"
    using row(2) by (simp add: tabs(1) deactivate_active k_def d_key_def)
  have "distinct (map d_key (filter (\<lambda>d. d_active d \<and> d_key d \<noteq> k) (deployments db)))"
    using assms(1) distinct_map_filter [of d_key "filter d_active (deployments db)" "\<lambda>d. d_key d \<noteq> k"]
    by (simp add: db_ok_defs)
  moreover have "d_key ` set (filter d_active (deployments db)) \<subseteq>
      insert k (d_key ` {d \<in> set (deployments db). d_active d \<and> d_key d \<noteq> k})"
    by auto
  ultimately have "active_ok db'"
    using assms(1) unfolding active_ok_def act tabs(2) db_ok_def by (auto simp: k_def [symmetric])
  moreover have "keys_ok db'"
    using assms(1) fresh by (simp add: db_ok_defs tabs)
  moreover have "refs_ok db'"
    using assms(1) dr by (auto simp: db_ok_def refs_ok_def tabs k_def)
  moreover have "domains_ok db'"
    using assms(1) by (simp add: db_ok_defs tabs)
  ultimately show ?thesis
    by (simp add: db_ok_def)
qed

lemma activateDeployment_ok:
  assumes "db_ok db"
  shows "db_ok (fst (activateDeployment o1 p i db))"
proof (cases "projectDeployment o1 p i db")
  case (Some t)
  then have t: "t \<in> set (deployments db)" "d_id t = i" "d_key t = (o1, p)"
    by (auto simp: projectDeployment_def d_key_def dest: find_SomeD)
  let ?ds = "deactivate o1 p (deployments db)"
  have "t\<lparr>d_active := False\<rparr> \<in> set ?ds"
    using t by (auto simp: deactivate_def d_key_def image_iff)
  moreover have "distinct (map d_key (filter d_active ?ds))"
    using assms distinct_map_filter [of d_key "filter d_active (deployments db)" "\<lambda>d. d_key d \<noteq> (o1, p)"]
    by (simp add: deactivate_active db_ok_defs)
  moreover have "distinct (map d_id ?ds)"
    using assms by (simp add: db_ok_defs)
  moreover have "(o1, p) \<notin> d_key ` set (filter d_active ?ds)"
    by (auto simp: deactivate_active)
  ultimately have *: "distinct (map d_key (filter d_active (set_active i ?ds)))"
    "d_key ` set (filter d_active (set_active i ?ds)) = insert (o1, p) (d_key ` set (filter d_active ?ds))"
    using set_active_distinct [of ?ds "t\<lparr>d_active := False\<rparr>" i] t by auto
  have eq: "fst (activateDeployment o1 p i db) = db\<lparr>deployments := set_active i ?ds\<rparr>"
    by (simp add: activateDeployment_def Some set_active_def)
  have "d_key ` set (filter d_active (deployments db)) \<subseteq> insert k (d_key ` set (filter d_active ?ds))"
    if "k = (o1, p)" for k
    using that [symmetric] by (auto simp: deactivate_active)
  then have "active_ok (db\<lparr>deployments := set_active i ?ds\<rparr>)"
    using assms * unfolding active_ok_def db_ok_def by (simp add: subset_trans [rotated])
  then show ?thesis
    using assms by (simp add: eq db_ok_defs)
qed (use assms in \<open>simp add: activateDeployment_def\<close>)

lemma delete_deployments_frame [frame_simps]:
  "projects (delete_deployments P db) = projects db"
  "artifacts (delete_deployments P db) = artifacts db"
  "banned_owners (delete_deployments P db) = banned_owners db"
  "custom_domains (delete_deployments P db) = custom_domains db"
  "secrets (delete_deployments P db) = secrets db"
  "resources (delete_deployments P db) = resources db"
  "deployments (delete_deployments P db) = filter (\<lambda>d. \<not> P d) (deployments db)"
  by (simp_all add: delete_deployments_def Let_def)

lemma delete_deployments_keys:
  assumes "keys_ok db" "refs_ok db"
  shows "keys_ok (delete_deployments P db)" "refs_ok (delete_deployments P db)"
proof -
  show "keys_ok (delete_deployments P db)"
    using assms(1) by (auto simp: keys_ok_def delete_deployments_def Let_def)
  have "fst ` set (deployment_resources (delete_deployments P db)) \<subseteq> d_id ` set (deployments (delete_deployments P db))"
    using assms(2) image_drop_gone [of "deployment_resources db" d_id "deployments db" P]
    by (simp add: refs_ok_def delete_deployments_def Let_def)
  then show "refs_ok (delete_deployments P db)"
    using assms(2) by (simp add: refs_ok_def frame_simps image_filter_subset del: set_filter)
qed

lemma delete_deployments_ok:
  assumes "db_ok db" and "\<And>d. d \<in> set (deployments db) \<Longrightarrow> P d \<Longrightarrow> \<not> d_active d"
  shows "db_ok (delete_deployments P db)"
proof -
  have "filter d_active (filter (\<lambda>d. \<not> P d) (deployments db)) = filter d_active (deployments db)"
    using assms(2) by (induction "deployments db") (auto intro!: filter_cong)
  then have "active_ok (delete_deployments P db)"
    using assms(1) by (simp add: active_ok_def db_ok_def frame_simps)
  moreover have "domains_ok (delete_deployments P db)"
    using assms(1) by (simp add: domains_ok_def db_ok_def frame_simps)
  ultimately show ?thesis
    using assms(1) delete_deployments_keys by (simp add: db_ok_def)
qed

lemma delete_projects_frame [frame_simps]:
  "projects (delete_projects P db) = filter (\<lambda>p. \<not> P (pr_key p)) (projects db)"
  "artifacts (delete_projects P db) = artifacts db"
  "banned_owners (delete_projects P db) = banned_owners db"
  "resources (delete_projects P db) = resources db"
  by (simp_all add: delete_projects_def Let_def frame_simps)

lemma delete_projects_children [frame_simps]:
  assumes "refs_ok db"
  shows "deployments (delete_projects P db) = filter (\<lambda>d. \<not> P (d_key d)) (deployments db)"
    "custom_domains (delete_projects P db) = filter (\<lambda>c. \<not> P (cd_key c)) (custom_domains db)"
    "secrets (delete_projects P db) = filter (\<lambda>s. \<not> P (se_key s)) (secrets db)"
  using assms by (auto simp: delete_projects_def Let_def frame_simps refs_ok_def intro!: filter_cong)

lemma delete_projects_resources:
  assumes "refs_ok db"
  shows "fst ` set (deployment_resources (delete_projects P db))
    \<subseteq> d_id ` set (deployments (delete_projects P db))"
  using assms image_drop_gone [of "deployment_resources db" d_id "deployments db"
      "\<lambda>d. d_key d \<in> pr_key ` set (projects db) \<and> P (d_key d)"]
  by (simp add: refs_ok_def delete_projects_def delete_deployments_def Let_def)

lemma delete_projects_ok [ok_intros]:
  assumes "db_ok db"
  shows "db_ok (delete_projects P db)"
proof -
  have r: "refs_ok db" and k: "keys_ok db"
    using assms by (simp_all add: db_ok_def)
  have act: "filter d_active (deployments (delete_projects P db)) =
      filter (\<lambda>d. \<not> P (d_key d)) (filter d_active (deployments db))"
    by (simp add: frame_simps r filter_filter conj_commute)
  have "active_ok (delete_projects P db)"
    using assms image_filter_mono [of pr_key "projects db" d_key "filter d_active (deployments db)" "\<lambda>k. \<not> P k"]
    unfolding active_ok_def act db_ok_def
    by (simp add: frame_simps distinct_map_filter del: filter_filter)
  moreover have "domains_ok (delete_projects P db)"
    using assms by (auto simp: domains_ok_def db_ok_def frame_simps r)
  moreover have "keys_ok (delete_projects P db)"
    using k by (auto simp: delete_projects_def delete_deployments_def Let_def keys_ok_def)
  moreover have "refs_ok (delete_projects P db)"
    using delete_projects_resources [OF r, of P] r
    unfolding refs_ok_def [of "delete_projects P db"] delete_projects_frame delete_projects_children [OF r]
    by (simp add: refs_ok_def image_filter_mono [where Q = "\<lambda>k. \<not> P k"] image_filter_subset del: set_filter)
  ultimately show ?thesis
    by (simp add: db_ok_def)
qed

lemma deleteProject_ok: "db_ok db \<Longrightarrow> db_ok (fst (deleteProject o1 p db))"
  by (simp add: deleteProject_def Let_def delete_projects_ok)

lemma deleteOwner_ok: "db_ok db \<Longrightarrow> db_ok (fst (deleteOwner o1 db))"
  using delete_projects_ok [of db "\<lambda>k. fst k = o1"]
  by (auto simp: deleteOwner_def Let_def db_ok_defs)

lemma id_inj: "db_ok db \<Longrightarrow> d \<in> set (deployments db) \<Longrightarrow> d' \<in> set (deployments db)
    \<Longrightarrow> d_id d = d_id d' \<Longrightarrow> d = d'"
  by (simp add: db_ok_def keys_ok_def distinct_map inj_on_def)

lemma deleteDeployment_ok:
  assumes "db_ok db"
  shows "db_ok (fst (deleteDeployment o1 p i db))"
proof (cases "projectDeployment o1 p i db")
  case (Some row)
  then have row: "row \<in> set (deployments db)" "d_id row = i"
    by (auto simp: projectDeployment_def dest: find_SomeD)
  show ?thesis
  proof (cases "d_active row")
    case False
    then have "db_ok (delete_deployments (\<lambda>d. d_id d = i) db)"
      using row id_inj [OF assms] by (intro delete_deployments_ok [OF assms]) blast
    then show ?thesis
      using Some False by (simp add: deleteDeployment_def Let_def)
  qed (use Some assms in \<open>simp add: deleteDeployment_def\<close>)
qed (use assms in \<open>simp add: deleteDeployment_def\<close>)

text \<open>The pruning loop is one cascading delete.\<close>

lemma delete_deployments_compose:
  "delete_deployments Q (delete_deployments P db) = delete_deployments (\<lambda>d. P d \<or> Q d) db"
proof -
  have "(fst x \<notin> d_id ` {d \<in> set (deployments db). P d} \<and>
      fst x \<notin> d_id ` {d \<in> set (deployments db). \<not> P d \<and> Q d}) \<longleftrightarrow>
      fst x \<notin> d_id ` {d \<in> set (deployments db). P d \<or> Q d}" for x :: "string \<times> string"
    by blast
  then show ?thesis
    by (simp add: delete_deployments_def Let_def filter_filter)
qed

lemma fold_delete_deployments:
  "fold (\<lambda>row. delete_deployments (\<lambda>d. d_id d = d_id row)) rows db =
     (if rows = [] then db else delete_deployments (\<lambda>d. d_id d \<in> d_id ` set rows) db)"
proof (induction rows arbitrary: db)
  case (Cons r rows)
  show ?case
    by (simp add: Cons delete_deployments_compose)
qed simp

lemma doomed_inactive:
  "d \<in> set (doomed_versions o1 p n db) \<Longrightarrow>
     d \<in> set (deployments db) \<and> \<not> d_active d \<and> d_key d = (o1, p)"
  using set_drop_subset [of n "filter (\<lambda>d. \<not> d_active d) (projectDeployments o1 p db)"]
  by (auto simp: doomed_versions_def projectDeployments_def d_key_def)

lemma prune_eq:
  "fst (pruneProjectDeployments o1 p keep db) =
     (if of_int (floor keep) \<noteq> keep \<or> keep < 1 \<or> doomed_versions o1 p (nat (floor keep)) db = [] then db
      else delete_deployments (\<lambda>d. d_id d \<in> d_id ` set (doomed_versions o1 p (nat (floor keep)) db)) db)"
  by (simp add: pruneProjectDeployments_def Let_def fold_delete_deployments)

lemma prune_ok:
  assumes "db_ok db"
  shows "db_ok (fst (pruneProjectDeployments o1 p keep db))"
proof -
  have "db_ok (delete_deployments (\<lambda>d. d_id d \<in> d_id ` set (doomed_versions o1 p n db)) db)" for n
    using doomed_inactive id_inj [OF assms] by (intro delete_deployments_ok [OF assms]) blast
  then show ?thesis
    using assms by (simp add: prune_eq)
qed

section \<open>Bans, custom domains, secrets, resources\<close>

lemma banOwner_ok: "db_ok db \<Longrightarrow> db_ok (banOwner now o1 db)"
  by (simp add: db_ok_defs banOwner_def)

lemma unbanOwner_ok: "db_ok db \<Longrightarrow> db_ok (unbanOwner o1 db)"
  by (auto simp: db_ok_defs unbanOwner_def)

text \<open>Any subset of the claims of a well-formed store is well-formed.\<close>

lemma filter_domains_ok:
  assumes "db_ok db"
  shows "db_ok (db\<lparr>custom_domains := filter P (custom_domains db)\<rparr>)"
proof -
  have "cd_key ` set (filter P (custom_domains db)) \<subseteq> pr_key ` set (projects db)"
    using assms by (intro image_filter_subset) (simp add: db_ok_def refs_ok_def)
  moreover have "domains_ok (db\<lparr>custom_domains := filter P (custom_domains db)\<rparr>)"
    using assms by (auto simp: db_ok_def domains_ok_def)
  ultimately show ?thesis
    using assms by (auto simp: db_ok_def keys_ok_def refs_ok_def active_ok_def simp del: set_filter)
qed

lemma dropStaleClaims_ok: "db_ok db \<Longrightarrow> db_ok (dropStaleClaims now h db)"
  unfolding dropStaleClaims_def by (rule filter_domains_ok)

lemma claimCustomDomain_ok:
  assumes "db_ok db" and "claimCustomDomain now h o1 p token db = Inr (db', r)"
  shows "db_ok db'"
proof -
  define db1 where "db1 = dropStaleClaims now h db"
  have ok1: "db_ok db1"
    unfolding db1_def by (rule dropStaleClaims_ok [OF assms(1)])
  define row where "row = \<lparr>cd_hostname = h, cd_owner = o1, cd_project = p, cd_token = token,
     cd_verified_at = None, cd_created_at = now\<rparr>"
  consider "db' = db1"
    | "db' = db1\<lparr>custom_domains := custom_domains db1 @ [row]\<rparr>" "(o1, p) \<in> pr_key ` set (projects db1)"
      "\<forall>c \<in> set (custom_domains db1). cd_hostname c = h \<longrightarrow> \<not> cd_verified c \<and> cd_owner c \<noteq> o1"
    using assms(2) by (auto simp: claimCustomDomain_def Let_def db1_def row_def split: if_splits)
  then show ?thesis
  proof cases
    case 2
    have "cd_key row = (o1, p)" "cd_pk row = (h, o1)" "\<not> cd_verified row" "cd_hostname row = h"
      by (simp_all add: row_def cd_key_def cd_pk_def cd_verified_def)
    then show ?thesis
      using ok1 2 by (auto simp: db_ok_defs cd_pk_def)
  qed (use ok1 in simp)
qed

text \<open>The rows \<open>markCustomDomainVerified\<close> leaves when it marks a claim.\<close>

lemma markCustomDomainVerified_ok:
  assumes "db_ok db"
  shows "db_ok (fst (markCustomDomainVerified now o1 p h db))"
proof -
  define hit where "hit c \<longleftrightarrow> cd_hostname c = h \<and> cd_owner c = o1 \<and> cd_project c = p \<and> \<not> cd_verified c" for c
  define mk where "mk c = (if hit c then c\<lparr>cd_verified_at := Some now\<rparr> else c)" for c
  define db1 where "db1 = db\<lparr>custom_domains := filter (\<lambda>c. \<not> (cd_hostname c = h \<and> cd_owner c \<noteq> o1)) (custom_domains db)\<rparr>"
  have mk [simp]: "cd_pk (mk c) = cd_pk c" "cd_key (mk c) = cd_key c" "cd_hostname (mk c) = cd_hostname c"
    "cd_owner (mk c) = cd_owner c" for c
    by (simp_all add: mk_def)
  have ok1: "db_ok db1"
    unfolding db1_def by (rule filter_domains_ok [OF assms])
  have one: "c = c'" if "c \<in> set (custom_domains db1)" "c' \<in> set (custom_domains db1)"
      "cd_hostname c = h" "cd_hostname c' = h" for c c'
  proof -
    have "cd_pk c = cd_pk c'"
      using that by (auto simp: db1_def cd_pk_def)
    then show ?thesis
      using that ok1 by (simp add: db_ok_def keys_ok_def distinct_map inj_on_def)
  qed
  have ver: "cd_verified (mk c) \<Longrightarrow> cd_verified c \<or> cd_hostname c = h" for c
    by (auto simp: mk_def hit_def split: if_splits)
  have keys: "map cd_pk (map mk xs) = map cd_pk xs" "cd_key ` set (map mk xs) = cd_key ` set xs" for xs
    by (simp_all add: image_image)
  have "domains_ok (db1\<lparr>custom_domains := map mk (custom_domains db1)\<rparr>)"
    using ok1 one ver by (fastforce simp: db_ok_def domains_ok_def)
  then have "db_ok (db1\<lparr>custom_domains := map mk (custom_domains db1)\<rparr>)"
    using ok1 by (simp add: db_ok_def keys_ok_def refs_ok_def active_ok_def keys del: map_map set_map)
  moreover have "map mk (custom_domains db1) =
      filter (\<lambda>c. \<not> (cd_hostname c = h \<and> cd_owner c \<noteq> o1)) (map mk (custom_domains db))"
    by (simp add: db1_def filter_map o_def)
  moreover have "fst (markCustomDomainVerified now o1 p h db) \<in> {db, db\<lparr>custom_domains :=
      filter (\<lambda>c. \<not> (cd_hostname c = h \<and> cd_owner c \<noteq> o1)) (map mk (custom_domains db))\<rparr>}"
    unfolding markCustomDomainVerified_def Let_def mk_def hit_def by simp
  moreover have "db1\<lparr>custom_domains := cs\<rparr> = db\<lparr>custom_domains := cs\<rparr>" for cs
    by (simp add: db1_def)
  ultimately show ?thesis
    using assms by auto
qed

lemma deleteCustomDomain_ok: "db_ok db \<Longrightarrow> db_ok (fst (deleteCustomDomain o1 p h db))"
  by (simp add: deleteCustomDomain_def Let_def filter_domains_ok)

lemma setSecret_ok:
  assumes "db_ok db" and "setSecret enc now o1 p n v db = Inr (db', u)"
  shows "db_ok db'"
proof -
  define row where "row = \<lparr>se_owner = o1, se_project = p, se_name = n, se_ciphertext = enc v, se_updated_at = now\<rparr>"
  define up where "up s = (if se_pk s = se_pk row then s\<lparr>se_ciphertext := enc v, se_updated_at := now\<rparr> else s)" for s
  have keys: "map se_pk (map up xs) = map se_pk xs" "se_key ` set (map up xs) = se_key ` set xs" for xs
    by (induction xs) (auto simp: up_def)
  consider "db' = db\<lparr>secrets := map up (secrets db)\<rparr>"
    | "db' = db\<lparr>secrets := secrets db @ [row]\<rparr>" "se_pk row \<notin> se_pk ` set (secrets db)"
      "(o1, p) \<in> pr_key ` set (projects db)"
    using assms(2) by (auto simp: setSecret_def Let_def row_def up_def [abs_def] split: if_splits)
  then show ?thesis
  proof cases
    case 1
    then show ?thesis
      using assms(1) by (simp add: db_ok_defs keys del: map_map set_map)
  next
    case 2
    moreover have "se_key row = (o1, p)"
      by (simp add: row_def se_key_def)
    ultimately show ?thesis
      using assms(1) by (simp add: db_ok_defs)
  qed
qed

lemma deleteSecret_ok:
  assumes "db_ok db"
  shows "db_ok (fst (deleteSecret o1 p n db))"
proof -
  have "se_key ` set (filter P (secrets db)) \<subseteq> pr_key ` set (projects db)" for P
    using assms by (intro image_filter_subset) (simp add: db_ok_def refs_ok_def)
  then show ?thesis
    using assms by (auto simp: deleteSecret_def Let_def db_ok_defs simp del: set_filter)
qed

lemma createResource_ok:
  "db_ok db \<Longrightarrow> createResource hex now o1 k n db = Inr (db', r) \<Longrightarrow> db_ok db'"
  by (auto simp: createResource_def Let_def split: if_splits) (simp add: db_ok_defs)

lemma renameResource_ok:
  assumes "db_ok db" and "renameResource o1 i n db = Inr (db', b)"
  shows "db_ok db'"
proof -
  let ?rows = "map (\<lambda>r. if r_id r = i \<and> r_owner r = o1 then r\<lparr>r_name := n\<rparr> else r) (resources db)"
  have "map r_id ?rows = map r_id (resources db)"
    by simp
  then have "distinct (map r_id ?rows)"
    using assms(1) by (simp only: db_ok_def keys_ok_def)
  moreover have "db' = db\<lparr>resources := ?rows\<rparr>" "distinct (map r_unique ?rows)"
    using assms(2) unfolding renameResource_def Let_def by (simp_all split: if_splits)
  ultimately show ?thesis
    using assms(1) by (simp add: db_ok_defs del: map_map)
qed

lemma deleteResource_ok: "db_ok db \<Longrightarrow> db_ok (fst (deleteResource o1 i db))"
  by (auto simp: deleteResource_def Let_def db_ok_defs)

lemma drop_artifact_row_ok:
  assumes "db_ok db"
  shows "db_ok (fst (drop_artifact_row ref db))"
proof -
  have "refOf ` set (deployments db) \<subseteq> ar_key ` set (filter (\<lambda>a. ar_key a \<noteq> ref) (artifacts db))"
    if "ref \<notin> refOf ` set (deployments db)"
    using that assms by (intro image_filter_neq) (simp_all add: db_ok_def refs_ok_def)
  then show ?thesis
    using assms by (auto simp: drop_artifact_row_def db_ok_defs simp del: set_filter)
qed

section \<open>The store keeps its invariant\<close>

lemma commit_ok: "db_ok db \<Longrightarrow> (\<And>db' r. t = Inr (db', r) \<Longrightarrow> db_ok db') \<Longrightarrow> db_ok (commit db t)"
  by (auto simp: commit_def split: sum.splits)

lemmas op_ok = activateDeployment_ok deleteProject_ok deleteDeployment_ok prune_ok banOwner_ok
  unbanOwner_ok deleteOwner_ok markCustomDomainVerified_ok deleteCustomDomain_ok deleteSecret_ok
  deleteResource_ok drop_artifact_row_ok recordDeployment_ok claimCustomDomain_ok setSecret_ok
  createResource_ok renameResource_ok

lemma db_step_ok: "db_ok db \<Longrightarrow> db_ok (db_step enc db a)"
  by (cases a) (auto intro!: commit_ok intro: op_ok)

interpretation store: machine empty_db "db_step enc" db_ok for enc
  by unfold_locales (rule empty_db_ok, rule db_step_ok)

end
