(* ===== verification/Store_Props.thy ===== *)
theory Store_Props
  imports Store_Invariants
begin

text \<open>
  What each mutation of the store does, over a well-formed store: deploying, rolling back,
  deleting and pruning versions, verifying a custom domain and storing a secret.
\<close>

section \<open>Small databases for the witnesses\<close>

definition sample_deployment :: "string \<Rightarrow> owner \<Rightarrow> string \<Rightarrow> digest \<Rightarrow> ms \<Rightarrow> bool \<Rightarrow> deployment" where
  "sample_deployment i o1 p dg t b = \<lparr>d_id = i, d_owner = o1, d_project = p, d_username = o1,
     d_hostname = p @ ''.'' @ o1, d_artifact = dg, d_sprout_path = ''/a/'' @ dg, d_deployed_at = t,
     d_active = b, d_binary_size = None, d_compile_ms = None\<rparr>"

text \<open>Two accounts; the first has three versions and both claim the same hostname.\<close>

definition sample_db :: db where
  "sample_db = \<lparr>
     artifacts = [\<lparr>ar_owner = ''ann'', ar_digest = ''aa'', ar_created_at = 10\<rparr>,
       \<lparr>ar_owner = ''ann'', ar_digest = ''bb'', ar_created_at = 20\<rparr>,
       \<lparr>ar_owner = ''bob'', ar_digest = ''aa'', ar_created_at = 40\<rparr>],
     projects = [\<lparr>pr_owner = ''ann'', pr_name = ''web'', pr_username = ''ann'', pr_created_at = 10\<rparr>,
       \<lparr>pr_owner = ''bob'', pr_name = ''api'', pr_username = ''bob'', pr_created_at = 40\<rparr>],
     deployments = [sample_deployment ''1'' ''ann'' ''web'' ''aa'' 10 False,
       sample_deployment ''2'' ''ann'' ''web'' ''bb'' 20 False,
       sample_deployment ''3'' ''ann'' ''web'' ''aa'' 30 True,
       sample_deployment ''4'' ''bob'' ''api'' ''aa'' 40 True],
     banned_owners = [],
     custom_domains = [
       \<lparr>cd_hostname = ''x.org'', cd_owner = ''ann'', cd_project = ''web'', cd_token = ''t1'',
        cd_verified_at = None, cd_created_at = 50\<rparr>,
       \<lparr>cd_hostname = ''x.org'', cd_owner = ''bob'', cd_project = ''api'', cd_token = ''t2'',
        cd_verified_at = None, cd_created_at = 60\<rparr>],
     secrets = [\<lparr>se_owner = ''ann'', se_project = ''web'', se_name = ''K'', se_ciphertext = ''c'', se_updated_at = 5\<rparr>],
     resources = [\<lparr>r_id = ''kv_1'', r_owner = ''ann'', r_kind = Kv, r_name = ''cache'', r_created_at = 5\<rparr>],
     deployment_resources = [(''1'', ''kv_1'')]\<rparr>"

lemmas key_defs = ar_key_def pr_key_def d_key_def refOf_def cd_pk_def cd_key_def cd_verified_def
  se_key_def se_pk_def r_unique_def
lemmas sample_defs = sample_db_def sample_deployment_def key_defs

lemma sample_db_ok: "db_ok sample_db"
  by (simp add: db_ok_defs sample_defs)

lemma foldl_db_ok: "db_ok (foldl (db_step enc) empty_db ops)"
  using store.run_inv [of enc ops] by (simp add: store.run_def)

section \<open>One active version per project\<close>

text \<open>
  C1: after any sequence of store mutations from an empty database, successful or refused, every
  key and unique index holds, every foreign key resolves, every project has exactly one active
  version and a verified hostname has one claim.
\<close>

theorem store_always_ok: "db_ok (foldl (db_step enc) empty_db ops)"
  by (rule foldl_db_ok)

lemma filter_unique:
  assumes "distinct (map key xs)" and "k \<in> key ` set xs"
  shows "length (filter (\<lambda>x. key x = k) xs) = 1"
  using assms
proof (induction xs)
  case (Cons x xs)
  have "filter (\<lambda>y. key y = key x) xs = []"
    using Cons.prems(1) by (auto simp: filter_empty_conv image_iff)
  then show ?case
    using Cons by auto
qed simp

lemma active_unique:
  assumes "db_ok db" and "k \<in> pr_key ` set (projects db)"
  shows "length (filter (\<lambda>d. d_key d = k) (filter d_active (deployments db))) = 1"
proof (rule filter_unique)
  show "distinct (map d_key (filter d_active (deployments db)))"
    using assms(1) by (simp add: db_ok_def active_ok_def)
  show "k \<in> d_key ` set (filter d_active (deployments db))"
    using assms unfolding db_ok_def active_ok_def by blast
qed

text \<open>
  C2: deploying a new version always succeeds when its id is fresh. It becomes the project's
  only active version, the other versions of the project are kept, other projects' rows are not
  touched, and it is bound to exactly the resources the caller named.
\<close>

theorem record_deploys:
  assumes "db_ok db" and "d_id input \<notin> d_id ` set (deployments db)"
  shows "\<exists>db'. recordDeployment input rids db = Inr (db', input\<lparr>d_active := True\<rparr>) \<and>
    filter (\<lambda>d. d_active d \<and> d_key d = d_key input) (deployments db') = [input\<lparr>d_active := True\<rparr>] \<and>
    d_id ` set (deployments db') = insert (d_id input) (d_id ` set (deployments db)) \<and>
    filter (\<lambda>d. d_key d \<noteq> d_key input) (deployments db') = filter (\<lambda>d. d_key d \<noteq> d_key input) (deployments db) \<and>
    {r. (d_id input, r) \<in> set (deployment_resources db')} = set rids"
proof -
  let ?row = "input\<lparr>d_active := True\<rparr>"
  obtain db' where rec: "recordDeployment input rids db = Inr (db', ?row)"
    and ds: "deployments db' = deactivate (d_owner input) (d_project input) (deployments db) @ [?row]"
    and dr: "deployment_resources db' =
      fold (\<lambda>rid. insert_or_ignore id (d_id input, rid)) (uniq rids) (deployment_resources db)"
    using assms(2) by (simp add: recordDeployment_def Let_def)
  have "filter (\<lambda>d. d_active d \<and> d_key d = d_key input) (deactivate (d_owner input) (d_project input) xs) = []" for xs
    by (induction xs) (auto simp: deactivate_def d_key_def)
  moreover have "filter (\<lambda>d. d_key d \<noteq> d_key input) (deactivate (d_owner input) (d_project input) xs) =
      filter (\<lambda>d. d_key d \<noteq> d_key input) xs" for xs
    by (induction xs) (auto simp: deactivate_def d_key_def)
  moreover have "d_id input \<notin> fst ` set (deployment_resources db)"
    using assms unfolding db_ok_def refs_ok_def by blast
  then have "{r. (d_id input, r) \<in> set (deployment_resources db')} = set rids"
    by (force simp: dr fold_insert_or_ignore)
  ultimately show ?thesis
    using rec by (auto simp: ds d_key_def)
qed

theorem record_deploys_witness:
  "\<exists>db'. recordDeployment (sample_deployment ''9'' ''ann'' ''web'' ''cc'' 70 False) [''kv_1''] sample_db
      = Inr (db', sample_deployment ''9'' ''ann'' ''web'' ''cc'' 70 True)"
  using record_deploys [OF sample_db_ok, of "sample_deployment ''9'' ''ann'' ''web'' ''cc'' 70 False" "[''kv_1'']"]
  by (auto simp: sample_defs)



section \<open>Rolling back\<close>

lemma activate_result:
  assumes "projectDeployment o1 p i db = Some t"
  shows "deployments (fst (activateDeployment o1 p i db)) = set_active i (deactivate o1 p (deployments db))"
    "snd (activateDeployment o1 p i db) = Some (t\<lparr>d_active := True\<rparr>)"
  using assms by (simp_all add: activateDeployment_def set_active_def)

lemma set_active_deactivate_other:
  assumes "\<And>d. d \<in> set ds \<Longrightarrow> d_id d = i \<Longrightarrow> d_key d = (o1, p)"
  shows "filter (\<lambda>d. d_key d \<noteq> (o1, p)) (set_active i (deactivate o1 p ds)) = filter (\<lambda>d. d_key d \<noteq> (o1, p)) ds"
proof -
  have "filter (\<lambda>d. d_key d \<noteq> (o1, p)) (set_active i (deactivate o1 p ds)) =
      filter (\<lambda>d. d_key d \<noteq> (o1, p)) (deactivate o1 p ds)"
    unfolding set_active_def
  proof (rule filter_map_other)
    fix d assume "d \<in> set (deactivate o1 p ds)" "d_key d \<noteq> (o1, p)"
    then have "d \<in> set ds"
      by (auto simp: deactivate_def d_key_def split: if_splits)
    then show "(if d_id d = i then d\<lparr>d_active := True\<rparr> else d) = d"
      using assms \<open>d_key d \<noteq> (o1, p)\<close> by auto
  qed simp
  also have "\<dots> = filter (\<lambda>d. d_key d \<noteq> (o1, p)) ds"
    unfolding deactivate_def by (rule filter_map_other) (auto simp: d_key_def)
  finally show ?thesis .
qed

text \<open>
  C4: activating an existing version makes it the project's only active one and changes nothing
  but the \<open>active\<close> flags of that project's versions; an id that is not a version of the project
  changes nothing at all.
\<close>

theorem activate_switches:
  assumes "db_ok db"
  shows "case projectDeployment o1 p i db of
      None \<Rightarrow> activateDeployment o1 p i db = (db, None)
    | Some t \<Rightarrow> (\<exists>db'. activateDeployment o1 p i db = (db', Some (t\<lparr>d_active := True\<rparr>)) \<and>
        map d_id (filter (\<lambda>d. d_key d = (o1, p)) (filter d_active (deployments db'))) = [i] \<and>
        map (d_active_update (\<lambda>_. False)) (deployments db') = map (d_active_update (\<lambda>_. False)) (deployments db) \<and>
        filter (\<lambda>d. d_key d \<noteq> (o1, p)) (deployments db') = filter (\<lambda>d. d_key d \<noteq> (o1, p)) (deployments db) \<and>
        db'\<lparr>deployments := deployments db\<rparr> = db)"
proof (cases "projectDeployment o1 p i db")
  case (Some t)
  then have t: "t \<in> set (deployments db)" "d_id t = i" "d_key t = (o1, p)"
    by (auto simp: projectDeployment_def d_key_def dest: find_SomeD)
  let ?r = "activateDeployment o1 p i db"
  let ?act = "filter (\<lambda>d. d_key d = (o1, p)) (filter d_active (deployments (fst ?r)))"
  have proj: "projects (fst ?r) = projects db"
    using Some by (simp add: activateDeployment_def)
  have "(o1, p) \<in> pr_key ` set (projects db)"
    using t assms unfolding db_ok_def refs_ok_def by (metis image_eqI subset_iff)
  then have one: "length ?act = 1"
    using active_unique [OF activateDeployment_ok [OF assms]] by (simp only: proj)
  have "\<exists>d \<in> set ?act. d_id d = i"
  proof
    show "t\<lparr>d_active := True\<rparr> \<in> set ?act"
      using t activate_result(1) [OF Some] by (force simp: set_active_def deactivate_def d_key_def image_iff)
  qed (use t in simp)
  moreover obtain y where "?act = [y]"
    using one by (cases ?act) simp_all
  ultimately have "map d_id ?act = [i]"
    by (simp del: filter_filter)
  moreover have "map (d_active_update (\<lambda>_. False)) (set_active i (deactivate o1 p ds)) =
      map (d_active_update (\<lambda>_. False)) ds" for ds
    by (induction ds) (auto simp: set_active_def deactivate_def)
  moreover have "(fst ?r)\<lparr>deployments := deployments db\<rparr> = db"
    using Some by (simp add: activateDeployment_def)
  moreover have "filter (\<lambda>d. d_key d \<noteq> (o1, p)) (deployments (fst ?r)) = filter (\<lambda>d. d_key d \<noteq> (o1, p)) (deployments db)"
    unfolding activate_result(1) [OF Some]
    using t id_inj [OF assms] by (intro set_active_deactivate_other) blast
  ultimately show ?thesis
    using Some activate_result [OF Some] by (auto intro!: exI [of _ "fst ?r"] prod_eqI)
qed (simp add: activateDeployment_def)

theorem activate_switches_witness:
  "snd (activateDeployment ''ann'' ''web'' ''2'' sample_db) = Some (sample_deployment ''2'' ''ann'' ''web'' ''bb'' 20 True)"
  using activate_switches [OF sample_db_ok, of "''ann''" "''web''" "''2''"]
  by (auto simp: projectDeployment_def sample_defs)

section \<open>Deleting and pruning\<close>

lemma set_orphanedAmong:
  "set (orphanedAmong refs db) =
     {r \<in> set refs. r \<in> ar_key ` set (artifacts db) \<and> r \<notin> refOf ` set (deployments db)}"
  by (auto simp: orphanedAmong_def simp del: set_map)

lemma distinct_orphanedAmong [simp]: "distinct (orphanedAmong refs db)"
  by (simp add: orphanedAmong_def)



lemma doomed_eq:
  "doomed_versions o1 p n db =
     drop n (sort_desc d_deployed_at (filter (\<lambda>d. \<not> d_active d \<and> d_key d = (o1, p)) (deployments db)))"
  by (simp add: doomed_versions_def projectDeployments_def filter_sort_desc d_key_def conj_ac)

lemma prune_rows:
  assumes "db_ok db" and "0 < n"
  shows "deployments (fst (pruneProjectDeployments o1 p (of_nat n) db)) =
    filter (\<lambda>d. d \<notin> set (doomed_versions o1 p n db)) (deployments db)"
proof -
  have "d_id d \<in> d_id ` set (doomed_versions o1 p n db) \<longleftrightarrow> d \<in> set (doomed_versions o1 p n db)"
    if "d \<in> set (deployments db)" for d
    using that doomed_inactive id_inj [OF assms(1)] by blast
  then have "filter (\<lambda>d. d_id d \<notin> d_id ` set (doomed_versions o1 p n db)) (deployments db) =
      filter (\<lambda>d. d \<notin> set (doomed_versions o1 p n db)) (deployments db)"
    by (intro filter_cong) auto
  then show ?thesis
    using assms(2) by (simp add: prune_eq delete_deployments_frame)
qed

lemma db_ok_distinct_deployments: "db_ok db \<Longrightarrow> distinct (deployments db)"
  by (simp add: db_ok_def keys_ok_def distinct_map)

text \<open>
  C6: pruning keeps the active version and the newest \<open>keep\<close> inactive ones. A removed version is
  never newer than an inactive one that stays, no other project loses a version, and the
  artifacts it reports are no longer used by the owner.
\<close>

theorem prune_keeps_newest:
  assumes "db_ok db" and "0 < n"
    and "pruneProjectDeployments o1 p (of_nat n) db = (db', orphans)"
  shows "filter (\<lambda>d. d_active d \<or> d_key d \<noteq> (o1, p)) (deployments db') =
      filter (\<lambda>d. d_active d \<or> d_key d \<noteq> (o1, p)) (deployments db) \<and>
    length (filter (\<lambda>d. \<not> d_active d \<and> d_key d = (o1, p)) (deployments db')) =
      min n (length (filter (\<lambda>d. \<not> d_active d \<and> d_key d = (o1, p)) (deployments db))) \<and>
    (\<forall>d \<in> set (deployments db) - set (deployments db').
       \<forall>k \<in> set (deployments db'). d_key k = (o1, p) \<and> \<not> d_active k \<longrightarrow> d_deployed_at d \<le> d_deployed_at k) \<and>
    set orphans \<inter> refOf ` set (deployments db') = {}"
proof -
  define IK where "IK d \<longleftrightarrow> \<not> d_active d \<and> d_key d = (o1, p)" for d
  define L where "L = sort_desc d_deployed_at (filter IK (deployments db))"
  have ds: "deployments db' = filter (\<lambda>d. d \<notin> set (drop n L)) (deployments db)"
    using prune_rows [OF assms(1,2), of o1 p] assms(3) by (simp add: doomed_eq L_def IK_def [abs_def])
  have L: "distinct L" "set L = {d \<in> set (deployments db). IK d}"
    using db_ok_distinct_deployments [OF assms(1)] by (simp_all add: L_def)
  have sub: "set (drop n L) \<subseteq> {d. IK d}"
    using L(2) set_drop_subset [of n L] by auto
  have "filter (\<lambda>d. d \<notin> set (drop n L)) (sort_desc d_deployed_at (filter IK (deployments db))) = take n L"
    using filter_not_drop [OF L(1), of n] by (simp add: L_def)
  then have "length (filter (\<lambda>d. d \<notin> set (drop n L)) (filter IK (deployments db))) = min n (length L)"
    by (metis filter_sort_desc length_sort_desc length_take min.commute)
  then have len: "length (filter IK (deployments db')) = min n (length (filter IK (deployments db)))"
    by (simp add: ds L_def conj_commute)
  have "filter (\<lambda>d. d_active d \<or> d_key d \<noteq> (o1, p)) (deployments db') =
      filter (\<lambda>d. d_active d \<or> d_key d \<noteq> (o1, p)) (deployments db)"
    using sub unfolding ds filter_filter by (intro filter_cong) (auto simp: IK_def)
  moreover have "d_deployed_at d \<le> d_deployed_at k"
    if "d \<in> set (deployments db) - set (deployments db')" "k \<in> set (deployments db')" "IK k" for d k
  proof -
    have "d \<in> set (drop n L)" "k \<in> set L" "k \<notin> set (drop n L)"
      using that by (auto simp: ds L(2))
    then have "k \<in> set (take n L)"
      by (metis Un_iff append_take_drop_id set_append)
    with \<open>d \<in> set (drop n L)\<close> show ?thesis
      using sorted_wrt_take_drop [OF sorted_sort_desc [of d_deployed_at "filter IK (deployments db)"], of k n d]
      by (simp add: L_def)
  qed
  moreover have "set orphans \<inter> refOf ` set (deployments db') = {}"
    using assms(3) by (auto simp: pruneProjectDeployments_def Let_def set_orphanedAmong split: if_splits)
  ultimately show ?thesis
    using len by (auto simp: IK_def [abs_def])
qed

theorem prune_keeps_newest_witness:
  "length (filter (\<lambda>d. \<not> d_active d \<and> d_key d = (''ann'', ''web''))
     (deployments (fst (pruneProjectDeployments ''ann'' ''web'' 1 sample_db)))) = 1"
proof -
  obtain db' orphans where eq: "pruneProjectDeployments ''ann'' ''web'' (of_nat 1) sample_db = (db', orphans)"
    by (metis surj_pair)
  have "length (filter (\<lambda>d. \<not> d_active d \<and> d_key d = (''ann'', ''web'')) (deployments db')) = 1"
    using prune_keeps_newest [OF sample_db_ok _ eq] by (simp add: sample_defs)
  then show ?thesis
    using eq by simp
qed

section \<open>Custom domains\<close>

lemma mark_verified_rows:
  assumes "db_ok db" and "markCustomDomainVerified now o1 p h db = (db', True)"
  obtains c where "c \<in> set (custom_domains db)" "cd_pk c = (h, o1)" "cd_project c = p"
    "filter (\<lambda>c. cd_hostname c = h) (custom_domains db') = [c\<lparr>cd_verified_at := Some now\<rparr>]"
    "filter (\<lambda>c. cd_hostname c \<noteq> h) (custom_domains db') = filter (\<lambda>c. cd_hostname c \<noteq> h) (custom_domains db)"
    "db' = db\<lparr>custom_domains := custom_domains db'\<rparr>"
proof -
  define hit where "hit c \<longleftrightarrow> cd_hostname c = h \<and> cd_owner c = o1 \<and> cd_project c = p \<and> \<not> cd_verified c" for c
  define mk where "mk c = (if hit c then c\<lparr>cd_verified_at := Some now\<rparr> else c)" for c
  have mk [simp]: "cd_hostname (mk c) = cd_hostname c" "cd_owner (mk c) = cd_owner c" for c
    by (simp_all add: mk_def)
  have db': "db' = db\<lparr>custom_domains :=
      filter (\<lambda>c. \<not> (cd_hostname c = h \<and> cd_owner c \<noteq> o1)) (map mk (custom_domains db))\<rparr>"
    and ex: "\<exists>c \<in> set (custom_domains db). hit c"
    using assms(2) unfolding markCustomDomainVerified_def Let_def mk_def hit_def by (simp_all split: if_splits)
  then obtain c where c: "c \<in> set (custom_domains db)" "hit c"
    by blast
  then have pk: "cd_pk c = (h, o1)"
    by (simp add: hit_def cd_pk_def)
  have "length (filter (\<lambda>x. cd_pk x = (h, o1)) (custom_domains db)) = 1"
    using assms(1) c(1) pk by (intro filter_unique) (auto simp: db_ok_def keys_ok_def intro: rev_image_eqI)
  moreover have "c \<in> set (filter (\<lambda>x. cd_pk x = (h, o1)) (custom_domains db))"
    using c pk by simp
  ultimately have one: "filter (\<lambda>x. cd_pk x = (h, o1)) (custom_domains db) = [c]"
    by (cases "filter (\<lambda>x. cd_pk x = (h, o1)) (custom_domains db)") simp_all
  have "filter (\<lambda>x. cd_hostname x = h) (custom_domains db') = map mk (filter (\<lambda>x. cd_pk x = (h, o1)) (custom_domains db))"
    by (simp add: db' filter_map o_def cd_pk_def conj_commute cong: conj_cong)
  moreover have "filter (\<lambda>x. cd_hostname x \<noteq> h) (map mk (custom_domains db)) = filter (\<lambda>x. cd_hostname x \<noteq> h) (custom_domains db)"
    by (rule filter_map_other) (auto simp: mk_def hit_def)
  then have "filter (\<lambda>x. cd_hostname x \<noteq> h) (custom_domains db') = filter (\<lambda>x. cd_hostname x \<noteq> h) (custom_domains db)"
    by (simp add: db' conj_commute cong: conj_cong)
  ultimately show thesis
    using that [OF c(1) pk] c(2) one by (simp add: db' mk_def hit_def)
qed

lemma domain_lookup_single:
  "filter (\<lambda>c. cd_hostname c = h) (custom_domains db) = [c] \<Longrightarrow> cd_verified c
    \<Longrightarrow> customDomainByHostname t h db = Some c"
  by (simp add: customDomainByHostname_def sort_desc_def claimIsStale_def)

lemma claim_refused_if_verified:
  assumes "c \<in> set (custom_domains db)" "cd_hostname c = h" "cd_verified c"
  shows "claimCustomDomain t h o2 q tok db = Inr (dropStaleClaims t h db, VerifiedElsewhere)"
proof -
  have ex: "\<exists>c \<in> set (custom_domains (dropStaleClaims t h db)). cd_hostname c = h \<and> cd_verified c"
    using assms by (auto simp: dropStaleClaims_def)
  show ?thesis
    by (simp only: claimCustomDomain_def Let_def ex if_True)
qed

text \<open>
  C7: once an account's claim on a hostname is marked verified, it is the only claim left on that
  hostname, lookups return it at every later time, every further claim on the hostname by any
  account is refused, and claims on other hostnames are untouched.
\<close>

theorem verified_domain_is_exclusive:
  assumes "db_ok db" and "markCustomDomainVerified now o1 p h db = (db', True)"
  shows "\<exists>c. filter (\<lambda>c. cd_hostname c = h) (custom_domains db') = [c] \<and>
    cd_key c = (o1, p) \<and> cd_verified_at c = Some now \<and>
    customDomainByHostname t h db' = Some c \<and>
    claimCustomDomain t h o2 q tok db' = Inr (dropStaleClaims t h db', VerifiedElsewhere) \<and>
    snd (markCustomDomainVerified t o2 q h db') = False \<and>
    filter (\<lambda>c. cd_hostname c \<noteq> h) (custom_domains db') = filter (\<lambda>c. cd_hostname c \<noteq> h) (custom_domains db)"
proof -
  from mark_verified_rows [OF assms] obtain c where
    c: "cd_pk c = (h, o1)" "cd_project c = p"
    and rows: "filter (\<lambda>c. cd_hostname c = h) (custom_domains db') = [c\<lparr>cd_verified_at := Some now\<rparr>]"
    and rest: "filter (\<lambda>c. cd_hostname c \<noteq> h) (custom_domains db') = filter (\<lambda>c. cd_hostname c \<noteq> h) (custom_domains db)" .
  let ?c = "c\<lparr>cd_verified_at := Some now\<rparr>"
  have v: "cd_verified ?c" "cd_hostname ?c = h"
    using c by (simp_all add: cd_verified_def cd_pk_def)
  have "?c \<in> set (filter (\<lambda>c. cd_hostname c = h) (custom_domains db'))"
    by (simp only: rows list.set_intros)
  then have mem: "?c \<in> set (custom_domains db')"
    by simp
  then have ex: "\<exists>c \<in> set (custom_domains db'). cd_hostname c = h \<and> cd_verified c"
    using v by blast
  then have "snd (markCustomDomainVerified t o2 q h db') = False"
    by (simp only: markCustomDomainVerified_def if_True snd_conv)
  moreover have "customDomainByHostname t h db' = Some ?c"
    by (rule domain_lookup_single [OF rows v(1)])
  moreover have "claimCustomDomain t h o2 q tok db' = Inr (dropStaleClaims t h db', VerifiedElsewhere)"
    by (rule claim_refused_if_verified [OF mem v(2,1)])
  moreover have "cd_key ?c = (o1, p)"
    using c by (simp add: cd_key_def cd_pk_def)
  ultimately show ?thesis
    using rows rest by (intro exI [of _ ?c]) simp
qed

theorem verified_domain_is_exclusive_witness:
  "\<exists>db'. markCustomDomainVerified 99 ''bob'' ''api'' ''x.org'' sample_db = (db', True) \<and>
     claimCustomDomain 100 ''x.org'' ''ann'' ''web'' ''t3'' db' = Inr (dropStaleClaims 100 ''x.org'' db', VerifiedElsewhere)"
proof -
  have "snd (markCustomDomainVerified 99 ''bob'' ''api'' ''x.org'' sample_db)"
    by (simp add: markCustomDomainVerified_def sample_db_def cd_verified_def)
  then obtain db' where eq: "markCustomDomainVerified 99 ''bob'' ''api'' ''x.org'' sample_db = (db', True)"
    by (metis prod.collapse)
  then show ?thesis
    using verified_domain_is_exclusive [OF sample_db_ok eq, of 100 "''ann''" "''web''" "''t3''"] by auto
qed

section \<open>Secrets\<close>

lemma map_of_secret_values:
  "map_of (projectSecretValues dec o1 p db) n =
     map_option (\<lambda>s. dec (se_ciphertext s)) (List.find (\<lambda>s. se_pk s = ((o1, p), n)) (secrets db))"
proof -
  have "map_of (map (\<lambda>s. (se_name s, dec (se_ciphertext s))) (filter (\<lambda>s. se_key s = (o1, p)) ss)) n =
      map_option (\<lambda>s. dec (se_ciphertext s)) (List.find (\<lambda>s. se_pk s = ((o1, p), n)) ss)" for ss
    by (induction ss) (auto simp: se_pk_def)
  then show ?thesis
    by (simp add: projectSecretValues_def)
qed

text \<open>
  C8: with a cipher that decrypts what it encrypted, the value read for a name after a secret is
  stored is the new one for that project and name and the old one for every other project or
  name, whether the name was new or is overwritten. Storing a secret for a project that does not
  exist fails and stores nothing.
\<close>

theorem secret_roundtrip:
  assumes "db_ok db" and "\<And>v. dec (enc v) = v"
  shows "if (o1, p) \<in> pr_key ` set (projects db)
    then \<exists>db'. setSecret enc now o1 p n v db = Inr (db', ()) \<and>
      (\<forall>o2 q m. map_of (projectSecretValues dec o2 q db') m =
         (if (o2, q, m) = (o1, p, n) then Some v else map_of (projectSecretValues dec o2 q db) m))
    else setSecret enc now o1 p n v db = Inl ForeignKeyViolation"
proof -
  define row where "row = \<lparr>se_owner = o1, se_project = p, se_name = n, se_ciphertext = enc v, se_updated_at = now\<rparr>"
  define up where "up s = (if se_pk s = se_pk row then s\<lparr>se_ciphertext := enc v, se_updated_at := now\<rparr> else s)" for s
  have pk: "se_pk row = ((o1, p), n)"
    by (simp add: row_def se_pk_def se_key_def)
  have fk: "(o1, p) \<in> pr_key ` set (projects db)" if "((o1, p), n) \<in> se_pk ` set (secrets db)"
  proof -
    have "(o1, p) \<in> se_key ` set (secrets db)"
      using that by (force simp: se_pk_def)
    then show ?thesis
      using assms(1) unfolding db_ok_def refs_ok_def by blast
  qed
  have upd: "map_option (\<lambda>s. dec (se_ciphertext s)) (List.find (\<lambda>s. se_pk s = k) (map up ss)) =
      (if k = se_pk row then Some v else map_option (\<lambda>s. dec (se_ciphertext s)) (List.find (\<lambda>s. se_pk s = k) ss))"
    if "se_pk row \<in> se_pk ` set ss" for k ss
    unfolding up_def [abs_def] by (rule lookup_upsert_old [OF that]) (simp_all add: assms(2))
  have new: "map_option (\<lambda>s. dec (se_ciphertext s)) (List.find (\<lambda>s. se_pk s = k) (ss @ [row])) =
      (if k = se_pk row then Some v else map_option (\<lambda>s. dec (se_ciphertext s)) (List.find (\<lambda>s. se_pk s = k) ss))"
    if "se_pk row \<notin> se_pk ` set ss" for k ss
    using lookup_upsert_new [OF that, of "\<lambda>s. dec (se_ciphertext s)"] by (simp add: row_def assms(2))
  have eq: "setSecret enc now o1 p n v db =
      (if ((o1, p), n) \<in> se_pk ` set (secrets db) then Inr (db\<lparr>secrets := map up (secrets db)\<rparr>, ())
       else if (o1, p) \<notin> pr_key ` set (projects db) then Inl ForeignKeyViolation
       else Inr (db\<lparr>secrets := secrets db @ [row]\<rparr>, ()))"
    unfolding setSecret_def Let_def up_def row_def [symmetric] pk by (rule refl)
  let ?read = "\<lambda>db o2 q m. map_of (projectSecretValues dec o2 q db) m"
  show ?thesis
  proof (cases "((o1, p), n) \<in> se_pk ` set (secrets db)")
    case True
    then have "\<forall>o2 q m. ?read (db\<lparr>secrets := map up (secrets db)\<rparr>) o2 q m =
        (if (o2, q, m) = (o1, p, n) then Some v else ?read db o2 q m)"
      using upd [of "secrets db"] by (simp add: map_of_secret_values pk)
    then show ?thesis
      using True fk by (simp add: eq)
  next
    case False
    then have "\<forall>o2 q m. ?read (db\<lparr>secrets := secrets db @ [row]\<rparr>) o2 q m =
        (if (o2, q, m) = (o1, p, n) then Some v else ?read db o2 q m)"
      using new [of "secrets db"] by (simp add: map_of_secret_values pk)
    then show ?thesis
      using False by (simp add: eq)
  qed
qed

theorem secret_roundtrip_witness:
  "\<exists>db'. setSecret rev 7 ''ann'' ''web'' ''K'' ''xy'' sample_db = Inr (db', ()) \<and>
     map_of (projectSecretValues rev ''ann'' ''web'' db') ''K'' = Some ''xy''"
  using secret_roundtrip [OF sample_db_ok, of rev rev "''ann''" "''web''" 7 "''K''" "''xy''"]
  by (auto simp: sample_db_def pr_key_def)

end
