(* ===== verification/Routes.thy ===== *)
theory Routes
  imports Store_Props
begin

text \<open>
  The route snapshot the edge serves from (\<open>syncRoutes\<close>, \<open>routeContext\<close>, \<open>candidateRoute\<close> and
  \<open>writeRouteSnapshot\<close> of \<open>src/apps/control/src/store.ts\<close>). A snapshot is computed from one
  state of the database. Reading \<open>bindings.json\<close> beside a sprout is the argument \<open>bindings\<close>
  (\<open>None\<close> for a file that is absent, unreadable or not JSON), \<open>sha\<close> is SHA-256 in hex and
  \<open>decrypt\<close> the cipher of \<open>secrets-crypto.ts\<close>. The secrets directory is a map from file names
  to contents.
\<close>

section \<open>Service bindings\<close>

definition declared_entry :: "json \<Rightarrow> (string \<times> string) list" where
  "declared_entry e =
     (if isJsonObj e
      then (case (json_field e ''binding'', json_field e ''service'') of
              (Some (JStr b), Some (JStr s)) \<Rightarrow> [(b, s)]
            | _ \<Rightarrow> [])
      else [])"

definition declaredServices :: "(string \<Rightarrow> json option) \<Rightarrow> string \<Rightarrow> (string \<times> string) list" where
  "declaredServices bindings sproutPath =
     (case bindings sproutPath of
        None \<Rightarrow> []
      | Some parsed \<Rightarrow>
          (case json_field parsed ''services'' of
             Some (JArr es) \<Rightarrow> concat (map declared_entry es)
           | _ \<Rightarrow> []))"

section \<open>Route entries\<close>

record route_row =
  rr_hostname :: string
  rr_sprout_path :: string
  rr_owner :: owner
  rr_project :: string

record RouteEntry =
  re_hostname :: string
  re_sproutPath :: string
  re_secrets :: "(string \<times> string) option"
  re_services :: "(string \<times> string) list"
  re_ownerId :: owner
  re_r2ResourceIds :: "string list"
  re_doStoreId :: string

text \<open>The \<open>Map\<close> of canonical hostnames: a later row of the same project replaces an earlier one.\<close>

definition activeHosts :: "db \<Rightarrow> (project_key \<times> string) list" where
  "activeHosts db =
     fold (\<lambda>d m. AList.update (d_key d) (d_hostname d) m) (filter d_active (deployments db)) []"

text \<open>
  \<open>services[entry.binding] = host\<close> on a plain object: assigning a string to \<open>__proto__\<close> has no
  effect. An empty hostname is falsy and is left out.
\<close>

definition resolve_services :: "(project_key \<times> string) list \<Rightarrow> owner \<Rightarrow> (string \<times> string) list \<Rightarrow> (string \<times> string) list" where
  "resolve_services hosts o1 decl =
     fold (\<lambda>e m. case map_of hosts (o1, snd e) of
                   None \<Rightarrow> m
                 | Some h \<Rightarrow> if h = [] \<or> fst e = ''__proto__'' then m else AList.update (fst e) h m)
       decl []"

definition safe_file_char :: "char \<Rightarrow> char" where
  "safe_file_char c = (if is_lower c \<or> is_upper c \<or> is_digit c \<or> c \<in> {CHR ''_'', CHR ''-''} then c else CHR ''_'')"

definition secretsFile :: "owner \<Rightarrow> string \<Rightarrow> string" where
  "secretsFile o1 p = map safe_file_char (o1 @ ''__'' @ p) @ ''.json''"

definition secrets_content :: "(string \<times> string) list \<Rightarrow> string" where
  "secrets_content vals =
     (let keys = sort (map fst vals)
      in ''{'' @ join_with '','' (map (\<lambda>k. json_quote k @ '':'' @ json_quote (the (map_of vals k))) keys) @ ''}'')"

definition secrets_info ::
    "(string \<Rightarrow> string) \<Rightarrow> (string \<Rightarrow> string) \<Rightarrow> db \<Rightarrow> owner \<Rightarrow> string \<Rightarrow> (string \<times> string) option" where
  "secrets_info sha decrypt db o1 p =
     (let vals = projectSecretValues decrypt o1 p db
      in if vals = [] then None
         else Some (secretsFile o1 p, take 16 (sha (secrets_content vals))))"

definition r2_resource_ids :: "db \<Rightarrow> owner \<Rightarrow> string list" where
  "r2_resource_ids db o1 = map r_id (filter (\<lambda>r. r_kind r = R2) (ownerResources o1 db))"

definition do_store_id :: "(string \<Rightarrow> string) \<Rightarrow> owner \<Rightarrow> string \<Rightarrow> string" where
  "do_store_id sha o1 p = ''do_'' @ take 24 (sha (o1 @ [CHR 0x00] @ p))"

definition route_entry ::
    "(string \<Rightarrow> string) \<Rightarrow> (string \<Rightarrow> string) \<Rightarrow> (string \<Rightarrow> json option) \<Rightarrow> db \<Rightarrow> route_row \<Rightarrow> RouteEntry" where
  "route_entry sha decrypt bindings db row = \<lparr>
     re_hostname = rr_hostname row,
     re_sproutPath = rr_sprout_path row,
     re_secrets = secrets_info sha decrypt db (rr_owner row) (rr_project row),
     re_services = resolve_services (activeHosts db) (rr_owner row)
                     (declaredServices bindings (rr_sprout_path row)),
     re_ownerId = rr_owner row,
     re_r2ResourceIds = r2_resource_ids db (rr_owner row),
     re_doStoreId = do_store_id sha (rr_owner row) (rr_project row)\<rparr>"

text \<open>The side effect of an entry on the secrets directory: the file is written or removed.\<close>

definition write_secrets :: "(string \<Rightarrow> string) \<Rightarrow> db \<Rightarrow> route_row \<Rightarrow> (string \<rightharpoonup> string) \<Rightarrow> (string \<rightharpoonup> string)" where
  "write_secrets decrypt db row files =
     (let vals = projectSecretValues decrypt (rr_owner row) (rr_project row) db;
          path = secretsFile (rr_owner row) (rr_project row)
      in if vals = [] then files(path := None) else files(path \<mapsto> secrets_content vals))"

definition candidateRoute ::
    "(string \<Rightarrow> string) \<Rightarrow> (string \<Rightarrow> string) \<Rightarrow> (string \<Rightarrow> json option) \<Rightarrow> db \<Rightarrow> deployment \<Rightarrow> RouteEntry" where
  "candidateRoute sha decrypt bindings db d =
     route_entry sha decrypt bindings db
       \<lparr>rr_hostname = d_hostname d, rr_sprout_path = d_sprout_path d, rr_owner = d_owner d, rr_project = d_project d\<rparr>"

section \<open>The snapshot\<close>

definition generated_rows :: "db \<Rightarrow> route_row list" where
  "generated_rows db =
     map (\<lambda>d. \<lparr>rr_hostname = d_hostname d, rr_sprout_path = d_sprout_path d, rr_owner = d_owner d,
              rr_project = d_project d\<rparr>)
       (filter (\<lambda>d. d_active d \<and> d_owner d \<notin> set (bannedOwners db)) (deployments db))"

definition custom_rows :: "db \<Rightarrow> route_row list" where
  "custom_rows db =
     concat (map (\<lambda>c. map (\<lambda>d. \<lparr>rr_hostname = cd_hostname c, rr_sprout_path = d_sprout_path d,
                               rr_owner = d_owner d, rr_project = d_project d\<rparr>)
                        (filter (\<lambda>d. d_key d = cd_key c \<and> d_active d) (deployments db)))
       (filter (\<lambda>c. cd_verified c \<and> cd_owner c \<notin> set (bannedOwners db)) (custom_domains db)))"

text \<open>
  \<open>UNION\<close> removes duplicate rows; the compound query sorts by hostname and then by the other
  result columns.
\<close>

definition route_rows :: "db \<Rightarrow> route_row list" where
  "route_rows db =
     sort_key (\<lambda>r. [rr_hostname r, rr_sprout_path r, rr_owner r, rr_project r])
       (uniq (generated_rows db @ custom_rows db))"

definition writeRouteSnapshot ::
    "(string \<Rightarrow> string) \<Rightarrow> (string \<Rightarrow> string) \<Rightarrow> (string \<Rightarrow> json option) \<Rightarrow> db \<Rightarrow> (string \<rightharpoonup> string)
      \<Rightarrow> RouteEntry list \<times> (string \<rightharpoonup> string)" where
  "writeRouteSnapshot sha decrypt bindings db files =
     (map (route_entry sha decrypt bindings db) (route_rows db),
      fold (write_secrets decrypt db) (route_rows db) files)"

section \<open>What is routed\<close>

lemma set_generated_rows:
  "r \<in> set (generated_rows db) \<longleftrightarrow>
     (\<exists>d \<in> set (deployments db). d_active d \<and> d_owner d \<notin> set (bannedOwners db) \<and>
        r = \<lparr>rr_hostname = d_hostname d, rr_sprout_path = d_sprout_path d, rr_owner = d_owner d,
             rr_project = d_project d\<rparr>)"
  by (auto simp: generated_rows_def)

lemma set_custom_rows:
  "r \<in> set (custom_rows db) \<longleftrightarrow>
     (\<exists>c \<in> set (custom_domains db). \<exists>d \<in> set (deployments db).
        cd_verified c \<and> cd_owner c \<notin> set (bannedOwners db) \<and> d_key d = cd_key c \<and> d_active d \<and>
        r = \<lparr>rr_hostname = cd_hostname c, rr_sprout_path = d_sprout_path d, rr_owner = d_owner d,
             rr_project = d_project d\<rparr>)"
  by (auto simp: custom_rows_def)

lemma set_route_rows: "set (route_rows db) = set (generated_rows db) \<union> set (custom_rows db)"
  by (simp add: route_rows_def)

lemma distinct_route_rows: "distinct (route_rows db)"
  by (simp add: route_rows_def)

lemma sorted_hostnames: "sorted (map rr_hostname (route_rows db))"
proof -
  let ?k = "\<lambda>r. [rr_hostname r, rr_sprout_path r, rr_owner r, rr_project r]"
  have "sorted (map ?k (route_rows db))"
    by (simp add: route_rows_def)
  then have "sorted_wrt (\<lambda>r r'. ?k r \<le> ?k r') (route_rows db)"
    by (simp add: sorted_map)
  then have "sorted_wrt (\<lambda>r r'. rr_hostname r \<le> rr_hostname r') (route_rows db)"
    by (rule sorted_wrt_mono_rel [rotated]) auto
  then show ?thesis
    by (simp add: sorted_map)
qed

lemma row_routed:
  "\<lparr>rr_hostname = h, rr_sprout_path = path, rr_owner = o1, rr_project = p\<rparr> \<in> set (route_rows db) \<longleftrightarrow>
      o1 \<notin> set (bannedOwners db) \<and>
      (\<exists>d \<in> set (deployments db). d_active d \<and> d_key d = (o1, p) \<and> d_sprout_path d = path \<and>
        (h = d_hostname d \<or>
         (\<exists>c \<in> set (custom_domains db). cd_verified c \<and> cd_key c = (o1, p) \<and> cd_hostname c = h)))"
  (is "?row \<in> _ \<longleftrightarrow> ?ok \<and> ?ex")
proof
  assume "?row \<in> set (route_rows db)"
  then show "?ok \<and> ?ex"
    unfolding set_route_rows Un_iff set_generated_rows set_custom_rows d_key_def cd_key_def by force
next
  assume r: "?ok \<and> ?ex"
  then obtain d where d: "d \<in> set (deployments db)" "d_active d" "d_key d = (o1, p)" "d_sprout_path d = path"
    "h = d_hostname d \<or> (\<exists>c \<in> set (custom_domains db). cd_verified c \<and> cd_key c = (o1, p) \<and> cd_hostname c = h)"
    by blast
  then have "?row \<in> set (generated_rows db) \<or> ?row \<in> set (custom_rows db)"
    unfolding set_generated_rows set_custom_rows using r by (force simp: d_key_def cd_key_def)
  then show "?row \<in> set (route_rows db)"
    by (simp add: set_route_rows)
qed

text \<open>
  C9: a hostname is routed to a sprout of an account and project exactly when that account is not
  banned, the sprout belongs to the project's active version, and the hostname is that version's
  generated one or a verified custom domain of the project. The snapshot is sorted by hostname
  and has no duplicate row.
\<close>

theorem routes_exact:
  "(\<lparr>rr_hostname = h, rr_sprout_path = path, rr_owner = o1, rr_project = p\<rparr> \<in> set (route_rows db) \<longleftrightarrow>
      o1 \<notin> set (bannedOwners db) \<and>
      (\<exists>d \<in> set (deployments db). d_active d \<and> d_key d = (o1, p) \<and> d_sprout_path d = path \<and>
        (h = d_hostname d \<or>
         (\<exists>c \<in> set (custom_domains db). cd_verified c \<and> cd_key c = (o1, p) \<and> cd_hostname c = h)))) \<and>
   distinct (route_rows db) \<and> sorted (map rr_hostname (route_rows db)) \<and>
   fst (writeRouteSnapshot sha decrypt bindings db files) = map (route_entry sha decrypt bindings db) (route_rows db)"
  using row_routed [of h path o1 p db] by (simp add: distinct_route_rows sorted_hostnames writeRouteSnapshot_def)

lemma row_eta:
  "\<lparr>rr_hostname = rr_hostname r, rr_sprout_path = rr_sprout_path r, rr_owner = rr_owner r,
    rr_project = rr_project r\<rparr> = r"
  by simp

lemma row_images:
  "rr_hostname ` {r \<in> R. rr_owner r = o1 \<and> rr_project r = p} =
     {h. \<exists>path. \<lparr>rr_hostname = h, rr_sprout_path = path, rr_owner = o1, rr_project = p\<rparr> \<in> R}"
proof (intro set_eqI iffI)
  fix h assume "h \<in> rr_hostname ` {r \<in> R. rr_owner r = o1 \<and> rr_project r = p}"
  then obtain r where "r \<in> R" "rr_owner r = o1" "rr_project r = p" "h = rr_hostname r"
    by blast
  then have "\<lparr>rr_hostname = h, rr_sprout_path = rr_sprout_path r, rr_owner = o1, rr_project = p\<rparr> \<in> R"
    by hypsubst (simp only: row_eta)
  then show "h \<in> {h. \<exists>path. \<lparr>rr_hostname = h, rr_sprout_path = path, rr_owner = o1, rr_project = p\<rparr> \<in> R}"
    by blast
next
  fix h assume "h \<in> {h. \<exists>path. \<lparr>rr_hostname = h, rr_sprout_path = path, rr_owner = o1, rr_project = p\<rparr> \<in> R}"
  then obtain path where "\<lparr>rr_hostname = h, rr_sprout_path = path, rr_owner = o1, rr_project = p\<rparr> \<in> R"
    by blast
  then show "h \<in> rr_hostname ` {r \<in> R. rr_owner r = o1 \<and> rr_project r = p}"
    by (intro image_eqI [where x = "\<lparr>rr_hostname = h, rr_sprout_path = path, rr_owner = o1, rr_project = p\<rparr>"]) simp_all
qed

text \<open>
  C10: no entry of the snapshot belongs to a banned account. The hostnames routed to a project
  are none while its owner is banned and exactly those \<open>projectHosts\<close> reports otherwise.
\<close>

theorem banned_never_routed:
  assumes "db_ok db"
  shows "re_ownerId ` set (fst (writeRouteSnapshot sha decrypt bindings db files)) \<inter> set (bannedOwners db) = {}
    \<and> rr_hostname ` {r \<in> set (route_rows db). rr_owner r = o1 \<and> rr_project r = p} =
        (if o1 \<in> set (bannedOwners db) then {} else set (projectHosts o1 p db))"
proof
  have "rr_owner r \<notin> set (bannedOwners db)" if "r \<in> set (route_rows db)" for r
    using that row_routed [of "rr_hostname r" "rr_sprout_path r" "rr_owner r" "rr_project r" db]
    by (simp only: row_eta simp_thms)
  then show "re_ownerId ` set (fst (writeRouteSnapshot sha decrypt bindings db files)) \<inter> set (bannedOwners db) = {}"
    by (auto simp: writeRouteSnapshot_def route_entry_def)
  have act: "\<exists>d \<in> set (deployments db). d_active d \<and> d_key d = (o1, p)"
    if "c \<in> set (custom_domains db)" "cd_key c = (o1, p)" for c
  proof -
    have "(o1, p) \<in> cd_key ` set (custom_domains db)"
      using that by (metis image_eqI)
    then have "(o1, p) \<in> d_key ` set (filter d_active (deployments db))"
      by (rule subsetD [OF subset_trans [of "cd_key ` set (custom_domains db)" "pr_key ` set (projects db)"], rotated -1])
        (use assms in \<open>simp_all add: db_ok_def refs_ok_def active_ok_def del: set_filter\<close>)
    then show ?thesis
      by force
  qed
  have "rr_hostname ` {r \<in> set (route_rows db). rr_owner r = o1 \<and> rr_project r = p} =
      {h. \<exists>path. \<lparr>rr_hostname = h, rr_sprout_path = path, rr_owner = o1, rr_project = p\<rparr> \<in> set (route_rows db)}"
    by (rule row_images)
  also have "\<dots> = (if o1 \<in> set (bannedOwners db) then {} else set (projectHosts o1 p db))"
    unfolding row_routed using act by (auto simp: projectHosts_def) blast+
  finally show "rr_hostname ` {r \<in> set (route_rows db). rr_owner r = o1 \<and> rr_project r = p} =
      (if o1 \<in> set (bannedOwners db) then {} else set (projectHosts o1 p db))" .
qed

theorem banned_never_routed_witness:
  "re_ownerId ` set (fst (writeRouteSnapshot id id (\<lambda>_. None) (banOwner 1 ''ann'' sample_db) Map.empty))
     \<inter> {''ann''} = {}"
  using banned_never_routed [OF banOwner_ok [OF sample_db_ok, of 1 "''ann''"], of id id "\<lambda>_. None" Map.empty]
  by (auto simp: bannedOwners_def banOwner_def insert_or_ignore_def sample_db_def)

section \<open>One sprout per hostname\<close>

text \<open>
  The hostnames the control service generates are \<open><project>.<username>.<domain>\<close>, so no two
  projects share one, and \<open>domains.ts\<close> refuses custom domains under the platform's own names.
\<close>

definition hostnames_ok :: "db \<Rightarrow> bool" where
  "hostnames_ok db \<longleftrightarrow>
     (\<forall>d \<in> set (deployments db). \<forall>d' \<in> set (deployments db). d_hostname d = d_hostname d' \<longrightarrow> d_key d = d_key d') \<and>
     (\<forall>c \<in> set (custom_domains db). \<forall>d \<in> set (deployments db). cd_hostname c \<noteq> d_hostname d)"

lemma active_key_inj:
  assumes "db_ok db" "d \<in> set (deployments db)" "d' \<in> set (deployments db)" "d_active d" "d_active d'" "d_key d = d_key d'"
  shows "d = d'"
proof -
  have "inj_on d_key (set (filter d_active (deployments db)))"
    using assms(1) by (simp add: db_ok_def active_ok_def distinct_map)
  then show ?thesis
    using assms by (auto simp: inj_on_def)
qed

lemma verified_host_inj:
  assumes "db_ok db" "c \<in> set (custom_domains db)" "c' \<in> set (custom_domains db)" "cd_verified c" "cd_hostname c' = cd_hostname c"
  shows "c' = c"
  using assms by (simp add: db_ok_def domains_ok_def)

lemma route_rows_inj:
  assumes "db_ok db" "hostnames_ok db" "r \<in> set (route_rows db)" "r' \<in> set (route_rows db)"
    "rr_hostname r = rr_hostname r'"
  shows "r = r'"
proof -
  have gen: "\<exists>d \<in> set (deployments db). d_active d \<and> ((x = d_hostname d) \<or>
        (\<exists>c \<in> set (custom_domains db). cd_verified c \<and> cd_key c = d_key d \<and> x = cd_hostname c)) \<and>
      y = \<lparr>rr_hostname = x, rr_sprout_path = d_sprout_path d, rr_owner = d_owner d, rr_project = d_project d\<rparr>"
    if "y \<in> set (route_rows db)" "x = rr_hostname y" for x y
    using that by (fastforce simp: set_route_rows set_generated_rows set_custom_rows)
  obtain d where d: "d \<in> set (deployments db)" "d_active d"
      "rr_hostname r = d_hostname d \<or> (\<exists>c \<in> set (custom_domains db). cd_verified c \<and> cd_key c = d_key d \<and> rr_hostname r = cd_hostname c)"
      "r = \<lparr>rr_hostname = rr_hostname r, rr_sprout_path = d_sprout_path d, rr_owner = d_owner d, rr_project = d_project d\<rparr>"
    using gen [OF assms(3) refl] by blast
  obtain d' where d': "d' \<in> set (deployments db)" "d_active d'"
      "rr_hostname r = d_hostname d' \<or> (\<exists>c \<in> set (custom_domains db). cd_verified c \<and> cd_key c = d_key d' \<and> rr_hostname r = cd_hostname c)"
      "r' = \<lparr>rr_hostname = rr_hostname r, rr_sprout_path = d_sprout_path d', rr_owner = d_owner d', rr_project = d_project d'\<rparr>"
    using gen [OF assms(4) refl] assms(5) by metis
  have "d_key d = d_key d'"
    using d(3) d'(3) d(1) d'(1) assms(2) verified_host_inj [OF assms(1)]
    unfolding hostnames_ok_def by metis
  then have "d = d'"
    using active_key_inj [OF assms(1)] d d' by blast
  then show ?thesis
    using d(4) d'(4) by simp
qed



section \<open>Services stay inside the account\<close>

lemma fold_update_map_of:
  "map_of (fold (\<lambda>x m. AList.update (f x) (g x) m) xs m0) k = Some v \<Longrightarrow>
     (\<exists>x \<in> set xs. f x = k \<and> g x = v) \<or> map_of m0 k = Some v"
proof (induction xs arbitrary: m0)
  case (Cons a xs)
  then have "(\<exists>x \<in> set xs. f x = k \<and> g x = v) \<or> map_of (AList.update (f a) (g a) m0) k = Some v"
    by simp
  then show ?case
    by (auto simp: update_conv split: if_splits)
qed simp

lemma activeHosts_sound:
  assumes "map_of (activeHosts db) (o1, s) = Some h"
  shows "\<exists>d \<in> set (deployments db). d_active d \<and> d_key d = (o1, s) \<and> d_hostname d = h"
  using fold_update_map_of [OF assms [unfolded activeHosts_def]] by auto

lemma resolve_services_sound:
  assumes "(b, h) \<in> set (resolve_services hosts o1 decl)"
  shows "\<exists>s. (b, s) \<in> set decl \<and> map_of hosts (o1, s) = Some h"
proof -
  let ?f = "\<lambda>e m. case map_of hosts (o1, snd e) of None \<Rightarrow> m
     | Some h \<Rightarrow> if h = [] \<or> fst e = ''__proto__'' then m else AList.update (fst e) h m"
  have "(b, h) \<in> set (fold ?f xs m) \<Longrightarrow> (\<exists>s. (b, s) \<in> set xs \<and> map_of hosts (o1, s) = Some h) \<or> (b, h) \<in> set m" for xs m
  proof (induction xs arbitrary: m)
    case (Cons e xs)
    then consider "\<exists>s. (b, s) \<in> set xs \<and> map_of hosts (o1, s) = Some h" | "(b, h) \<in> set (?f e m)"
      by force
    then show ?case
    proof cases
      case 2
      have upd: "(b, h) \<in> set (AList.update k v m) \<Longrightarrow> (b = k \<and> h = v) \<or> (b, h) \<in> set m" for k v
        by (induction m) (auto split: if_splits)
      show ?thesis
        using 2 by (cases e) (auto split: option.splits if_splits dest!: upd)
    qed auto
  qed simp
  from this [of decl "[]"] show ?thesis
    using assms by (simp add: resolve_services_def)
qed

text \<open>
  C12: a service binding only ever reaches a project of the same account: every hostname an
  entry's \<open>services\<close> names is the generated hostname of an active version of the entry's own
  owner, and of the very project the artifact declared for that binding.
\<close>

theorem services_same_owner:
  assumes "e \<in> set (fst (writeRouteSnapshot sha decrypt bindings db files))"
    and "(b, h) \<in> set (re_services e)"
  shows "\<exists>d \<in> set (deployments db). d_active d \<and> d_owner d = re_ownerId e \<and> d_hostname d = h \<and>
    (b, d_project d) \<in> set (declaredServices bindings (re_sproutPath e))"
proof -
  obtain r where e: "e = route_entry sha decrypt bindings db r"
    using assms(1) by (auto simp: writeRouteSnapshot_def)
  then obtain s where "(b, s) \<in> set (declaredServices bindings (rr_sprout_path r))"
    "map_of (activeHosts db) (rr_owner r, s) = Some h"
    using assms(2) resolve_services_sound by (fastforce simp: route_entry_def)
  then show ?thesis
    using activeHosts_sound e by (fastforce simp: route_entry_def d_key_def)
qed

theorem services_same_owner_witness:
  "\<exists>d \<in> set (deployments sample_db). d_active d \<and> d_owner d = ''ann'' \<and> d_hostname d = ''web.ann''"
proof -
  let ?b = "\<lambda>_. Some (JObj [(''services'', JArr [JObj [(''binding'', JStr ''B''), (''service'', JStr ''web'')]])])"
  let ?row = "\<lparr>rr_hostname = ''web.ann'', rr_sprout_path = ''/a/aa'', rr_owner = ''ann'', rr_project = ''web''\<rparr>"
  let ?e = "route_entry id id ?b sample_db ?row"
  have "?row \<in> set (route_rows sample_db)"
    by (simp add: row_routed bannedOwners_def sample_defs)
  then have "?e \<in> set (fst (writeRouteSnapshot id id ?b sample_db Map.empty))"
    by (auto simp: writeRouteSnapshot_def)
  moreover have "(''B'', ''web.ann'') \<in> set (re_services ?e)"
    by (simp add: route_entry_def declaredServices_def json_field_def declared_entry_def isJsonObj_def
        resolve_services_def activeHosts_def sample_defs)
  ultimately show ?thesis
    using services_same_owner [of ?e id id ?b sample_db Map.empty "''B''" "''web.ann''"]
    by (auto simp: route_entry_def)
qed

section \<open>Secrets files\<close>

lemma safe_file_char_id [simp]:
  "is_lower c \<or> is_upper c \<or> is_digit c \<or> c = CHR ''_'' \<or> c = CHR ''-'' \<Longrightarrow> safe_file_char c = c"
  by (auto simp: safe_file_char_def)

lemma map_safe_id: "list_all (\<lambda>c. is_lower c \<or> is_upper c \<or> is_digit c \<or> c = CHR ''-'') s \<Longrightarrow> map safe_file_char s = s"
  by (induction s) auto



end
