(* ===== verification/Artifact_GC.thy ===== *)
theory Artifact_GC
  imports Routes
begin

text \<open>
  Artifact directories and their collection (\<open>collectArtifacts\<close>, \<open>sweepBrokerState\<close>,
  \<open>sweepUploads\<close>, \<open>holdArtifact\<close> of \<open>src/apps/control/src/store.ts\<close>).

  The disk is the list of artifact directories that exist, by (owner, digest): \<open>artifactDir\<close> is
  injective on these. \<open>rm_ok\<close> says whether removing a directory succeeds. The in-flight set is a
  \<open>Set\<close> of keys, so holding an artifact twice and releasing it once leaves it released.
\<close>

section \<open>State\<close>

record world =
  w_db :: db
  w_dirs :: "artifact_ref list"
  w_inflight :: "artifact_ref list"

definition holdArtifact :: "artifact_ref \<Rightarrow> world \<Rightarrow> world" where
  "holdArtifact ref w = w\<lparr>w_inflight := List.insert ref (w_inflight w)\<rparr>"

definition releaseArtifact :: "artifact_ref \<Rightarrow> world \<Rightarrow> world" where
  "releaseArtifact ref w = w\<lparr>w_inflight := filter (\<lambda>r. r \<noteq> ref) (w_inflight w)\<rparr>"

definition artifactInFlight :: "artifact_ref \<Rightarrow> world \<Rightarrow> bool" where
  "artifactInFlight ref w = (ref \<in> set (w_inflight w))"

definition rm_dir :: "artifact_ref \<Rightarrow> world \<Rightarrow> world" where
  "rm_dir ref w = w\<lparr>w_dirs := filter (\<lambda>r. r \<noteq> ref) (w_dirs w)\<rparr>"

section \<open>Collecting\<close>

text \<open>One iteration of the loop of \<open>collectArtifacts\<close>, on an artifact not seen before.\<close>

definition collect_one ::
    "(artifact_ref \<Rightarrow> bool) \<Rightarrow> artifact_ref \<Rightarrow> world \<times> digest list \<times> digest list \<Rightarrow> world \<times> digest list \<times> digest list" where
  "collect_one rm_ok ref st =
     (case st of (w, removed, failed) \<Rightarrow>
        if artifactInFlight ref w then (w, removed, failed)
        else if \<not> hex64 (snd ref)
        then (w, removed, if ref \<in> ar_key ` set (artifacts (w_db w)) then failed @ [snd ref] else failed)
        else case drop_artifact_row ref (w_db w) of (db', dropped) \<Rightarrow>
          if \<not> dropped then (w, removed, failed)
          else let w' = w\<lparr>w_db := db'\<rparr>
               in if rm_ok ref then (rm_dir ref w', removed @ [snd ref], failed)
                  else (w', removed, failed @ [snd ref]))"

text \<open>The loop skips keys it has seen; the sweep of broker state at its end is below.\<close>

definition collectArtifacts ::
    "(artifact_ref \<Rightarrow> bool) \<Rightarrow> artifact_ref list \<Rightarrow> world \<Rightarrow> world \<times> digest list \<times> digest list" where
  "collectArtifacts rm_ok refs w = fold (collect_one rm_ok) (uniq refs) (w, [], [])"

section \<open>Sweeping\<close>

text \<open>A directory entry: its name and its modification time.\<close>

type_synonym dir_entry = "string \<times> ms"

definition artifactOwnerDir :: "(string \<Rightarrow> string) \<Rightarrow> owner \<Rightarrow> string" where
  "artifactOwnerDir sha o1 = take 32 (sha o1)"

definition held :: "(string \<Rightarrow> string) \<Rightarrow> db \<Rightarrow> string \<Rightarrow> bool" where
  "held sha db name =
     (let ownerDir = take 32 name; dg = drop 33 name
      in \<exists>a \<in> set (artifacts db). ar_digest a = dg \<and> artifactOwnerDir sha (ar_owner a) = ownerDir)"

definition broker_name :: "string \<Rightarrow> bool" where
  "broker_name name \<longleftrightarrow>
     length name = 97 \<and> list_all is_hex (take 32 name) \<and> name ! 32 = CHR ''-'' \<and> list_all is_hex (drop 33 name)"

definition stale_entry :: "ms \<Rightarrow> dir_entry \<Rightarrow> bool" where
  "stale_entry cutoff e \<longleftrightarrow> snd e \<le> cutoff"

definition sweepUploads :: "(string \<Rightarrow> bool) \<Rightarrow> ms \<Rightarrow> ms \<Rightarrow> dir_entry list \<Rightarrow> dir_entry list \<times> string list" where
  "sweepUploads rm_ok now maxAge entries =
     (let gone = (\<lambda>e. starts_with (fst e) ''.upload-'' \<and> stale_entry (now - maxAge) e \<and> rm_ok (fst e))
      in (filter (\<lambda>e. \<not> gone e) entries, map fst (filter gone entries)))"

definition sweepBrokerState ::
    "(string \<Rightarrow> string) \<Rightarrow> (string \<Rightarrow> bool) \<Rightarrow> ms \<Rightarrow> db \<Rightarrow> dir_entry list \<Rightarrow> dir_entry list \<times> string list" where
  "sweepBrokerState sha rm_ok now db entries =
     (let gone = (\<lambda>e. broker_name (fst e) \<and> \<not> held sha db (fst e) \<and>
                      stale_entry (now - 10 * 60000) e \<and> rm_ok (fst e))
      in (filter (\<lambda>e. \<not> gone e) entries, map fst (filter gone entries)))"

section \<open>Collection is safe\<close>

text \<open>What the edge relies on: the directory of every recorded version exists.\<close>

definition artifacts_present :: "world \<Rightarrow> bool" where
  "artifacts_present w \<longleftrightarrow> refOf ` set (deployments (w_db w)) \<subseteq> set (w_dirs w)"

lemma collect_one_frame:
  assumes "collect_one rm_ok ref (w, rm, fl) = (w', rm', fl')"
  shows "deployments (w_db w') = deployments (w_db w)" "w_inflight w' = w_inflight w"
    "w' = w \<or> (\<not> artifactInFlight ref w \<and> hex64 (snd ref) \<and> ref \<notin> refOf ` set (deployments (w_db w)) \<and>
       w_db w' = fst (drop_artifact_row ref (w_db w)) \<and>
       w_dirs w' = (if rm_ok ref then filter (\<lambda>r. r \<noteq> ref) (w_dirs w) else w_dirs w))"
  using assms
  by (auto simp: collect_one_def drop_artifact_row_def rm_dir_def Let_def split: if_splits prod.splits)

lemma collect_one_keeps:
  assumes "collect_one rm_ok ref (w, rm, fl) = (w', rm', fl')" and "r \<in> set (w_dirs w)"
    and "r \<in> refOf ` set (deployments (w_db w)) \<or> r \<in> set (w_inflight w) \<or> r \<noteq> ref"
  shows "r \<in> set (w_dirs w')"
  using collect_one_frame(3) [OF assms(1)] assms(2,3)
  by (auto simp: artifactInFlight_def split: if_splits)

lemma fold_collect:
  assumes "fold (collect_one rm_ok) refs (w, rm, fl) = (w', rm', fl')"
  shows "deployments (w_db w') = deployments (w_db w) \<and> w_inflight w' = w_inflight w \<and>
    (\<forall>r \<in> set (w_dirs w). r \<in> refOf ` set (deployments (w_db w)) \<or> r \<in> set (w_inflight w) \<or> r \<notin> set refs
       \<longrightarrow> r \<in> set (w_dirs w')) \<and>
    set (w_dirs w') \<subseteq> set (w_dirs w) \<and> (db_ok (w_db w) \<longrightarrow> db_ok (w_db w'))"
  using assms
proof (induction refs arbitrary: w rm fl)
  case (Cons ref refs)
  obtain w1 rm1 fl1 where one: "collect_one rm_ok ref (w, rm, fl) = (w1, rm1, fl1)"
    by (metis prod_cases3)
  then have rest: "fold (collect_one rm_ok) refs (w1, rm1, fl1) = (w', rm', fl')"
    using Cons.prems by simp
  note fr = collect_one_frame [OF one]
  have "db_ok (w_db w) \<longrightarrow> db_ok (w_db w1)" "set (w_dirs w1) \<subseteq> set (w_dirs w)"
    using fr(3) drop_artifact_row_ok [of "w_db w" ref] by (auto split: if_splits)
  then show ?case
    using Cons.IH [OF rest] fr(1,2) collect_one_keeps [OF one] by auto
qed simp

lemma collect_one_collects:
  assumes "collect_one rm_ok ref (w, rm, fl) = (w', rm', fl')"
    and "\<not> artifactInFlight ref w" "hex64 (snd ref)" "rm_ok ref"
    and "ref \<in> ar_key ` set (artifacts (w_db w))" "ref \<notin> refOf ` set (deployments (w_db w))"
  shows "ref \<notin> set (w_dirs w') \<and> ref \<notin> ar_key ` set (artifacts (w_db w'))"
  using assms by (auto simp: collect_one_def drop_artifact_row_def rm_dir_def Let_def simp del: set_map)

lemma collect_one_other_rows:
  assumes "collect_one rm_ok ref (w, rm, fl) = (w', rm', fl')"
  shows "ar_key ` set (artifacts (w_db w')) \<subseteq> ar_key ` set (artifacts (w_db w))"
    "r \<noteq> ref \<Longrightarrow> r \<in> ar_key ` set (artifacts (w_db w)) \<Longrightarrow> r \<in> ar_key ` set (artifacts (w_db w'))"
  using collect_one_frame(3) [OF assms] by (auto simp: drop_artifact_row_def)

lemma fold_collect_gone:
  assumes "fold (collect_one rm_ok) refs (w, rm, fl) = (w', rm', fl')"
  shows "ar_key ` set (artifacts (w_db w')) \<subseteq> ar_key ` set (artifacts (w_db w))"
  using assms
proof (induction refs arbitrary: w rm fl)
  case (Cons ref refs)
  obtain w1 rm1 fl1 where one: "collect_one rm_ok ref (w, rm, fl) = (w1, rm1, fl1)"
    by (metis prod_cases3)
  then show ?case
    using Cons.IH [of w1 rm1 fl1] Cons.prems collect_one_other_rows(1) [OF one] by simp
qed simp

lemma fold_collects:
  assumes "fold (collect_one rm_ok) refs (w, rm, fl) = (w', rm', fl')"
    and "r \<in> set refs" "r \<notin> set (w_inflight w)" "hex64 (snd r)" "rm_ok r"
    and "r \<in> ar_key ` set (artifacts (w_db w))" "r \<notin> refOf ` set (deployments (w_db w))"
  shows "r \<notin> set (w_dirs w') \<and> r \<notin> ar_key ` set (artifacts (w_db w'))"
  using assms
proof (induction refs arbitrary: w rm fl)
  case (Cons ref refs)
  obtain w1 rm1 fl1 where one: "collect_one rm_ok ref (w, rm, fl) = (w1, rm1, fl1)"
    by (metis prod_cases3)
  then have rest: "fold (collect_one rm_ok) refs (w1, rm1, fl1) = (w', rm', fl')"
    using Cons.prems(1) by simp
  show ?case
  proof (cases "ref = r")
    case True
    then have "r \<notin> set (w_dirs w1) \<and> r \<notin> ar_key ` set (artifacts (w_db w1))"
      using collect_one_collects [OF one] Cons.prems by (simp add: artifactInFlight_def)
    then show ?thesis
      using fold_collect [OF rest] fold_collect_gone [OF rest] by blast
  next
    case False
    then have "r \<in> ar_key ` set (artifacts (w_db w1))"
      using collect_one_other_rows(2) [OF one] Cons.prems by simp
    then show ?thesis
      using Cons.IH [OF rest] Cons.prems False collect_one_frame(1,2) [OF one] by simp
  qed
qed simp

text \<open>
  C14: a collection, whatever artifacts it is given and whatever removals fail, never takes the
  directory of a recorded version, of an artifact a deploy holds in flight, or of an artifact it
  was not asked about; it keeps the versions, and the store stays well-formed.
\<close>

theorem collect_safe:
  assumes "collectArtifacts rm_ok refs w = (w', removed, failed)"
    and "db_ok (w_db w)" and "artifacts_present w"
  shows "db_ok (w_db w') \<and> artifacts_present w' \<and> deployments (w_db w') = deployments (w_db w) \<and>
    (\<forall>r \<in> set (w_dirs w). r \<in> set (w_inflight w) \<or> r \<notin> set refs \<longrightarrow> r \<in> set (w_dirs w'))"
  using fold_collect [OF assms(1) [unfolded collectArtifacts_def]] assms(2,3)
  by (auto simp: artifacts_present_def)

theorem collect_safe_witness:
  "\<exists>w' rm fl. collectArtifacts (\<lambda>_. True) [(''ann'', ''aa'')]
       \<lparr>w_db = sample_db, w_dirs = [(''ann'', ''aa''), (''ann'', ''bb''), (''bob'', ''aa'')], w_inflight = []\<rparr> = (w', rm, fl) \<and>
     artifacts_present w'"
proof -
  let ?w = "\<lparr>w_db = sample_db, w_dirs = [(''ann'', ''aa''), (''ann'', ''bb''), (''bob'', ''aa'')], w_inflight = []\<rparr>"
  obtain w' rm fl where "collectArtifacts (\<lambda>_. True) [(''ann'', ''aa'')] ?w = (w', rm, fl)"
    by (metis prod_cases3)
  moreover have "artifacts_present ?w"
    by (simp add: artifacts_present_def sample_defs)
  ultimately show ?thesis
    using collect_safe [of "\<lambda>_. True" "[(''ann'', ''aa'')]" ?w w' rm fl] sample_db_ok by auto
qed

text \<open>
  C15: a collection does its work: an artifact it is given, with a row, a digest that is one, no
  version left and no deploy in flight, is gone from disk and from the table afterwards, unless
  its removal fails.
\<close>

theorem collect_complete:
  assumes "collectArtifacts rm_ok refs w = (w', removed, failed)"
    and "r \<in> set refs" and "r \<notin> set (w_inflight w)" and "hex64 (snd r)" and "rm_ok r"
    and "r \<in> ar_key ` set (artifacts (w_db w))" and "r \<notin> refOf ` set (deployments (w_db w))"
  shows "r \<notin> set (w_dirs w') \<and> r \<notin> ar_key ` set (artifacts (w_db w'))"
  using fold_collects [OF assms(1) [unfolded collectArtifacts_def]] assms(2-) by simp

theorem collect_complete_witness:
  "\<exists>w' rm fl. collectArtifacts (\<lambda>_. True) [(''a'', replicate 64 CHR ''0'')]
       \<lparr>w_db = empty_db\<lparr>artifacts := [\<lparr>ar_owner = ''a'', ar_digest = replicate 64 CHR ''0'', ar_created_at = 1\<rparr>]\<rparr>,
        w_dirs = [(''a'', replicate 64 CHR ''0'')], w_inflight = []\<rparr> = (w', rm, fl) \<and>
     (''a'', replicate 64 CHR ''0'') \<notin> set (w_dirs w')"
proof -
  let ?r = "(''a'', replicate 64 CHR ''0'')"
  let ?w = "\<lparr>w_db = empty_db\<lparr>artifacts := [\<lparr>ar_owner = ''a'', ar_digest = replicate 64 CHR ''0'', ar_created_at = 1\<rparr>]\<rparr>,
        w_dirs = [?r], w_inflight = []\<rparr>"
  obtain w' rm fl where "collectArtifacts (\<lambda>_. True) [?r] ?w = (w', rm, fl)"
    by (metis prod_cases3)
  moreover have "hex64 (replicate 64 CHR ''0'')"
    by (simp add: hex64_def list_all_iff is_hex_def is_digit_def)
  ultimately show ?thesis
    using collect_complete [of "\<lambda>_. True" "[?r]" ?w w' rm fl ?r] by (simp add: ar_key_def empty_db_def)
qed

section \<open>Sweeps are safe\<close>

lemma held_runtime:
  assumes "a \<in> set (artifacts db)" and "32 \<le> length (sha (ar_owner a))"
  shows "held sha db (artifactOwnerDir sha (ar_owner a) @ ''-'' @ ar_digest a)"
proof -
  have "length (artifactOwnerDir sha (ar_owner a)) = 32"
    using assms(2) by (simp add: artifactOwnerDir_def)
  then show ?thesis
    using assms(1) by (auto simp: held_def Let_def)
qed

text \<open>
  C16: the sweep of broker state never removes the state of an artifact a row still holds, nor
  anything changed in the last ten minutes, nor a name that is not broker state; it reports
  exactly the names it removed, and keeps the rest in order.
\<close>

theorem sweep_broker_safe:
  assumes "sweepBrokerState sha rm_ok now db entries = (left, removed)"
    and "\<And>x. length (sha x) = 64"
  shows "left = filter (\<lambda>e. e \<in> set left) entries \<and>
    removed = map fst (filter (\<lambda>e. e \<notin> set left) entries) \<and>
    (\<forall>e \<in> set entries. e \<notin> set left \<longrightarrow>
       broker_name (fst e) \<and> snd e \<le> now - 600000 \<and>
       fst e \<notin> (\<lambda>a. artifactOwnerDir sha (ar_owner a) @ ''-'' @ ar_digest a) ` set (artifacts db))"
proof -
  define gone where "gone e \<longleftrightarrow> broker_name (fst e) \<and> \<not> held sha db (fst e) \<and>
      stale_entry (now - 10 * 60000) e \<and> rm_ok (fst e)" for e
  have l: "left = filter (\<lambda>e. \<not> gone e) entries" and r: "removed = map fst (filter gone entries)"
    using assms(1) by (simp_all add: sweepBrokerState_def gone_def [abs_def])
  have "e \<notin> set left \<longleftrightarrow> gone e" if "e \<in> set entries" for e
    using that l by auto
  moreover have "held sha db (artifactOwnerDir sha (ar_owner a) @ ''-'' @ ar_digest a)" if "a \<in> set (artifacts db)" for a
    using held_runtime [OF that, of sha] assms(2) by simp
  ultimately show ?thesis
    using l r by (auto simp: gone_def stale_entry_def cong: filter_cong)
qed

theorem sweep_broker_safe_witness:
  "snd (sweepBrokerState (\<lambda>_. replicate 64 CHR ''0'') (\<lambda>_. True) 0 sample_db [(''x'', 0)]) = []"
proof -
  obtain l r where eq: "sweepBrokerState (\<lambda>_. replicate 64 CHR ''0'') (\<lambda>_. True) 0 sample_db [(''x'', 0)] = (l, r)"
    by (metis surj_pair)
  moreover have "\<not> broker_name ''x''"
    by (simp add: broker_name_def)
  ultimately show ?thesis
    using sweep_broker_safe [OF eq] by auto
qed

end
