(* ===== verification/Deploy_Protocol.thy ===== *)
theory Deploy_Protocol
  imports Artifact_GC
begin

text \<open>
  Concurrent deploys (\<open>runDeploy\<close> of \<open>src/apps/control/src/deployments.ts\<close> from \<open>holdArtifact\<close>
  to \<open>release\<close>). A deploy is a job that holds its artifact, places the uploaded directory under
  the artifact lock (or reuses the one that exists), starts its candidate outside the lock, and
  records the version under the lock; jobs, collections and store mutations interleave at these
  points. A candidate that does not start, or an insert that fails, removes the directory if this
  job placed it.
\<close>

section \<open>Jobs\<close>

datatype phase = Held | Staging | Staged

record job =
  j_row :: deployment
  j_resources :: "string list"
  j_phase :: phase
  j_placed :: bool

record deploy_state =
  dp_world :: world
  dp_jobs :: "(nat \<times> job) list"

definition deploy_start :: deploy_state where
  "deploy_start = \<lparr>dp_world = \<lparr>w_db = empty_db, w_dirs = [], w_inflight = []\<rparr>, dp_jobs = []\<rparr>"

datatype deploy_act =
    Hold nat deployment "string list"
  | Place nat
  | StageFail nat
  | StageOk nat
  | Record nat
  | Collect "artifact_ref list" "artifact_ref list"
  | Mutate db_op

definition hold_job :: "nat \<Rightarrow> deployment \<Rightarrow> string list \<Rightarrow> deploy_state \<Rightarrow> deploy_state" where
  "hold_job j d rs s =
     (if j \<in> fst ` set (dp_jobs s) then s
      else s\<lparr>dp_world := holdArtifact (refOf d) (dp_world s),
             dp_jobs := (j, \<lparr>j_row = d, j_resources = rs, j_phase = Held, j_placed = False\<rparr>) # dp_jobs s\<rparr>)"

definition place_job :: "nat \<Rightarrow> job \<Rightarrow> deploy_state \<Rightarrow> deploy_state" where
  "place_job j b s =
     (let ref = refOf (j_row b); w = dp_world s
      in if ref \<in> set (w_dirs w)
         then s\<lparr>dp_jobs := AList.update j (b\<lparr>j_phase := Staging\<rparr>) (dp_jobs s)\<rparr>
         else s\<lparr>dp_world := w\<lparr>w_dirs := ref # w_dirs w\<rparr>,
                dp_jobs := AList.update j (b\<lparr>j_phase := Staging, j_placed := True\<rparr>) (dp_jobs s)\<rparr>)"

text \<open>Both failure paths: remove the directory this job placed, then release the hold.\<close>

definition abort_job :: "nat \<Rightarrow> job \<Rightarrow> deploy_state \<Rightarrow> deploy_state" where
  "abort_job j b s =
     (let ref = refOf (j_row b);
          w = (if j_placed b then rm_dir ref (dp_world s) else dp_world s)
      in s\<lparr>dp_world := releaseArtifact ref w, dp_jobs := AList.delete j (dp_jobs s)\<rparr>)"

definition record_job :: "nat \<Rightarrow> job \<Rightarrow> deploy_state \<Rightarrow> deploy_state" where
  "record_job j b s =
     (case recordDeployment (j_row b) (j_resources b) (w_db (dp_world s)) of
        Inl _ \<Rightarrow> abort_job j b s
      | Inr r \<Rightarrow> s\<lparr>dp_world := releaseArtifact (refOf (j_row b)) ((dp_world s)\<lparr>w_db := fst r\<rparr>),
                   dp_jobs := AList.delete j (dp_jobs s)\<rparr>)"

text \<open>Versions are recorded by jobs and artifact rows dropped by collections only.\<close>

definition job_op :: "db_op \<Rightarrow> bool" where
  "job_op a = (case a of RecordDeployment _ _ \<Rightarrow> True | DropArtifactRow _ _ \<Rightarrow> True | _ \<Rightarrow> False)"

fun deploy_step :: "deploy_state \<Rightarrow> deploy_act \<Rightarrow> deploy_state" where
  "deploy_step s (Hold j d rs) = hold_job j d rs s"
| "deploy_step s (Place j) =
     (case map_of (dp_jobs s) j of
        Some b \<Rightarrow> if j_phase b = Held then place_job j b s else s
      | None \<Rightarrow> s)"
| "deploy_step s (StageFail j) =
     (case map_of (dp_jobs s) j of
        Some b \<Rightarrow> if j_phase b = Staging then abort_job j b s else s
      | None \<Rightarrow> s)"
| "deploy_step s (StageOk j) =
     (case map_of (dp_jobs s) j of
        Some b \<Rightarrow> if j_phase b = Staging
                   then s\<lparr>dp_jobs := AList.update j (b\<lparr>j_phase := Staged\<rparr>) (dp_jobs s)\<rparr> else s
      | None \<Rightarrow> s)"
| "deploy_step s (Record j) =
     (case map_of (dp_jobs s) j of
        Some b \<Rightarrow> if j_phase b = Staged then record_job j b s else s
      | None \<Rightarrow> s)"
| "deploy_step s (Collect refs stuck) =
     s\<lparr>dp_world := fst (collectArtifacts (\<lambda>r. r \<notin> set stuck) refs (dp_world s))\<rparr>"
| "deploy_step s (Mutate a) =
     (if job_op a then s
      else s\<lparr>dp_world := (dp_world s)\<lparr>w_db := db_step id (w_db (dp_world s)) a\<rparr>\<rparr>)"

text \<open>No deploy starts while another one is at work on the same artifact.\<close>

definition exclusive_step :: "deploy_state \<Rightarrow> deploy_act \<Rightarrow> bool" where
  "exclusive_step s a =
     (case a of Hold _ d _ \<Rightarrow> refOf d \<notin> (\<lambda>x. refOf (j_row (snd x))) ` set (dp_jobs s) | _ \<Rightarrow> True)"

fun exclusive_run :: "deploy_state \<Rightarrow> deploy_act list \<Rightarrow> bool" where
  "exclusive_run s [] = True"
| "exclusive_run s (a # as) = (exclusive_step s a \<and> exclusive_run (deploy_step s a) as)"

section \<open>The invariant\<close>

definition job_ref :: "nat \<times> job \<Rightarrow> artifact_ref" where
  "job_ref x = refOf (j_row (snd x))"

definition job_ok :: "world \<Rightarrow> nat \<times> job \<Rightarrow> bool" where
  "job_ok w x \<longleftrightarrow>
     job_ref x \<in> set (w_inflight w) \<and>
     (j_phase (snd x) \<noteq> Held \<longrightarrow> job_ref x \<in> set (w_dirs w)) \<and>
     (j_placed (snd x) \<longrightarrow> j_phase (snd x) \<noteq> Held \<and> job_ref x \<notin> refOf ` set (deployments (w_db w)))"

definition deploy_ok :: "deploy_state \<Rightarrow> bool" where
  "deploy_ok s \<longleftrightarrow>
     db_ok (w_db (dp_world s)) \<and> artifacts_present (dp_world s) \<and>
     distinct (map fst (dp_jobs s)) \<and> distinct (map job_ref (dp_jobs s)) \<and>
     (\<forall>x \<in> set (dp_jobs s). job_ok (dp_world s) x)"

lemma deploy_start_ok: "deploy_ok deploy_start"
  using empty_db_ok by (simp add: deploy_ok_def deploy_start_def artifacts_present_def empty_db_def)

lemma job_split:
  assumes "deploy_ok s" "map_of (dp_jobs s) j = Some b"
  obtains xs ys where "dp_jobs s = xs @ (j, b) # ys" "j \<notin> fst ` set (xs @ ys)"
    "refOf (j_row b) \<notin> job_ref ` set (xs @ ys)"
    "\<And>b'. AList.update j b' (dp_jobs s) = xs @ (j, b') # ys" "AList.delete j (dp_jobs s) = xs @ ys"
proof -
  have mem: "(j, b) \<in> set (dp_jobs s)"
    using assms(2) by (rule map_of_SomeD)
  then obtain xs ys where js: "dp_jobs s = xs @ (j, b) # ys"
    by (meson split_list)
  have k: "j \<notin> fst ` set xs" "j \<notin> fst ` set ys"
    using assms(1) unfolding deploy_ok_def js by auto
  have "refOf (j_row b) \<notin> job_ref ` set (xs @ ys)"
    using assms(1) unfolding deploy_ok_def js by (auto simp: job_ref_def)
  moreover have "AList.update j b' (xs @ (j, b) # ys) = xs @ (j, b') # ys" for b'
    using k(1) by (induction xs) auto
  moreover have "filter (\<lambda>(k', _). j \<noteq> k') zs = zs" if "j \<notin> fst ` set zs" for zs :: "(nat \<times> job) list"
    using that by (force simp: filter_id_conv)
  then have "AList.delete j (xs @ (j, b) # ys) = xs @ ys"
    using k by (simp add: AList.delete_eq)
  ultimately show thesis
    using k by (intro that [OF js]) (auto simp: js)
qed

lemma other_jobs_ok:
  assumes "deploy_ok s" "dp_jobs s = xs @ (j, b) # ys" "refOf (j_row b) \<notin> job_ref ` set (xs @ ys)"
    and "x \<in> set (xs @ ys)"
  shows "job_ok (dp_world s) x \<and> job_ref x \<noteq> refOf (j_row b)"
proof
  show "job_ok (dp_world s) x"
    using assms(1,4) unfolding deploy_ok_def assms(2) by auto
  show "job_ref x \<noteq> refOf (j_row b)"
    using assms(3,4) by (metis image_eqI)
qed

lemma hold_ok:
  assumes "deploy_ok s" "exclusive_step s (Hold j d rs)"
  shows "deploy_ok (hold_job j d rs s)"
  using assms
  by (auto simp: deploy_ok_def hold_job_def exclusive_step_def holdArtifact_def job_ok_def job_ref_def
      artifacts_present_def)

lemma update_phase_ok:
  assumes "deploy_ok s" "map_of (dp_jobs s) j = Some b" "j_row b' = j_row b" "job_ok w (j, b')"
    and "db_ok (w_db w)" "artifacts_present w"
    and "\<And>x. job_ok (dp_world s) x \<Longrightarrow> job_ref x \<noteq> refOf (j_row b) \<Longrightarrow> job_ok w x"
  shows "deploy_ok (s\<lparr>dp_world := w, dp_jobs := AList.update j b' (dp_jobs s)\<rparr>)"
proof -
  obtain xs ys where js: "dp_jobs s = xs @ (j, b) # ys" and
    r: "refOf (j_row b) \<notin> job_ref ` set (xs @ ys)"
    and u: "AList.update j b' (dp_jobs s) = xs @ (j, b') # ys"
    using job_split [OF assms(1,2)] by metis
  have "\<forall>x \<in> set (xs @ ys). job_ok w x"
    using other_jobs_ok [OF assms(1) js r] assms(7) by blast
  moreover have "map job_ref (xs @ (j, b') # ys) = map job_ref (dp_jobs s)"
    "map fst (xs @ (j, b') # ys) = map fst (dp_jobs s)"
    using assms(3) by (simp_all add: js job_ref_def)
  ultimately show ?thesis
    using assms unfolding deploy_ok_def by (simp add: u)
qed

lemma drop_job_ok:
  assumes "deploy_ok s" "map_of (dp_jobs s) j = Some b"
    and "db_ok (w_db w)" "artifacts_present w"
    and "\<And>x. job_ok (dp_world s) x \<Longrightarrow> job_ref x \<noteq> refOf (j_row b) \<Longrightarrow> job_ok w x"
  shows "deploy_ok (s\<lparr>dp_world := w, dp_jobs := AList.delete j (dp_jobs s)\<rparr>)"
proof -
  obtain xs ys where js: "dp_jobs s = xs @ (j, b) # ys" and
    r: "refOf (j_row b) \<notin> job_ref ` set (xs @ ys)"
    and u: "AList.delete j (dp_jobs s) = xs @ ys"
    using job_split [OF assms(1,2)] by metis
  have "\<forall>x \<in> set (xs @ ys). job_ok w x"
    using other_jobs_ok [OF assms(1) js r] assms(5) by blast
  then show ?thesis
    using assms unfolding deploy_ok_def u by (auto simp: js)
qed

lemma place_ok:
  assumes "deploy_ok s" "map_of (dp_jobs s) j = Some b" "j_phase b = Held"
  shows "deploy_ok (place_job j b s)"
proof -
  let ?ref = "refOf (j_row b)" and ?w = "dp_world s"
  have b: "job_ok ?w (j, b)" "db_ok (w_db ?w)" "artifacts_present ?w"
    using assms(1) map_of_SomeD [OF assms(2)] by (auto simp: deploy_ok_def)
  show ?thesis
  proof (cases "?ref \<in> set (w_dirs ?w)")
    case True
    then have "job_ok ?w (j, b\<lparr>j_phase := Staging\<rparr>)"
      using b(1) assms(3) by (auto simp: job_ok_def job_ref_def)
    then have "deploy_ok (s\<lparr>dp_world := ?w, dp_jobs := AList.update j (b\<lparr>j_phase := Staging\<rparr>) (dp_jobs s)\<rparr>)"
      using b by (intro update_phase_ok [OF assms(1,2)]) auto
    then show ?thesis
      using True by (simp add: place_job_def Let_def)
  next
    case False
    let ?w' = "?w\<lparr>w_dirs := ?ref # w_dirs ?w\<rparr>"
    have "job_ok ?w' (j, b\<lparr>j_phase := Staging, j_placed := True\<rparr>)"
      using b False by (auto simp: job_ok_def job_ref_def artifacts_present_def)
    then have "deploy_ok (s\<lparr>dp_world := ?w', dp_jobs := AList.update j (b\<lparr>j_phase := Staging, j_placed := True\<rparr>) (dp_jobs s)\<rparr>)"
      using b by (intro update_phase_ok [OF assms(1,2)]) (auto simp: job_ok_def artifacts_present_def)
    then show ?thesis
      using False by (simp add: place_job_def Let_def)
  qed
qed

lemma stage_ok_ok:
  assumes "deploy_ok s" "map_of (dp_jobs s) j = Some b" "j_phase b = Staging"
  shows "deploy_ok (s\<lparr>dp_jobs := AList.update j (b\<lparr>j_phase := Staged\<rparr>) (dp_jobs s)\<rparr>)"
proof -
  have "job_ok (dp_world s) (j, b\<lparr>j_phase := Staged\<rparr>)"
    using assms(1,3) map_of_SomeD [OF assms(2)] by (force simp: deploy_ok_def job_ok_def job_ref_def)
  then have "deploy_ok (s\<lparr>dp_world := dp_world s, dp_jobs := AList.update j (b\<lparr>j_phase := Staged\<rparr>) (dp_jobs s)\<rparr>)"
    using assms(1) by (intro update_phase_ok [OF assms(1,2)]) (auto simp: deploy_ok_def)
  then show ?thesis
    by simp
qed

lemma abort_ok:
  assumes "deploy_ok s" "map_of (dp_jobs s) j = Some b"
  shows "deploy_ok (abort_job j b s)"
proof -
  let ?ref = "refOf (j_row b)"
  let ?w = "releaseArtifact ?ref (if j_placed b then rm_dir ?ref (dp_world s) else dp_world s)"
  have b: "job_ok (dp_world s) (j, b)" "db_ok (w_db (dp_world s))" "artifacts_present (dp_world s)"
    using assms(1) map_of_SomeD [OF assms(2)] by (auto simp: deploy_ok_def)
  have db: "w_db ?w = w_db (dp_world s)"
    by (simp add: releaseArtifact_def rm_dir_def)
  have "artifacts_present ?w"
    using b by (auto simp: artifacts_present_def releaseArtifact_def rm_dir_def job_ok_def job_ref_def)
  moreover have "job_ok ?w x" if "job_ok (dp_world s) x" "job_ref x \<noteq> ?ref" for x
    using that by (auto simp: job_ok_def releaseArtifact_def rm_dir_def)
  ultimately have "deploy_ok (s\<lparr>dp_world := ?w, dp_jobs := AList.delete j (dp_jobs s)\<rparr>)"
    using b(2) by (intro drop_job_ok [OF assms]) (simp_all add: db)
  then show ?thesis
    by (simp add: abort_job_def Let_def)
qed

lemma recordDeployment_refs:
  assumes "recordDeployment d rs db = Inr r"
  shows "refOf ` set (deployments (fst r)) = insert (refOf d) (refOf ` set (deployments db))"
proof -
  have "deployments (fst r) = deactivate (d_owner d) (d_project d) (deployments db) @ [d\<lparr>d_active := True\<rparr>]"
    using assms by (auto simp: recordDeployment_def Let_def split: if_splits)
  then show ?thesis
    by simp
qed

lemma record_ok:
  assumes "deploy_ok s" "map_of (dp_jobs s) j = Some b" "j_phase b = Staged"
  shows "deploy_ok (record_job j b s)"
proof (cases "recordDeployment (j_row b) (j_resources b) (w_db (dp_world s))")
  case (Inl e)
  then show ?thesis
    using abort_ok [OF assms(1,2)] by (simp add: record_job_def)
next
  case (Inr r)
  let ?ref = "refOf (j_row b)"
  let ?w = "releaseArtifact ?ref ((dp_world s)\<lparr>w_db := fst r\<rparr>)"
  have b: "job_ok (dp_world s) (j, b)" "db_ok (w_db (dp_world s))" "artifacts_present (dp_world s)"
    using assms(1) map_of_SomeD [OF assms(2)] by (auto simp: deploy_ok_def)
  have "db_ok (fst r)"
    using recordDeployment_ok [OF b(2), of "j_row b" "j_resources b" "fst r" "snd r"] Inr by simp
  moreover have "artifacts_present ?w"
    using b assms(3) by (auto simp: artifacts_present_def releaseArtifact_def recordDeployment_refs [OF Inr]
        job_ok_def job_ref_def simp del: set_map)
  moreover have "job_ok ?w x" if "job_ok (dp_world s) x" "job_ref x \<noteq> ?ref" for x
    using that by (auto simp: job_ok_def releaseArtifact_def recordDeployment_refs [OF Inr])
  ultimately have "deploy_ok (s\<lparr>dp_world := ?w, dp_jobs := AList.delete j (dp_jobs s)\<rparr>)"
    by (intro drop_job_ok [OF assms(1,2)]) (simp_all add: releaseArtifact_def)
  then show ?thesis
    by (simp add: record_job_def Inr)
qed

lemma collect_step_ok:
  assumes "deploy_ok s"
  shows "deploy_ok (s\<lparr>dp_world := fst (collectArtifacts rm_ok refs (dp_world s))\<rparr>)"
proof -
  obtain w' rm fl where eq: "collectArtifacts rm_ok refs (dp_world s) = (w', rm, fl)"
    by (metis prod_cases3)
  note c = fold_collect [OF eq [unfolded collectArtifacts_def]]
  have "job_ok w' x" if "job_ok (dp_world s) x" for x
    using that c by (auto simp: job_ok_def)
  then show ?thesis
    using assms c by (auto simp: deploy_ok_def eq artifacts_present_def)
qed

lemma mutation_refs:
  assumes "\<not> job_op a" and "refs_ok db"
  shows "refOf ` set (deployments (db_step enc db a)) \<subseteq> refOf ` set (deployments db)"
proof (cases a)
  case (ActivateDeployment o1 p i)
  have "deployments (fst (activateDeployment o1 p i db)) \<in>
      {deployments db, set_active i (deactivate o1 p (deployments db))}"
    by (auto simp: activateDeployment_def set_active_def split: option.splits)
  then have "refOf ` set (deployments (fst (activateDeployment o1 p i db))) = refOf ` set (deployments db)"
    by (metis insertE set_active_key_sets(3) deactivate_key_sets(3) singletonD)
  then show ?thesis
    using ActivateDeployment by simp
qed (use assms in \<open>auto simp: job_op_def deleteProject_def deleteOwner_def deleteDeployment_def prune_eq
      banOwner_def unbanOwner_def markCustomDomainVerified_def deleteCustomDomain_def deleteSecret_def
      deleteResource_def commit_def claimCustomDomain_def dropStaleClaims_def setSecret_def createResource_def
      renameResource_def Let_def frame_simps split: option.splits sum.splits if_splits\<close>)

lemma mutate_ok:
  assumes "deploy_ok s" "\<not> job_op a"
  shows "deploy_ok (s\<lparr>dp_world := (dp_world s)\<lparr>w_db := db_step id (w_db (dp_world s)) a\<rparr>\<rparr>)"
proof -
  have ok: "db_ok (w_db (dp_world s))"
    using assms(1) by (simp add: deploy_ok_def)
  then have sub: "refOf ` set (deployments (db_step id (w_db (dp_world s)) a)) \<subseteq> refOf ` set (deployments (w_db (dp_world s)))"
    by (intro mutation_refs [OF assms(2)]) (simp add: db_ok_def)
  have "job_ok ((dp_world s)\<lparr>w_db := db_step id (w_db (dp_world s)) a\<rparr>) x" if "job_ok (dp_world s) x" for x
    using that sub by (auto simp: job_ok_def)
  moreover have "refOf ` set (deployments (db_step id (w_db (dp_world s)) a)) \<subseteq> set (w_dirs (dp_world s))"
    by (rule subset_trans [OF sub]) (use assms(1) in \<open>simp add: deploy_ok_def artifacts_present_def\<close>)
  ultimately show ?thesis
    using assms(1) db_step_ok [OF ok] by (simp add: deploy_ok_def artifacts_present_def)
qed

lemma deploy_step_ok:
  "deploy_ok s \<Longrightarrow> exclusive_step s a \<Longrightarrow> deploy_ok (deploy_step s a)"
  by (cases a) (auto simp: hold_ok place_ok stage_ok_ok abort_ok record_ok collect_step_ok mutate_ok split: option.splits)

text \<open>The machine that refuses to start a deploy of an artifact another one is at work on.\<close>

definition exclusive_deploy_step :: "deploy_state \<Rightarrow> deploy_act \<Rightarrow> deploy_state" where
  "exclusive_deploy_step s a = (if exclusive_step s a then deploy_step s a else s)"

interpretation deploys: machine deploy_start exclusive_deploy_step deploy_ok
  by unfold_locales (simp_all add: deploy_start_ok exclusive_deploy_step_def deploy_step_ok)

lemma exclusive_run_eq:
  "exclusive_run s as \<Longrightarrow> foldl deploy_step s as = foldl exclusive_deploy_step s as"
  by (induction as arbitrary: s) (simp_all add: exclusive_deploy_step_def)

text \<open>
  C17: whatever way deploys, candidate failures, collections, deletions and rollbacks interleave,
  the directory of every recorded version exists and the store is well-formed, as long as no
  deploy starts while another one of the same account is at work on the same artifact.
\<close>

theorem deploys_keep_artifacts:
  assumes "exclusive_run deploy_start as"
  shows "artifacts_present (dp_world (foldl deploy_step deploy_start as)) \<and>
    db_ok (w_db (dp_world (foldl deploy_step deploy_start as)))"
  using deploys.run_inv [of as] exclusive_run_eq [OF assms]
  by (simp add: deploys.run_def deploy_ok_def)

definition deploy_a :: deployment where
  "deploy_a = sample_deployment ''1'' ''ann'' ''web'' ''aa'' 10 False"

definition deploy_b :: deployment where
  "deploy_b = sample_deployment ''2'' ''ann'' ''web'' ''aa'' 20 False"

lemmas deploy_eval = deploy_start_def hold_job_def place_job_def abort_job_def record_job_def
  holdArtifact_def releaseArtifact_def rm_dir_def recordDeployment_def Let_def deploy_a_def deploy_b_def
  sample_deployment_def refOf_def empty_db_def deactivate_def artifacts_present_def

theorem deploys_keep_artifacts_witness:
  "artifacts_present (dp_world (foldl deploy_step deploy_start
     [Hold 1 deploy_a [], Place 1, StageFail 1, Hold 2 deploy_b [], Place 2, StageOk 2, Record 2]))"
  using deploys_keep_artifacts
    [of "[Hold 1 deploy_a [], Place 1, StageFail 1, Hold 2 deploy_b [], Place 2, StageOk 2, Record 2]"]
  by (simp add: exclusive_step_def deploy_eval)


end
