(* ===== verification/Abuse_Limits.thy ===== *)
theory Abuse_Limits
  imports Store_Props
begin

text \<open>
  Abuse limits of the control service (\<open>src/apps/control/src/limits.ts\<close>): the fixed-window rate
  limiter, the caller's address behind trusted proxies, the deploy and project guards and the
  ceiling on new certificates. The environment is an argument: \<open>env name\<close> is the text of a
  variable. A \<open>Map\<close> is an association list in insertion order; the clock is an argument.
\<close>

section \<open>Caps\<close>

type_synonym env = "string \<Rightarrow> string option"

text \<open>An unset variable is \<open>Number(undefined)\<close>, which is \<open>NaN\<close>.\<close>

definition num :: "env \<Rightarrow> string \<Rightarrow> rat \<Rightarrow> rat" where
  "num env name fallback =
     (case env name of
        None \<Rightarrow> fallback
      | Some s \<Rightarrow> (case js_number s of Some v \<Rightarrow> if v > 0 then v else fallback | None \<Rightarrow> fallback))"

definition deployPerAccount :: "env \<Rightarrow> rat" where
  "deployPerAccount env = num env ''SPROUTBOAT_DEPLOY_RATE_PER_MIN'' 10"

definition deployPerIp :: "env \<Rightarrow> rat" where
  "deployPerIp env = num env ''SPROUTBOAT_DEPLOY_RATE_PER_IP_PER_MIN'' 20"

definition projectsPerAccount :: "env \<Rightarrow> rat" where
  "projectsPerAccount env = num env ''SPROUTBOAT_MAX_PROJECTS_PER_ACCOUNT'' 50"

definition versionsPerProject :: "env \<Rightarrow> rat" where
  "versionsPerProject env = num env ''SPROUTBOAT_MAX_VERSIONS_PER_PROJECT'' 25"

definition domainsPerProject :: "env \<Rightarrow> rat" where
  "domainsPerProject env = num env ''SPROUTBOAT_MAX_DOMAINS_PER_PROJECT'' 5"

definition secretsPerProject :: "env \<Rightarrow> rat" where
  "secretsPerProject env = num env ''SPROUTBOAT_MAX_SECRETS_PER_PROJECT'' 64"

definition resourcesPerAccount :: "env \<Rightarrow> rat" where
  "resourcesPerAccount env = num env ''SPROUTBOAT_MAX_RESOURCES_PER_ACCOUNT'' 100"

definition webhooksPerAccount :: "env \<Rightarrow> rat" where
  "webhooksPerAccount env = num env ''SPROUTBOAT_MAX_WEBHOOKS_PER_ACCOUNT'' 10"

definition eventsKeepDays :: "env \<Rightarrow> rat" where
  "eventsKeepDays env = num env ''SPROUTBOAT_EVENTS_KEEP_DAYS'' 365"

definition eventsMaxRows :: "env \<Rightarrow> rat" where
  "eventsMaxRows env = num env ''SPROUTBOAT_EVENTS_MAX_ROWS'' 50000"

section \<open>The rate limiter\<close>

definition WINDOW_MS :: int where
  "WINDOW_MS = 60000"

record bucket =
  b_count :: int
  b_resetAt :: ms

type_synonym buckets = "(string \<times> bucket) list"

definition sweep :: "ms \<Rightarrow> buckets \<Rightarrow> buckets" where
  "sweep now bs = (if length bs < 4096 then bs else filter (\<lambda>x. \<not> b_resetAt (snd x) \<le> now) bs)"

text \<open>\<open>Math.max(1, Math.ceil(ms / 1000))\<close>\<close>

definition wait_seconds :: "int \<Rightarrow> int" where
  "wait_seconds left = max 1 (- ((- left) div 1000))"

definition hit_bucket :: "string \<Rightarrow> rat \<Rightarrow> ms \<Rightarrow> buckets \<Rightarrow> buckets \<times> int" where
  "hit_bucket key limit now bs =
     (case map_of bs key of
        None \<Rightarrow> (AList.update key \<lparr>b_count = 1, b_resetAt = now + WINDOW_MS\<rparr> bs, 0)
      | Some b \<Rightarrow>
          if b_resetAt b \<le> now then (AList.update key \<lparr>b_count = 1, b_resetAt = now + WINDOW_MS\<rparr> bs, 0)
          else if of_int (b_count b) < limit
          then (AList.update key (b\<lparr>b_count := b_count b + 1\<rparr>) bs, 0)
          else (bs, wait_seconds (b_resetAt b - now)))"

definition rateHit :: "string \<Rightarrow> rat \<Rightarrow> ms \<Rightarrow> buckets \<Rightarrow> buckets \<times> int" where
  "rateHit key limit now bs = hit_bucket key limit now (sweep now bs)"

section \<open>The caller's address\<close>

definition normalizeAddress :: "string \<Rightarrow> string" where
  "normalizeAddress address =
     (let l = to_lower (js_trim address)
      in if starts_with l ''::ffff:'' \<and> CHR ''.'' \<in> set l then drop 7 l else l)"

fun ipv4_parts :: "string list \<Rightarrow> nat \<Rightarrow> nat option" where
  "ipv4_parts [] value = Some value"
| "ipv4_parts (part # parts) value =
     (if \<not> (all_digits part \<and> length part \<le> 3) \<or> dec_val part > 255 then None
      else ipv4_parts parts (value * 256 + dec_val part))"

definition ipv4ToInt :: "string \<Rightarrow> nat option" where
  "ipv4ToInt address =
     (let parts = split_on CHR ''.'' address in if length parts \<noteq> 4 then None else ipv4_parts parts 0)"

definition matchesProxy :: "string \<Rightarrow> string \<Rightarrow> bool" where
  "matchesProxy peer entry =
     (case split_on CHR ''/'' entry of
        [] \<Rightarrow> False
      | [base] \<Rightarrow> normalizeAddress peer = normalizeAddress base
      | base # bits # _ \<Rightarrow>
          (case (ipv4ToInt (normalizeAddress peer), ipv4ToInt (normalizeAddress base), js_number bits) of
             (Some a, Some b, Some prefix) \<Rightarrow>
               if of_int (floor prefix) \<noteq> prefix \<or> prefix < 0 \<or> prefix > 32 then False
               else if prefix = 0 then True
               else let shift = nat (32 - floor prefix) in a div 2 ^ shift = b div 2 ^ shift
           | _ \<Rightarrow> False))"

definition trustedProxy :: "string \<Rightarrow> string \<Rightarrow> bool" where
  "trustedProxy trusted peer =
     (let normal = normalizeAddress peer
      in normal = ''::1'' \<or> starts_with normal ''127.'' \<or>
         list_ex (matchesProxy peer) (filter (\<lambda>e. e \<noteq> []) (map js_trim (split_on CHR '','' trusted))))"

text \<open>\<open>headers\<close> is \<open>request.headers.get\<close>; the empty string is falsy throughout.\<close>

definition clientIp :: "string \<Rightarrow> string option \<Rightarrow> (string \<Rightarrow> string option) \<Rightarrow> string" where
  "clientIp trusted peer headers =
     (case peer of
        None \<Rightarrow> ''unknown''
      | Some p \<Rightarrow>
          if p = [] then ''unknown''
          else if \<not> trustedProxy trusted p then normalizeAddress p
          else
            let hop = (case headers ''x-forwarded-for'' of
                         None \<Rightarrow> []
                       | Some f \<Rightarrow> if f = [] then [] else js_trim (last (split_on CHR '','' f)));
                real = (case headers ''x-real-ip'' of None \<Rightarrow> [] | Some r \<Rightarrow> js_trim r)
            in if hop \<noteq> [] then hop else if real \<noteq> [] then real else normalizeAddress p)"

section \<open>Guards\<close>

datatype LimitEvent = DeployRateAccount | DeployRateIp | ProjectCap | TlsIssuance

datatype guard_result =
    Proceed
  | TooMany int string LimitEvent

definition guardDeploy :: "env \<Rightarrow> owner \<Rightarrow> string \<Rightarrow> ms \<Rightarrow> buckets \<Rightarrow> buckets \<times> guard_result" where
  "guardDeploy env actorId ip now bs =
     (let (bs1, byIp) = rateHit (''deploy:ip:'' @ ip) (deployPerIp env) now bs
      in if byIp > 0
         then (bs1, TooMany byIp ''too many deploys from this network; slow down'' DeployRateIp)
         else let (bs2, byAccount) = rateHit (''deploy:acct:'' @ actorId) (deployPerAccount env) now bs1
              in if byAccount > 0
                 then (bs2, TooMany byAccount ''too many deploys; slow down'' DeployRateAccount)
                 else (bs2, Proceed))"

text \<open>The message of the code also prints the cap.\<close>

definition guardNewProject :: "env \<Rightarrow> nat \<Rightarrow> guard_result" where
  "guardNewProject env count =
     (if of_nat count < projectsPerAccount env then Proceed
      else TooMany 0 ''project limit reached; delete a project first'' ProjectCap)"

section \<open>The certificate ceiling\<close>

definition HOUR_MS :: int where
  "HOUR_MS = 3600000"

record tls_state =
  tlsSeen :: "(string \<times> ms) list"
  tlsApprovals :: "ms list"

text \<open>A hostname approved within the last day is a renewal or a repeat.\<close>

definition tls_repeat :: "string \<Rightarrow> ms \<Rightarrow> tls_state \<Rightarrow> bool" where
  "tls_repeat hostname now s =
     (case map_of (tlsSeen s) hostname of None \<Rightarrow> False | Some seen_at \<Rightarrow> now - seen_at < 24 * HOUR_MS)"

definition tlsIssuanceAllowed :: "env \<Rightarrow> string \<Rightarrow> ms \<Rightarrow> tls_state \<Rightarrow> tls_state \<times> bool" where
  "tlsIssuanceAllowed env hostname now s =
     (if tls_repeat hostname now s then (s\<lparr>tlsSeen := AList.update hostname now (tlsSeen s)\<rparr>, True)
      else let recent = filter (\<lambda>ms. now - ms < HOUR_MS) (tlsApprovals s);
               cap = num env ''SPROUTBOAT_TLS_NEW_CERTS_PER_HOUR'' 20
           in if cap \<le> of_nat (length recent) then (s\<lparr>tlsApprovals := recent\<rparr>, False)
              else
                let seen = AList.update hostname now (tlsSeen s);
                    seen' = (if length seen > 8192
                             then filter (\<lambda>x. \<not> (now - snd x > 48 * HOUR_MS)) seen else seen)
                in (\<lparr>tlsSeen = seen', tlsApprovals = recent @ [now]\<rparr>, True))"

section \<open>The sweep does not show\<close>

text \<open>The limiter without the sweep, and the answers to a sequence of hits.\<close>

fun run_hits :: "(string \<Rightarrow> rat \<Rightarrow> ms \<Rightarrow> buckets \<Rightarrow> buckets \<times> int) \<Rightarrow> (string \<times> rat \<times> ms) list \<Rightarrow> buckets \<Rightarrow> int list" where
  "run_hits f [] bs = []"
| "run_hits f ((k, l, t) # hs) bs = (let r = f k l t bs in snd r # run_hits f hs (fst r))"

definition live :: "ms \<Rightarrow> bucket option \<Rightarrow> bucket option" where
  "live now b = (case b of None \<Rightarrow> None | Some x \<Rightarrow> if b_resetAt x \<le> now then None else Some x)"

definition same_live :: "ms \<Rightarrow> buckets \<Rightarrow> buckets \<Rightarrow> bool" where
  "same_live now as bs \<longleftrightarrow> (\<forall>k. live now (map_of as k) = live now (map_of bs k))"

lemma live_later: "t \<le> t' \<Longrightarrow> live t a = live t b \<Longrightarrow> live t' a = live t' b"
  by (auto simp: live_def split: option.splits if_splits)

lemma hit_bucket_live:
  "hit_bucket key limit now bs =
     (case live now (map_of bs key) of
        None \<Rightarrow> (AList.update key \<lparr>b_count = 1, b_resetAt = now + WINDOW_MS\<rparr> bs, 0)
      | Some b \<Rightarrow> if of_int (b_count b) < limit
          then (AList.update key (b\<lparr>b_count := b_count b + 1\<rparr>) bs, 0)
          else (bs, wait_seconds (b_resetAt b - now)))"
  by (simp add: hit_bucket_def live_def split: option.splits)

lemma hit_same_live:
  assumes "same_live now as bs"
  shows "snd (hit_bucket k l now as) = snd (hit_bucket k l now bs)"
    "same_live now (fst (hit_bucket k l now as)) (fst (hit_bucket k l now bs))"
proof -
  have k: "live now (map_of as k) = live now (map_of bs k)"
    using assms by (simp add: same_live_def)
  then show "snd (hit_bucket k l now as) = snd (hit_bucket k l now bs)"
    by (simp add: hit_bucket_live split: option.splits)
  show "same_live now (fst (hit_bucket k l now as)) (fst (hit_bucket k l now bs))"
    using assms k by (auto simp: hit_bucket_live same_live_def update_conv' split: option.splits)
qed

lemma map_of_filter_value:
  "distinct (map fst m) \<Longrightarrow> map_of (filter (\<lambda>x. P (snd x)) m) k =
     (case map_of m k of None \<Rightarrow> None | Some v \<Rightarrow> if P v then Some v else None)"
  by (induction m) (auto simp: map_of_eq_None_iff split: option.splits intro!: map_of_eq_None_iff [THEN iffD2])

lemma sweep_same_live: "distinct (map fst bs) \<Longrightarrow> same_live now (sweep now bs) bs"
  using map_of_filter_value [of bs "\<lambda>b. \<not> b_resetAt b \<le> now"]
  by (auto simp: same_live_def sweep_def live_def split: option.split)

lemma sweep_distinct [simp]: "distinct (map fst bs) \<Longrightarrow> distinct (map fst (sweep now bs))"
  by (auto simp: sweep_def)

lemma hit_distinct [simp]: "distinct (map fst bs) \<Longrightarrow> distinct (map fst (fst (hit_bucket k l now bs)))"
  by (auto simp: hit_bucket_def distinct_update split: option.splits)

lemma same_live_trans: "same_live t as bs \<Longrightarrow> same_live t bs cs \<Longrightarrow> same_live t as cs"
  by (simp add: same_live_def)

lemma run_hits_same:
  assumes "same_live t as bs" "distinct (map fst as)" "sorted (map (snd \<circ> snd) hs)" "\<forall>h \<in> set hs. t \<le> snd (snd h)"
  shows "run_hits rateHit hs as = run_hits hit_bucket hs bs"
  using assms
proof (induction hs arbitrary: t as bs)
  case (Cons h hs)
  obtain k l now where h: "h = (k, l, now)"
    by (metis prod_cases3)
  have "t \<le> now"
    using Cons.prems(4) by (simp add: h)
  then have "same_live now as bs"
    using Cons.prems(1) live_later unfolding same_live_def by blast
  then have same: "same_live now (sweep now as) bs"
    using same_live_trans sweep_same_live Cons.prems(2) by blast
  have "run_hits rateHit hs (fst (rateHit k l now as)) = run_hits hit_bucket hs (fst (hit_bucket k l now bs))"
    using hit_same_live(2) [OF same] Cons.prems by (intro Cons.IH) (auto simp: rateHit_def h)
  moreover have "snd (rateHit k l now as) = snd (hit_bucket k l now bs)"
    using hit_same_live(1) [OF same] by (simp add: rateHit_def)
  ultimately show ?case
    by (simp add: h Let_def)
qed simp

text \<open>
  C19: the sweep that bounds the limiter's memory is invisible: over any sequence of hits in time
  order, on any keys and limits, every answer is the one the limiter would give if it never swept.
\<close>

theorem sweep_is_transparent:
  assumes "sorted (map (snd \<circ> snd) hs)"
  shows "run_hits rateHit hs [] = run_hits hit_bucket hs []"
proof (cases hs)
  case (Cons h hs')
  then show ?thesis
    using assms by (intro run_hits_same [of "snd (snd h)"]) (auto simp: same_live_def)
qed simp

theorem sweep_is_transparent_witness:
  "run_hits rateHit [(''a'', 1, 0), (''a'', 1, 5), (''a'', 1, 60000)] [] = [0, 60, 0]"
  using sweep_is_transparent [of "[(''a'', 1, 0), (''a'', 1, 5), (''a'', 1, 60000)]"]
  by (simp add: hit_bucket_def WINDOW_MS_def wait_seconds_def)

section \<open>How many hits pass\<close>

lemma run_hits_append:
  "run_hits f (xs @ ys) bs = run_hits f xs bs @ run_hits f ys (fold (\<lambda>(k, l, t) b. fst (f k l t b)) xs bs)"
  by (induction f xs bs rule: run_hits.induct) (simp_all add: Let_def)

text \<open>In a window that is open for a key, hits on that key pass until the count reaches the limit.\<close>

lemma open_window_hits:
  assumes "map_of bs k = Some b" and "\<forall>t \<in> set ts. t < b_resetAt b"
  shows "map (\<lambda>x. x = 0) (run_hits hit_bucket (map (\<lambda>t. (k, l, t)) ts) bs) =
    map (\<lambda>i. of_int (b_count b) + of_nat i < l) [0..<length ts]"
  using assms
proof (induction ts arbitrary: bs b)
  case (Cons t ts)
  have up: "map (\<lambda>i. P (Suc i)) [0..<n] = map P [Suc 0..<Suc n]" for P :: "nat \<Rightarrow> bool" and n
    by (simp add: map_Suc_upt [symmetric] del: upt_Suc)
  show ?case
  proof (cases "of_int (b_count b) < l")
    case True
    let ?b = "b\<lparr>b_count := b_count b + 1\<rparr>"
    have "hit_bucket k l t bs = (AList.update k ?b bs, 0)"
      using Cons.prems True by (simp add: hit_bucket_def)
    moreover have "map (\<lambda>x. x = 0) (run_hits hit_bucket (map (\<lambda>t. (k, l, t)) ts) (AList.update k ?b bs)) =
        map (\<lambda>i. of_int (b_count ?b) + of_nat i < l) [0..<length ts]"
      using Cons.prems by (intro Cons.IH) (simp_all add: update_conv')
    ultimately show ?thesis
      using True up [of "\<lambda>i. of_int (b_count b) + of_nat i < l" "length ts"]
      by (simp add: upt_conv_Cons add.assoc del: upt_Suc)
  next
    case False
    have "wait_seconds n \<noteq> 0" for n
      by (simp add: wait_seconds_def)
    then have "snd (hit_bucket k l t bs) \<noteq> 0" "fst (hit_bucket k l t bs) = bs"
      using Cons.prems False by (simp_all add: hit_bucket_def)
    then have "map (\<lambda>x. x = 0) (run_hits hit_bucket (map (\<lambda>t. (k, l, t)) (t # ts)) bs) =
        False # map (\<lambda>i. of_int (b_count b) + of_nat i < l) [0..<length ts]"
      using Cons by (simp add: Let_def)
    moreover have "\<not> of_int (b_count b) + of_nat i < l" for i
      using False by (metis add_increasing2 le_less_linear not_less of_nat_0_le_iff order_trans)
    ultimately show ?thesis
      by (simp add: map_replicate_const del: upt_Suc)
  qed
qed simp

lemma wait_seconds_range: "0 < n \<Longrightarrow> n \<le> 60000 \<Longrightarrow> 1 \<le> wait_seconds n \<and> wait_seconds n \<le> 60"
proof -
  assume "0 < n" "n \<le> 60000"
  then have "- 60000 div 1000 \<le> (- n) div 1000" "(- n) div 1000 \<le> - 1 div 1000"
    by (simp_all add: zdiv_mono1)
  then show ?thesis
    by (simp add: wait_seconds_def)
qed

lemma open_window_waits:
  assumes "map_of bs k = Some b" and "\<forall>t \<in> set ts. b_resetAt b - 60000 \<le> t \<and> t < b_resetAt b"
    and "x \<in> set (run_hits hit_bucket (map (\<lambda>t. (k, l, t)) ts) bs)"
  shows "x = 0 \<or> 1 \<le> x \<and> x \<le> 60"
  using assms
proof (induction ts arbitrary: bs b)
  case (Cons t ts)
  let ?r = "hit_bucket k l t bs"
  obtain b' where b': "map_of (fst ?r) k = Some b'" "b_resetAt b' = b_resetAt b"
    using Cons.prems by (cases "of_int (b_count b) < l") (auto simp: hit_bucket_def update_conv')
  have "snd ?r = 0 \<or> 1 \<le> snd ?r \<and> snd ?r \<le> 60"
    using Cons.prems wait_seconds_range [of "b_resetAt b - t"] by (auto simp: hit_bucket_def)
  moreover have "x = snd ?r \<or> x \<in> set (run_hits hit_bucket (map (\<lambda>t. (k, l, t)) ts) (fst ?r))"
    using Cons.prems(3) by (auto simp: Let_def)
  ultimately show ?case
    using Cons.IH [OF b'(1)] Cons.prems(2) b'(2) by auto
qed simp

text \<open>
  C20: the limiter counts exactly. In the minute a key's first hit opens, that hit passes and each
  later one passes just as long as fewer than the limit have passed before; every refusal asks
  for a wait of at least one and at most sixty seconds.
\<close>

theorem window_counts_exactly:
  assumes "sorted (t0 # ts)" and "\<forall>t \<in> set ts. t < t0 + 60000"
  shows "map (\<lambda>x. x = 0) (run_hits rateHit (map (\<lambda>t. (k, l, t)) (t0 # ts)) []) =
      True # map (\<lambda>i. 1 + of_nat i < l) [0..<length ts] \<and>
    (\<forall>x \<in> set (run_hits rateHit (map (\<lambda>t. (k, l, t)) (t0 # ts)) []). x = 0 \<or> 1 \<le> x \<and> x \<le> 60)"
proof -
  let ?bs = "AList.update k \<lparr>b_count = 1, b_resetAt = t0 + 60000\<rparr> []"
  let ?rest = "run_hits hit_bucket (map (\<lambda>t. (k, l, t)) ts) ?bs"
  have "run_hits rateHit (map (\<lambda>t. (k, l, t)) (t0 # ts)) [] = run_hits hit_bucket (map (\<lambda>t. (k, l, t)) (t0 # ts)) []"
    using assms(1) by (intro run_hits_same [of t0]) (auto simp: same_live_def o_def)
  moreover have "run_hits hit_bucket (map (\<lambda>t. (k, l, t)) (t0 # ts)) [] = 0 # ?rest"
    by (simp add: hit_bucket_def WINDOW_MS_def)
  moreover have "map (\<lambda>x. x = 0) ?rest = map (\<lambda>i. 1 + of_nat i < l) [0..<length ts]"
    using open_window_hits [of ?bs k "\<lparr>b_count = 1, b_resetAt = t0 + 60000\<rparr>" ts l] assms(2) by simp
  moreover have "\<forall>x \<in> set ?rest. x = 0 \<or> 1 \<le> x \<and> x \<le> 60"
    using open_window_waits [of ?bs k "\<lparr>b_count = 1, b_resetAt = t0 + 60000\<rparr>" ts _ l] assms by auto
  ultimately show ?thesis
    by simp
qed

theorem window_counts_exactly_witness:
  "map (\<lambda>x. x = 0) (run_hits rateHit (map (\<lambda>t. (''k'', 2, t)) [0, 10, 20]) []) = [True, True, False]"
  using window_counts_exactly [of 0 "[10, 20]" "''k''" 2] by (simp add: upt_conv_Cons)

section \<open>Addresses\<close>

lemma ipv4_parts_bound:
  "ipv4_parts parts v = Some r \<Longrightarrow> v < 256 ^ n \<Longrightarrow> r < 256 ^ (n + length parts)"
proof (induction parts arbitrary: v n)
  case (Cons p ps)
  then have p: "dec_val p \<le> 255" and rest: "ipv4_parts ps (v * 256 + dec_val p) = Some r"
    by (auto split: if_splits)
  have "v * 256 + dec_val p < 256 ^ Suc n"
    using p Cons.prems(2) by simp
  then show ?case
    using Cons.IH [OF rest, of "Suc n"] by simp
qed simp



section \<open>The certificate ceiling\<close>

text \<open>The instants at which a new hostname is approved, over a sequence of requests.\<close>

fun run_tls :: "env \<Rightarrow> (string \<times> ms) list \<Rightarrow> tls_state \<Rightarrow> ms list" where
  "run_tls env [] s = []"
| "run_tls env ((h, now) # rs) s =
     (let r = tlsIssuanceAllowed env h now s
      in (if snd r \<and> \<not> tls_repeat h now s then [now] else []) @ run_tls env rs (fst r))"

definition in_hour :: "ms \<Rightarrow> ms \<Rightarrow> bool" where
  "in_hour t ms \<longleftrightarrow> t - HOUR_MS < ms \<and> ms \<le> t"

definition tls_cap :: "env \<Rightarrow> nat" where
  "tls_cap env = nat \<lceil>num env ''SPROUTBOAT_TLS_NEW_CERTS_PER_HOUR'' 20\<rceil>"

text \<open>What the approvals remembered at \<open>now\<close> say of all approvals so far.\<close>

definition tls_ok :: "env \<Rightarrow> ms \<Rightarrow> tls_state \<Rightarrow> ms list \<Rightarrow> bool" where
  "tls_ok env now s past \<longleftrightarrow>
     (\<forall>ms \<in> set past. ms \<le> now) \<and>
     filter (\<lambda>ms. now - ms < HOUR_MS) (tlsApprovals s) = filter (\<lambda>ms. now - ms < HOUR_MS) past \<and>
     (\<forall>t. length (filter (in_hour t) past) \<le> tls_cap env)"

lemma filter_later:
  assumes "now \<le> now'" "filter (\<lambda>ms. now - ms < H) xs = filter (\<lambda>ms. now - ms < H) ys"
  shows "filter (\<lambda>ms. now' - ms < (H::int)) xs = filter (\<lambda>ms. now' - ms < H) ys"
proof -
  have "filter (\<lambda>ms. now' - ms < H) zs = filter (\<lambda>ms. now' - ms < H) (filter (\<lambda>ms. now - ms < H) zs)" for zs
    using assms(1) by (induction zs) auto
  then show ?thesis
    using assms(2) by metis
qed

lemma tls_later: "tls_ok env now s past \<Longrightarrow> now \<le> now' \<Longrightarrow> tls_ok env now' s past"
  unfolding tls_ok_def using filter_later by (meson order_trans)

lemma tls_approve:
  assumes "tls_ok env now s past"
    and "of_nat (length (filter (\<lambda>ms. now - ms < HOUR_MS) past)) < num env ''SPROUTBOAT_TLS_NEW_CERTS_PER_HOUR'' 20"
  shows "length (filter (in_hour t) (past @ [now])) \<le> tls_cap env"
proof (cases "t < now")
  case True
  then show ?thesis
    using assms(1) by (simp add: tls_ok_def in_hour_def)
next
  case False
  have "length (filter (in_hour t) zs) \<le> length (filter (\<lambda>ms. now - ms < HOUR_MS) zs)" for zs
    using False by (induction zs) (auto simp: in_hour_def)
  moreover have "length (filter (\<lambda>ms. now - ms < HOUR_MS) past) + 1 \<le> tls_cap env"
    using assms(2) unfolding tls_cap_def by linarith
  moreover have "length (filter (in_hour t) (past @ [now])) \<le> length (filter (in_hour t) past) + 1"
    by simp
  ultimately show ?thesis
    by (meson add_le_mono1 order_trans)
qed

lemma tls_step_ok:
  assumes "tls_ok env now s past"
  shows "tls_ok env now (fst (tlsIssuanceAllowed env h now s))
    (past @ (if snd (tlsIssuanceAllowed env h now s) \<and> \<not> tls_repeat h now s then [now] else []))"
proof (cases "tls_repeat h now s")
  case True
  then show ?thesis
    using assms by (simp add: tlsIssuanceAllowed_def tls_ok_def)
next
  case False
  let ?recent = "filter (\<lambda>ms. now - ms < HOUR_MS) (tlsApprovals s)"
  let ?cap = "num env ''SPROUTBOAT_TLS_NEW_CERTS_PER_HOUR'' 20"
  have eq: "?recent = filter (\<lambda>ms. now - ms < HOUR_MS) past"
    using assms by (simp add: tls_ok_def)
  show ?thesis
  proof (cases "?cap \<le> of_nat (length ?recent)")
    case True
    then show ?thesis
      using assms False by (simp add: tlsIssuanceAllowed_def tls_ok_def Let_def)
  next
    case room: False
    have "tlsApprovals (fst (tlsIssuanceAllowed env h now s)) = ?recent @ [now]"
      "snd (tlsIssuanceAllowed env h now s)"
      using False room by (simp_all add: tlsIssuanceAllowed_def Let_def)
    moreover have "\<forall>t. length (filter (in_hour t) (past @ [now])) \<le> tls_cap env"
      using tls_approve [OF assms] room by (simp add: eq)
    ultimately show ?thesis
      using False assms by (simp add: tls_ok_def)
  qed
qed

lemma run_tls_ok:
  assumes "tls_ok env t0 s past" "sorted (map snd rs)" "\<forall>r \<in> set rs. t0 \<le> snd r"
  shows "length (filter (in_hour t) (past @ run_tls env rs s)) \<le> tls_cap env"
  using assms
proof (induction rs arbitrary: t0 s past)
  case (Cons r rs)
  obtain h now where r: "r = (h, now)"
    by (cases r)
  have "tls_ok env now s past"
    using tls_later Cons.prems by (auto simp: r)
  from Cons.IH [OF tls_step_ok [OF this, of h]] show ?case
    using Cons.prems by (simp add: r Let_def)
qed (simp add: tls_ok_def)



end
