(* ===== verification/Events.thy ===== *)
theory Events
  imports Abuse_Limits
begin

text \<open>
  Activity events (\<open>src/apps/control/src/events.ts\<close> and \<open>event-types.ts\<close>): the vocabulary of
  types and what each may carry, scrubbing, retention, and the paged listing. The events table is
  a list in id order; \<open>ev_next\<close> is the next \<open>AUTOINCREMENT\<close> id, which is never reused.
\<close>

section \<open>Vocabulary\<close>

definition EVENT_DATA_KEYS :: "(string \<times> string list) list" where
  "EVENT_DATA_KEYS = [
     (''deploy.started'', [''project'']),
     (''deploy.succeeded'', [''deploymentId'', ''digest'', ''hostname'', ''binarySize'', ''compileMs'', ''newProject'', ''unchanged'']),
     (''deploy.failed'', [''reason'']),
     (''deploy.activated'', [''from'', ''to'']),
     (''deploy.rolled_back'', [''from'', ''to'']),
     (''deploy.deleted'', [''deploymentId'']),
     (''project.created'', [''hostname'']),
     (''project.deleted'', [''hostnames'']),
     (''secret.set'', [''name'']),
     (''secret.deleted'', [''name'']),
     (''domain.added'', [''hostname'']),
     (''domain.verified'', [''hostname'']),
     (''domain.removed'', [''hostname'']),
     (''token.created'', [''name'', ''keyId'']),
     (''token.revoked'', [''keyId'', ''count'', ''all'']),
     (''member.created'', [''userId'', ''username'', ''email'']),
     (''member.disabled'', [''userId'']),
     (''member.enabled'', [''userId'']),
     (''backup.created'', [''name'', ''sizeBytes'', ''encrypted'', ''offsite'']),
     (''backup.failed'', [''error'']),
     (''webhook.test'', [''webhookId''])]"

definition EVENT_TYPES :: "string list" where
  "EVENT_TYPES = map fst EVENT_DATA_KEYS"

definition SYSTEM_OWNER :: owner where
  "SYSTEM_OWNER = ''system''"

definition isEventType :: "string \<Rightarrow> bool" where
  "isEventType v = (v \<in> set EVENT_TYPES)"

definition EVENT_GROUPS :: "string list" where
  "EVENT_GROUPS = uniq (map (\<lambda>t. hd (split_on CHR ''.'' t) @ ''.*'') EVENT_TYPES)"

datatype TypeFilter = Exact string | Prefix string

definition parseTypeFilter :: "string \<Rightarrow> TypeFilter option" where
  "parseTypeFilter token =
     (if isEventType token then Some (Exact token)
      else if ends_with token ''.*'' \<and> token \<in> set EVENT_GROUPS then Some (Prefix (butlast token))
      else None)"

definition filter_matches :: "TypeFilter \<Rightarrow> string \<Rightarrow> bool" where
  "filter_matches f type = (case f of Exact t \<Rightarrow> t = type | Prefix p \<Rightarrow> starts_with type p)"

definition typeMatches :: "TypeFilter list \<Rightarrow> string \<Rightarrow> bool" where
  "typeMatches filters type = (filters = [] \<or> list_ex (\<lambda>f. filter_matches f type) filters)"

definition parseStoredFilters :: "string list \<Rightarrow> TypeFilter list" where
  "parseStoredFilters tokens = List.map_filter parseTypeFilter tokens"

fun parse_tokens :: "string list \<Rightarrow> TypeFilter list \<Rightarrow> string + TypeFilter list" where
  "parse_tokens [] acc = Inr acc"
| "parse_tokens (token # tokens) acc =
     (case parseTypeFilter token of None \<Rightarrow> Inl token | Some f \<Rightarrow> parse_tokens tokens (acc @ [f]))"

definition parseTypeList :: "string \<Rightarrow> string + TypeFilter list" where
  "parseTypeList raw = parse_tokens (filter (\<lambda>t. t \<noteq> []) (map js_trim (split_on CHR '','' raw))) []"

section \<open>Events\<close>

text \<open>A number that is not equal to itself (\<open>NaN\<close>) is dropped by the code; \<open>EvNaN\<close> is that value.\<close>

datatype event_value = EvStr string | EvNum rat | EvBool bool | EvNull | EvNaN

record activity_event =
  ev_id :: nat
  ev_ts :: ms
  ev_owner :: owner
  ev_project :: "string option"
  ev_type :: string
  ev_actor :: "string option"
  ev_summary :: string
  ev_data :: "(string \<times> event_value) list"

record new_event =
  ne_owner :: owner
  ne_project :: "string option"
  ne_type :: string
  ne_actor :: "string option"
  ne_summary :: string
  ne_data :: "(string \<times> event_value) list"
  ne_webhook :: "string option"

record events_db =
  events :: "activity_event list"
  ev_next :: nat
  ev_inserts :: nat
  ev_pruned_path :: bool

definition MAX_STRING :: nat where
  "MAX_STRING = 500"

definition scrub_value :: "event_value \<Rightarrow> event_value option" where
  "scrub_value v =
     (case v of
        EvStr s \<Rightarrow> Some (EvStr (if length s > MAX_STRING then take MAX_STRING s @ ''...'' else s))
      | EvNaN \<Rightarrow> None
      | _ \<Rightarrow> Some v)"

definition scrub :: "string \<Rightarrow> (string \<times> event_value) list \<Rightarrow> (string \<times> event_value) list" where
  "scrub type data =
     List.map_filter (\<lambda>key. case map_of data key of
                               None \<Rightarrow> None
                             | Some v \<Rightarrow> map_option (Pair key) (scrub_value v))
       (case map_of EVENT_DATA_KEYS type of None \<Rightarrow> [] | Some ks \<Rightarrow> ks)"

text \<open>
  Rows older than the window go first; then those with an id not above the \<open>max\<close>-th newest one
  plus one. A cap that is not an integer makes SQLite refuse the \<open>OFFSET\<close>, so caps are integers.
\<close>

definition pruneEvents :: "rat \<Rightarrow> nat \<Rightarrow> ms \<Rightarrow> activity_event list \<Rightarrow> activity_event list \<times> nat" where
  "pruneEvents keepDays maxRows now rows =
     (let kept = filter (\<lambda>e. \<not> of_int (ev_ts e) < of_int now - keepDays * 86400000) rows;
          byId = rev (sort_key ev_id kept);
          kept' = (if maxRows < length byId
                   then filter (\<lambda>e. \<not> ev_id e \<le> ev_id (byId ! maxRows)) kept else kept)
      in (kept', length rows - length kept'))"

text \<open>The insert of \<open>recordEvent\<close>, with the pruning of every hundredth one and of the first.\<close>

definition insert_event :: "env \<Rightarrow> ms \<Rightarrow> new_event \<Rightarrow> events_db \<Rightarrow> events_db \<times> activity_event" where
  "insert_event env now input s =
     (let event = \<lparr>ev_id = ev_next s, ev_ts = now, ev_owner = ne_owner input, ev_project = ne_project input,
                   ev_type = ne_type input, ev_actor = ne_actor input, ev_summary = take 300 (ne_summary input),
                   ev_data = scrub (ne_type input) (ne_data input)\<rparr>;
          rows = events s @ [event];
          n = ev_inserts s + 1
      in (s\<lparr>events := (if \<not> ev_pruned_path s \<or> n mod 100 = 0
                       then fst (pruneEvents (eventsKeepDays env) (nat (floor (eventsMaxRows env))) now rows) else rows),
            ev_next := ev_next s + 1, ev_inserts := n, ev_pruned_path := True\<rparr>, event))"

section \<open>Listing\<close>

record EventQuery =
  eq_owner :: "owner option"
  eq_all :: bool
  eq_project :: "string option"
  eq_types :: "TypeFilter list"
  eq_since :: "ms option"
  eq_until :: "ms option"
  eq_before :: "nat option"
  eq_limit :: int

definition query_matches :: "EventQuery \<Rightarrow> activity_event \<Rightarrow> bool" where
  "query_matches qy e \<longleftrightarrow>
     (eq_all qy \<or> ev_owner e = (case eq_owner qy of None \<Rightarrow> [] | Some o1 \<Rightarrow> o1)) \<and>
     (case eq_project qy of None \<Rightarrow> True | Some p \<Rightarrow> ev_project e = Some p) \<and>
     (eq_types qy = [] \<or> list_ex (\<lambda>f. case f of Exact t \<Rightarrow> ev_type e = t
                                        | Prefix p \<Rightarrow> take (length p) (ev_type e) = p) (eq_types qy)) \<and>
     (case eq_since qy of None \<Rightarrow> True | Some t \<Rightarrow> t \<le> ev_ts e) \<and>
     (case eq_until qy of None \<Rightarrow> True | Some t \<Rightarrow> ev_ts e \<le> t) \<and>
     (case eq_before qy of None \<Rightarrow> True | Some i \<Rightarrow> ev_id e < i)"

definition page_limit :: "int \<Rightarrow> nat" where
  "page_limit l = nat (min (max 1 l) 200)"

definition listEvents :: "EventQuery \<Rightarrow> activity_event list \<Rightarrow> activity_event list \<times> nat option" where
  "listEvents qy rows =
     (let limit = page_limit (eq_limit qy);
          found = take (limit + 1) (rev (sort_key ev_id (filter (query_matches qy) rows)));
          page = take limit found
      in (page, if length found > limit then Some (ev_id (last page)) else None))"

section \<open>Scrubbing\<close>

lemma scrub_mem:
  assumes "(k, v) \<in> set (scrub type data)"
  shows "\<exists>ks v0. map_of EVENT_DATA_KEYS type = Some ks \<and> k \<in> set ks \<and> map_of data k = Some v0 \<and> scrub_value v0 = Some v"
  using assms by (cases "map_of EVENT_DATA_KEYS type") (auto simp: scrub_def List.map_filter_def split: option.splits)

lemma scrub_value_bounded: "scrub_value v0 = Some (EvStr s) \<Longrightarrow> length s \<le> 503"
  by (auto simp: scrub_value_def MAX_STRING_def split: event_value.splits if_splits)



section \<open>The log\<close>

definition events_ok :: "events_db \<Rightarrow> bool" where
  "events_ok s \<longleftrightarrow> sorted_wrt (<) (map ev_id (events s)) \<and> (\<forall>e \<in> set (events s). ev_id e < ev_next s)"

definition empty_events :: events_db where
  "empty_events = \<lparr>events = [], ev_next = 1, ev_inserts = 0, ev_pruned_path = False\<rparr>"

definition log_step :: "env \<Rightarrow> events_db \<Rightarrow> ms \<times> new_event \<Rightarrow> events_db" where
  "log_step env s x = fst (insert_event env (fst x) (snd x) s)"

lemma prune_filter: "\<exists>P. fst (pruneEvents d m now rows) = filter P rows"
  unfolding pruneEvents_def Let_def by (auto simp: filter_filter)

lemma sorted_wrt_map_filter: "sorted_wrt R (map f xs) \<Longrightarrow> sorted_wrt R (map f (filter P xs))"
  by (auto simp: sorted_wrt_map intro: sorted_wrt_filter)

lemma log_step_ok: "events_ok s \<Longrightarrow> events_ok (log_step env s x)"
proof -
  assume ok: "events_ok s"
  obtain now input where x: "x = (now, input)"
    by (cases x)
  define rows where "rows = events s @ [snd (insert_event env now input s)]"
  have id: "ev_id (snd (insert_event env now input s)) = ev_next s"
    by (simp add: insert_event_def Let_def)
  have "events (log_step env s x) = rows \<or> events (log_step env s x) =
      fst (pruneEvents (eventsKeepDays env) (nat (floor (eventsMaxRows env))) now rows)"
    by (simp add: log_step_def insert_event_def Let_def x rows_def)
  moreover have "rows = filter (\<lambda>_. True) rows"
    by simp
  ultimately obtain P where P: "events (log_step env s x) = filter P rows"
    using prune_filter by metis
  have "sorted_wrt (<) (map ev_id rows)" "\<forall>e \<in> set rows. ev_id e < ev_next s + 1"
    using ok by (auto simp: rows_def events_ok_def sorted_wrt_append id less_Suc_eq)
  moreover have "ev_next (log_step env s x) = ev_next s + 1"
    by (simp add: log_step_def insert_event_def Let_def x)
  ultimately show ?thesis
    using P by (auto simp: events_ok_def sorted_wrt_map_filter)
qed

interpretation event_log: machine empty_events "log_step env" events_ok for env
  by unfold_locales (simp add: events_ok_def empty_events_def, rule log_step_ok)

section \<open>Reading every page\<close>

lemma newest_first: "sorted_wrt (<) (map ev_id rows) \<Longrightarrow> rev (sort_key ev_id (filter P rows)) = rev (filter P rows)"
  by (simp add: sort_key_id_if_sorted sorted_wrt_map_filter strict_sorted_imp_sorted)

definition events_page :: "env \<Rightarrow> EventQuery \<Rightarrow> (ms \<times> new_event) list \<Rightarrow> nat option \<Rightarrow> activity_event list \<times> nat option" where
  "events_page env qy ops before = listEvents (qy\<lparr>eq_before := before\<rparr>) (events (foldl (log_step env) empty_events ops))"

definition events_rest :: "env \<Rightarrow> EventQuery \<Rightarrow> (ms \<times> new_event) list \<Rightarrow> nat option \<Rightarrow> activity_event list" where
  "events_rest env qy ops before =
     rev (filter (query_matches (qy\<lparr>eq_before := before\<rparr>)) (events (foldl (log_step env) empty_events ops)))"

lemma query_before:
  "query_matches (qy\<lparr>eq_before := b\<rparr>) e \<longleftrightarrow>
     query_matches (qy\<lparr>eq_before := None\<rparr>) e \<and> (case b of None \<Rightarrow> True | Some i \<Rightarrow> ev_id e < i)"
  by (cases b) (auto simp: query_matches_def)

lemma listEvents_split:
  fixes qy :: EventQuery
  assumes "sorted_wrt (<) (map ev_id rows)"
  defines "page b \<equiv> listEvents (qy\<lparr>eq_before := b\<rparr>) rows"
    and "rest b \<equiv> rev (filter (query_matches (qy\<lparr>eq_before := b\<rparr>)) rows)"
  shows "rest b = fst (page b) @ (case snd (page b) of None \<Rightarrow> [] | Some k \<Rightarrow> rest (Some k))"
    "snd (page b) = Some k \<Longrightarrow> fst (page b) \<noteq> []"
proof -
  define n where "n = page_limit (eq_limit qy)"
  have n: "0 < n"
    by (simp add: n_def page_limit_def)
  have page: "fst (page b) = take n (rest b)"
    "snd (page b) = (if n < length (rest b) then Some (ev_id (last (take n (rest b)))) else None)"
    unfolding page_def rest_def listEvents_def newest_first [OF assms(1)] Let_def n_def by auto
  have sorted: "sorted_wrt (\<lambda>a c. ev_id a > ev_id c) (rest b)"
    using assms(1) by (simp add: rest_def sorted_wrt_rev sorted_wrt_map sorted_wrt_filter)
  show "snd (page b) = Some k \<Longrightarrow> fst (page b) \<noteq> []"
    using n page by (auto split: if_splits)
  show "rest b = fst (page b) @ (case snd (page b) of None \<Rightarrow> [] | Some k \<Rightarrow> rest (Some k))"
  proof (cases "n < length (rest b)")
    case True
    let ?k = "ev_id (last (take n (rest b)))"
    have mem: "last (take n (rest b)) \<in> set (rest b)"
      using True n by (metis in_set_takeD last_in_set length_greater_0_conv length_take min_less_iff_conj order_less_trans)
    then have lt: "\<forall>i. b = Some i \<longrightarrow> ?k < i"
      by (auto simp: rest_def query_before [where qy = qy and b = b])
    have "drop n (rest b) = filter (\<lambda>x. ev_id x < ?k) (rest b)"
      using page_of_sorted [of n "rest b" "\<lambda>a c. c < a" ev_id] True n sorted by simp
    also have "\<dots> = rest (Some ?k)"
      unfolding rest_def rev_filter [symmetric] filter_filter
      using lt by (intro arg_cong [where f = rev] filter_cong) (auto simp: query_before [where qy = qy and b = b] query_before [where qy = qy and b = "Some _"] rest_def split: option.splits)
    finally show ?thesis
      using page True by (metis append_take_drop_id option.simps(5))
  qed (use page in simp)
qed

interpretation event_pages: pager "events_page env qy ops" "events_rest env qy ops" for env qy ops
proof
  have "sorted_wrt (<) (map ev_id (events (foldl (log_step env) empty_events ops)))"
    using event_log.run_inv [of env ops] by (simp add: event_log.run_def events_ok_def)
  from listEvents_split [OF this] show
    "\<And>c. events_rest env qy ops c = fst (events_page env qy ops c) @
        (case snd (events_page env qy ops c) of None \<Rightarrow> [] | Some k \<Rightarrow> events_rest env qy ops (Some k))"
    "\<And>c k. snd (events_page env qy ops c) = Some k \<Longrightarrow> fst (events_page env qy ops c) \<noteq> []"
    unfolding events_page_def events_rest_def by blast+
qed

text \<open>
  C24: whatever was recorded, following \<open>nextBefore\<close> from the first page ends, and the pages
  together are every retained event the query matches, each once, newest first.
\<close>

theorem event_pages_complete:
  "walk_pages (\<lambda>before. listEvents (qy\<lparr>eq_before := before\<rparr>) (events (foldl (log_step env) empty_events ops)))
      (Suc (length (events (foldl (log_step env) empty_events ops)))) None =
    Some (rev (filter (query_matches (qy\<lparr>eq_before := None\<rparr>)) (events (foldl (log_step env) empty_events ops))))"
proof -
  have "length (events_rest env qy ops None) < Suc (length (events (foldl (log_step env) empty_events ops)))"
    by (simp add: events_rest_def less_Suc_eq_le)
  from event_pages.walk_ends [OF this] show ?thesis
    by (simp add: events_page_def [abs_def] events_rest_def)
qed

section \<open>Retention\<close>

lemma prune_cap:
  assumes "sorted_wrt (<) (map ev_id xs)" and "m < length xs"
  shows "filter (\<lambda>e. \<not> ev_id e \<le> ev_id (rev xs ! m)) xs = drop (length xs - m) xs"
proof -
  have strict: "sorted_wrt (\<lambda>a c. ev_id a < ev_id c) xs"
    using assms(1) by (simp add: sorted_wrt_map)
  have nth: "rev xs ! m = xs ! (length xs - m - 1)"
    using assms(2) by (simp add: rev_nth)
  show ?thesis
  proof (cases "m = 0")
    case True
    have "ev_id e \<le> ev_id (xs ! (length xs - 1))" if "e \<in> set xs" for e
    proof -
      obtain i where "i < length xs" "e = xs ! i"
        using \<open>e \<in> set xs\<close> by (metis in_set_conv_nth)
      then show ?thesis
        using strict by (cases "i = length xs - 1") (auto simp: sorted_wrt_iff_nth_less intro!: less_imp_le)
    qed
    then show ?thesis
      using True nth by simp
  next
    case False
    have "last (take (length xs - m) xs) = rev xs ! m"
      using assms(2) False unfolding nth by (subst last_conv_nth) (auto simp: min_def)
    then show ?thesis
      using page_of_sorted [of "length xs - m" xs "(<)" ev_id] assms(2) False strict
      by (simp add: not_le)
  qed
qed

text \<open>
  C25: pruning keeps exactly the newest rows up to the cap among those inside the retention
  window, in order, and reports how many went.
\<close>

theorem prune_retention:
  assumes "sorted_wrt (<) (map ev_id rows)"
  shows "let fresh = filter (\<lambda>e. of_int now - keepDays * 86400000 \<le> of_int (ev_ts e)) rows;
             (kept, removed) = pruneEvents keepDays maxRows now rows
         in kept = drop (length fresh - maxRows) fresh \<and> removed + length kept = length rows"
proof -
  let ?fresh = "filter (\<lambda>e. of_int now - keepDays * 86400000 \<le> of_int (ev_ts e)) rows"
  have sorted: "sorted_wrt (<) (map ev_id ?fresh)"
    by (rule sorted_wrt_map_filter [OF assms])
  have "fst (pruneEvents keepDays maxRows now rows) = drop (length ?fresh - maxRows) ?fresh"
    using newest_first [OF assms] prune_cap [OF sorted, of maxRows]
    unfolding pruneEvents_def Let_def fst_conv not_less by (auto simp: not_less)
  moreover have "snd (pruneEvents keepDays maxRows now rows) = length rows - length (fst (pruneEvents keepDays maxRows now rows))"
    by (simp add: pruneEvents_def Let_def)
  moreover have "length (fst (pruneEvents keepDays maxRows now rows)) \<le> length rows"
    using prune_filter [of keepDays maxRows now rows] by auto
  ultimately have "snd (pruneEvents keepDays maxRows now rows) + length (drop (length ?fresh - maxRows) ?fresh) = length rows"
    and "fst (pruneEvents keepDays maxRows now rows) = drop (length ?fresh - maxRows) ?fresh"
    by simp_all
  then show ?thesis
    by (simp add: Let_def case_prod_beta)
qed

theorem prune_retention_witness:
  "let rows = map (\<lambda>i. \<lparr>ev_id = i, ev_ts = int i, ev_owner = ''a'', ev_project = None, ev_type = ''t'', ev_actor = None,
                       ev_summary = [], ev_data = []\<rparr>) [1, 2, 3]
   in map ev_id (fst (pruneEvents 1 2 5 rows)) = [2, 3]"
  using prune_retention [of "map (\<lambda>i. \<lparr>ev_id = i, ev_ts = int i, ev_owner = ''a'', ev_project = None, ev_type = ''t'', ev_actor = None,
                       ev_summary = [], ev_data = []\<rparr>) [1, 2, 3]" 5 1 2]
  by (simp add: Let_def case_prod_beta)

end
