(* ===== verification/Webhooks.thy ===== *)
theory Webhooks
  imports Events
begin

text \<open>
  Webhooks (\<open>src/apps/control/src/webhooks.ts\<close>, \<open>webhook-formats.ts\<close>): the registry, the delivery
  queue and its retries, and \<open>recordEvent\<close>, which writes an event and queues its deliveries. What
  the egress service answered is the argument of an attempt; parsing a URL is an argument of
  \<open>validateWebhookUrl\<close>, with what the code reads of it.
\<close>

section \<open>State\<close>

datatype WebhookFormat = Json | Discord

record webhook =
  wh_id :: string
  wh_owner :: owner
  wh_url :: string
  wh_types :: "string list"
  wh_format :: WebhookFormat
  wh_secret :: string
  wh_enabled :: bool
  wh_created_at :: ms
  wh_updated_at :: ms

datatype DeliveryState = Pending | Delivered | Failed | Refused

record delivery =
  dl_id :: string
  dl_webhook :: string
  dl_event :: nat
  dl_attempt :: nat
  dl_state :: DeliveryState
  dl_status :: "nat option"
  dl_error :: "string option"
  dl_next :: "ms option"
  dl_created_at :: ms
  dl_delivered_at :: "ms option"

record activity_db = events_db +
  hooks :: "webhook list"
  deliveries :: "delivery list"

section \<open>Registry\<close>

text \<open>\<open>ORDER BY created_at, rowid\<close> over rows in rowid order.\<close>

definition listWebhooks :: "owner \<Rightarrow> activity_db \<Rightarrow> webhook list" where
  "listWebhooks o1 s = sort_key wh_created_at (filter (\<lambda>h. wh_owner h = o1) (hooks s))"

definition getWebhook :: "owner \<Rightarrow> string \<Rightarrow> activity_db \<Rightarrow> webhook option" where
  "getWebhook o1 i s = List.find (\<lambda>h. wh_id h = i \<and> wh_owner h = o1) (hooks s)"

definition webhookCount :: "owner \<Rightarrow> activity_db \<Rightarrow> nat" where
  "webhookCount o1 s = length (filter (\<lambda>h. wh_owner h = o1) (hooks s))"

definition createWebhook ::
    "(string \<Rightarrow> string) \<Rightarrow> string \<Rightarrow> ms \<Rightarrow> owner \<Rightarrow> string \<Rightarrow> string list \<Rightarrow> WebhookFormat \<Rightarrow> string
      \<Rightarrow> activity_db \<Rightarrow> sql_error + activity_db \<times> webhook" where
  "createWebhook enc hex now o1 url types fmt secret s =
     (let row = \<lparr>wh_id = ''wh_'' @ hex, wh_owner = o1, wh_url = url, wh_types = types, wh_format = fmt,
                 wh_secret = enc secret, wh_enabled = True, wh_created_at = now, wh_updated_at = now\<rparr>
      in if wh_id row \<in> wh_id ` set (hooks s) then Inl UniqueViolation
         else Inr (s\<lparr>hooks := hooks s @ [row]\<rparr>, row))"

record webhook_patch =
  wp_url :: "string option"
  wp_types :: "string list option"
  wp_format :: "WebhookFormat option"
  wp_enabled :: "bool option"

definition opt_or :: "'a option \<Rightarrow> 'a \<Rightarrow> 'a" where
  "opt_or x d = (case x of None \<Rightarrow> d | Some v \<Rightarrow> v)"

definition updateWebhook :: "ms \<Rightarrow> owner \<Rightarrow> string \<Rightarrow> webhook_patch \<Rightarrow> activity_db \<Rightarrow> activity_db \<times> webhook option" where
  "updateWebhook now o1 i patch s =
     (case getWebhook o1 i s of
        None \<Rightarrow> (s, None)
      | Some current \<Rightarrow>
          let s' = s\<lparr>hooks := map (\<lambda>h. if wh_id h = i \<and> wh_owner h = o1
                then h\<lparr>wh_url := opt_or (wp_url patch) (wh_url current),
                       wh_types := opt_or (wp_types patch) (wh_types current),
                       wh_format := opt_or (wp_format patch) (wh_format current),
                       wh_enabled := opt_or (wp_enabled patch) (wh_enabled current),
                       wh_updated_at := now\<rparr>
                else h) (hooks s)\<rparr>
          in (s', getWebhook o1 i s'))"

definition deleteWebhook :: "owner \<Rightarrow> string \<Rightarrow> activity_db \<Rightarrow> activity_db \<times> bool" where
  "deleteWebhook o1 i s =
     (case getWebhook o1 i s of
        None \<Rightarrow> (s, False)
      | Some _ \<Rightarrow>
          (s\<lparr>deliveries := filter (\<lambda>d. dl_webhook d \<noteq> i) (deliveries s),
             hooks := filter (\<lambda>h. \<not> (wh_id h = i \<and> wh_owner h = o1)) (hooks s)\<rparr>, True))"

text \<open>
  What \<open>validateWebhookUrl\<close> reads of a parsed URL. \<open>is_ip\<close> is \<open>isIP(host) !== 0\<close> and \<open>refusal\<close> the
  egress policy of \<open>@sproutboat/runtime\<close> applied to a hostname and an address.
\<close>

record parsed_url =
  pu_protocol :: string
  pu_username :: string
  pu_password :: string
  pu_port :: string
  pu_hostname :: string

definition strip_brackets :: "string \<Rightarrow> string" where
  "strip_brackets h =
     (let a = (if starts_with h ''['' then tl h else h)
      in if ends_with a '']'' then butlast a else a)"

definition validateWebhookUrl ::
    "(string \<Rightarrow> parsed_url option) \<Rightarrow> (string \<Rightarrow> bool) \<Rightarrow> (string \<Rightarrow> string \<Rightarrow> string option) \<Rightarrow> string \<Rightarrow> string + parsed_url" where
  "validateWebhookUrl parse is_ip refusal raw =
     (case parse raw of
        None \<Rightarrow> Inl ''url must be an absolute http or https URL''
      | Some url \<Rightarrow>
          if pu_protocol url \<noteq> ''https:'' \<and> pu_protocol url \<noteq> ''http:'' then Inl ''url must use http or https''
          else if pu_username url \<noteq> [] \<or> pu_password url \<noteq> [] then Inl ''url must not carry credentials''
          else if pu_port url = ''25'' then Inl ''port 25 is blocked''
          else if length raw > 2048 then Inl ''url is too long''
          else
            let host = strip_brackets (pu_hostname url); literal = is_ip host
            in if literal \<or> host = ''localhost'' \<or> ends_with host ''.localhost''
               then (case refusal (pu_hostname url) (if literal then host else ''127.0.0.1'') of
                       Some r \<Rightarrow> if r \<noteq> [] then Inl r else Inr url
                     | None \<Rightarrow> Inr url)
               else Inr url)"

section \<open>The queue\<close>

definition RETRY_DELAYS_MS :: "int list" where
  "RETRY_DELAYS_MS = [30000, 120000, 600000, 3600000]"

definition MAX_ATTEMPTS :: nat where
  "MAX_ATTEMPTS = length RETRY_DELAYS_MS + 1"

definition KEEP_DELIVERIES :: nat where
  "KEEP_DELIVERIES = 200"

text \<open>
  Insert a delivery and drop all but the newest of its webhook
  (\<open>ORDER BY created_at DESC, rowid DESC\<close>).
\<close>

definition newest_ids :: "string \<Rightarrow> delivery list \<Rightarrow> string list" where
  "newest_ids i ds =
     take KEEP_DELIVERIES (map dl_id (rev (sort_key dl_created_at (filter (\<lambda>d. dl_webhook d = i) ds))))"

definition enqueue_one :: "activity_event \<Rightarrow> webhook \<times> string \<Rightarrow> delivery list \<Rightarrow> delivery list" where
  "enqueue_one event hx ds =
     (let row = \<lparr>dl_id = ''dl_'' @ snd hx, dl_webhook = wh_id (fst hx), dl_event = ev_id event, dl_attempt = 0,
                 dl_state = Pending, dl_status = None, dl_error = None, dl_next = Some (ev_ts event),
                 dl_created_at = ev_ts event, dl_delivered_at = None\<rparr>;
          rows = ds @ [row];
          keep = newest_ids (wh_id (fst hx)) rows
      in filter (\<lambda>d. \<not> (dl_webhook d = wh_id (fst hx) \<and> dl_id d \<notin> set keep)) rows)"

definition delivery_targets :: "activity_event \<Rightarrow> string option \<Rightarrow> activity_db \<Rightarrow> webhook list" where
  "delivery_targets event only s =
     (if ev_owner event = SYSTEM_OWNER then []
      else if ev_type event = ''webhook.test'' \<and> (only = None \<or> only = Some []) then []
      else filter (\<lambda>h. case only of
                          Some i \<Rightarrow> if i \<noteq> [] then wh_id h = i
                                    else wh_enabled h \<and> typeMatches (parseStoredFilters (wh_types h)) (ev_type event)
                        | None \<Rightarrow> wh_enabled h \<and> typeMatches (parseStoredFilters (wh_types h)) (ev_type event))
             (listWebhooks (ev_owner event) s))"

text \<open>
  \<open>hexes\<close> are the random parts of the new delivery ids, one per target. An id that is taken makes
  the insert throw, which ends the loop; \<open>recordEvent\<close> logs that and goes on.
\<close>

fun enqueue_all :: "activity_event \<Rightarrow> (webhook \<times> string) list \<Rightarrow> delivery list \<Rightarrow> delivery list" where
  "enqueue_all event [] ds = ds"
| "enqueue_all event (hx # hxs) ds =
     (if ''dl_'' @ snd hx \<in> dl_id ` set ds then ds else enqueue_all event hxs (enqueue_one event hx ds))"

definition enqueueDeliveries :: "string list \<Rightarrow> activity_event \<Rightarrow> string option \<Rightarrow> activity_db \<Rightarrow> activity_db" where
  "enqueueDeliveries hexes event only s =
     s\<lparr>deliveries := enqueue_all event (zip (delivery_targets event only s) hexes) (deliveries s)\<rparr>"

text \<open>The events part of \<open>recordEvent\<close> is \<open>insert_event\<close>, over the extended record.\<close>

definition recordEvent :: "env \<Rightarrow> string list \<Rightarrow> ms \<Rightarrow> new_event \<Rightarrow> activity_db \<Rightarrow> activity_db \<times> activity_event" where
  "recordEvent env hexes now input s =
     (case insert_event env now input (events_db.truncate s) of (e, event) \<Rightarrow>
        (enqueueDeliveries hexes event (ne_webhook input)
           (s\<lparr>events := events e, ev_next := ev_next e, ev_inserts := ev_inserts e, ev_pruned_path := ev_pruned_path e\<rparr>),
         event))"

section \<open>Sending\<close>

datatype Outcome =
    Ok nat
  | RefusedBy nat string
  | Retry "nat option" string

text \<open>What one attempt learned: the answer of the egress service, or that it could not be asked.\<close>

datatype egress_answer =
    NotConfigured
  | Unreachable string
  | EgressError nat string
  | Receiver nat

definition send_outcome :: "(nat \<Rightarrow> string) \<Rightarrow> egress_answer \<Rightarrow> Outcome" where
  "send_outcome shw a =
     (case a of
        NotConfigured \<Rightarrow> Retry None ''egress not configured''
      | Unreachable msg \<Rightarrow> Retry None (take 300 msg)
      | EgressError st msg \<Rightarrow> RefusedBy st (if msg = [] then ''refused by the egress service'' else take 500 msg)
      | Receiver st \<Rightarrow> if 200 \<le> st \<and> st < 300 then Ok st
                       else Retry (Some st) (''receiver responded '' @ shw st))"

definition finish ::
    "string \<Rightarrow> DeliveryState \<Rightarrow> nat \<Rightarrow> nat option \<Rightarrow> string option \<Rightarrow> ms option \<Rightarrow> ms option
      \<Rightarrow> delivery list \<Rightarrow> delivery list" where
  "finish i st attempt status err nxt done_at ds =
     map (\<lambda>d. if dl_id d = i
              then d\<lparr>dl_state := st, dl_attempt := attempt, dl_status := status, dl_error := err,
                     dl_next := nxt, dl_delivered_at := done_at\<rparr> else d) ds"

definition settle :: "string \<Rightarrow> nat \<Rightarrow> ms \<Rightarrow> Outcome \<Rightarrow> delivery list \<Rightarrow> delivery list" where
  "settle i attempt now out ds =
     (case out of
        Ok st \<Rightarrow> finish i Delivered attempt (Some st) None None (Some now) ds
      | RefusedBy st err \<Rightarrow> finish i Refused attempt (Some st) (Some err) None None ds
      | Retry st err \<Rightarrow>
          if attempt \<ge> MAX_ATTEMPTS then finish i Failed attempt st (Some err) None None ds
          else finish i Pending attempt st (Some err) (Some (now + RETRY_DELAYS_MS ! (attempt - 1))) None ds)"

text \<open>\<open>can_decrypt\<close> says whether the stored secret decrypts; \<open>answer\<close> is what sending learned.\<close>

definition attemptDelivery ::
    "(nat \<Rightarrow> string) \<Rightarrow> (string \<Rightarrow> bool) \<Rightarrow> egress_answer \<Rightarrow> ms \<Rightarrow> delivery \<Rightarrow> activity_db \<Rightarrow> activity_db" where
  "attemptDelivery shw can_decrypt answer now row s =
     (case List.find (\<lambda>h. wh_id h = dl_webhook row) (hooks s) of
        None \<Rightarrow> s\<lparr>deliveries := filter (\<lambda>d. dl_id d \<noteq> dl_id row) (deliveries s)\<rparr>
      | Some hook \<Rightarrow>
          (case List.find (\<lambda>e. ev_id e = dl_event row) (events s) of
             None \<Rightarrow> s\<lparr>deliveries := finish (dl_id row) Failed (dl_attempt row) None
                          (Some ''event no longer retained'') None None (deliveries s)\<rparr>
           | Some event \<Rightarrow>
               if \<not> wh_enabled hook \<and> ev_type event \<noteq> ''webhook.test''
               then s\<lparr>deliveries := finish (dl_id row) Failed (dl_attempt row) None
                        (Some ''webhook disabled'') None None (deliveries s)\<rparr>
               else if \<not> can_decrypt (wh_secret hook)
               then s\<lparr>deliveries := finish (dl_id row) Failed (dl_attempt row) None
                        (Some ''webhook secret could not be decrypted'') None None (deliveries s)\<rparr>
               else s\<lparr>deliveries := settle (dl_id row) (dl_attempt row + 1) now (send_outcome shw answer) (deliveries s)\<rparr>))"

definition due_rows :: "ms \<Rightarrow> nat \<Rightarrow> string list \<Rightarrow> delivery list \<Rightarrow> delivery list" where
  "due_rows now limit in_flight ds =
     filter (\<lambda>d. dl_id d \<notin> set in_flight)
       (take limit (sort_key (\<lambda>d. the (dl_next d))
          (filter (\<lambda>d. dl_state d = Pending \<and> (case dl_next d of None \<Rightarrow> False | Some t \<Rightarrow> t \<le> now)) ds)))"

text \<open>One pass of the worker; the attempts are settled one after the other.\<close>

definition deliverDue ::
    "(nat \<Rightarrow> string) \<Rightarrow> (string \<Rightarrow> bool) \<Rightarrow> (string \<Rightarrow> egress_answer) \<Rightarrow> ms \<Rightarrow> nat \<Rightarrow> activity_db \<Rightarrow> activity_db \<times> nat" where
  "deliverDue shw can_decrypt answers now limit s =
     (let due = due_rows now limit [] (deliveries s)
      in (fold (\<lambda>row. attemptDelivery shw can_decrypt (answers (dl_id row)) now row) due s, length due))"

section \<open>The queue stays bounded\<close>

definition delivery_ok :: "delivery \<Rightarrow> bool" where
  "delivery_ok d \<longleftrightarrow>
     dl_attempt d \<le> MAX_ATTEMPTS \<and>
     (if dl_state d = Pending then dl_attempt d < MAX_ATTEMPTS \<and> dl_next d \<noteq> None else dl_next d = None)"

definition queue_ok :: "delivery list \<Rightarrow> bool" where
  "queue_ok ds \<longleftrightarrow>
     distinct (map dl_id ds) \<and> (\<forall>d \<in> set ds. delivery_ok d) \<and>
     (\<forall>i. length (filter (\<lambda>d. dl_webhook d = i) ds) \<le> KEEP_DELIVERIES)"

lemma max_attempts [simp]: "MAX_ATTEMPTS = 5"
  by (simp add: MAX_ATTEMPTS_def RETRY_DELAYS_MS_def)

lemma queue_filter: "queue_ok ds \<Longrightarrow> queue_ok (filter P ds)"
proof -
  assume ok: "queue_ok ds"
  have "length (filter (\<lambda>d. dl_webhook d = i) (filter P ds)) \<le> KEEP_DELIVERIES" for i
  proof -
    have "filter (\<lambda>d. dl_webhook d = i) (filter P ds) = filter P (filter (\<lambda>d. dl_webhook d = i) ds)"
      by (simp add: conj_commute)
    then have "length (filter (\<lambda>d. dl_webhook d = i) (filter P ds)) \<le> length (filter (\<lambda>d. dl_webhook d = i) ds)"
      by (simp only: length_filter_le)
    then show ?thesis
      using ok unfolding queue_ok_def by (meson order_trans)
  qed
  then show ?thesis
    using ok by (auto simp: queue_ok_def)
qed

lemma finish_ids [simp]: "map dl_id (finish i st a x e n t ds) = map dl_id ds"
  by (simp add: finish_def)

lemma finish_webhooks: "length (filter (\<lambda>d. dl_webhook d = w) (finish i st a x e n t ds)) = length (filter (\<lambda>d. dl_webhook d = w) ds)"
  by (induction ds) (auto simp: finish_def)

lemma finish_ok:
  assumes "queue_ok ds" "a \<le> 5" "if st = Pending then a < 5 \<and> n \<noteq> None else n = None"
  shows "queue_ok (finish i st a x e n t ds)"
proof -
  have "\<forall>d \<in> set (finish i st a x e n t ds). delivery_ok d"
    using assms by (auto simp: finish_def delivery_ok_def queue_ok_def)
  then show ?thesis
    using assms(1) by (simp add: queue_ok_def finish_webhooks)
qed

lemma settle_ok: "queue_ok ds \<Longrightarrow> a \<le> 5 \<Longrightarrow> queue_ok (settle i a now out ds)"
  by (cases out) (auto simp: settle_def intro!: finish_ok)

lemma attempt_ok:
  assumes "queue_ok (deliveries s)" "dl_attempt row < 5"
  shows "queue_ok (deliveries (attemptDelivery shw can ans now row s))"
  using assms by (auto simp: attemptDelivery_def intro!: queue_filter finish_ok settle_ok split: option.splits)

lemma attempts_ok:
  "queue_ok (deliveries s) \<Longrightarrow> \<forall>row \<in> set rows. dl_attempt row < 5 \<Longrightarrow>
     queue_ok (deliveries (fold (\<lambda>row. attemptDelivery shw can (ans (dl_id row)) now row) rows s))"
  by (induction rows arbitrary: s) (auto intro: attempt_ok)

lemma due_pending: "d \<in> set (due_rows now limit fl ds) \<Longrightarrow> d \<in> set ds \<and> dl_state d = Pending"
  by (auto simp: due_rows_def dest: in_set_takeD)

lemma deliverDue_ok:
  assumes "queue_ok (deliveries s)"
  shows "queue_ok (deliveries (fst (deliverDue shw can ans now limit s)))"
proof -
  have "\<forall>row \<in> set (due_rows now limit [] (deliveries s)). dl_attempt row < 5"
    using assms due_pending by (fastforce simp: queue_ok_def delivery_ok_def)
  then show ?thesis
    using attempts_ok [OF assms] by (simp add: deliverDue_def Let_def)
qed

lemma enqueue_one_ok:
  assumes "queue_ok ds" "''dl_'' @ snd hx \<notin> dl_id ` set ds"
  shows "queue_ok (enqueue_one event hx ds)"
proof -
  define w where "w = wh_id (fst hx)"
  define row where "row = \<lparr>dl_id = ''dl_'' @ snd hx, dl_webhook = w, dl_event = ev_id event, dl_attempt = 0,
     dl_state = Pending, dl_status = None, dl_error = None, dl_next = Some (ev_ts event),
     dl_created_at = ev_ts event, dl_delivered_at = None\<rparr>"
  define rows where "rows = ds @ [row]"
  define keep where "keep = newest_ids w rows"
  have eq: "enqueue_one event hx ds = filter (\<lambda>d. \<not> (dl_webhook d = w \<and> dl_id d \<notin> set keep)) rows"
    by (simp add: enqueue_one_def Let_def keep_def rows_def row_def w_def)
  have dist: "distinct (map dl_id rows)" and all: "\<forall>d \<in> set rows. delivery_ok d"
    using assms by (auto simp: rows_def row_def queue_ok_def delivery_ok_def)
  have len: "length keep \<le> KEEP_DELIVERIES"
    by (simp add: keep_def newest_ids_def)
  have "length (filter (\<lambda>d. dl_webhook d = i) (enqueue_one event hx ds)) \<le> KEEP_DELIVERIES" for i
  proof (cases "i = w")
    case True
    let ?l = "filter (\<lambda>d. dl_webhook d = w \<and> dl_id d \<in> set keep) rows"
    have "distinct (map dl_id ?l)"
      using dist by (rule distinct_map_filter)
    then have "length ?l = card (set (map dl_id ?l))"
      using distinct_card [of "map dl_id ?l"] by simp
    also have "\<dots> \<le> card (set keep)"
      by (intro card_mono) auto
    also have "\<dots> \<le> KEEP_DELIVERIES"
      using card_length [of keep] len by linarith
    finally have "length ?l \<le> KEEP_DELIVERIES" .
    moreover have "filter (\<lambda>d. dl_webhook d = i) (enqueue_one event hx ds) = ?l"
      unfolding eq filter_filter True by (intro filter_cong) auto
    ultimately show ?thesis
      by simp
  next
    case False
    then have "filter (\<lambda>d. dl_webhook d = i) (enqueue_one event hx ds) = filter (\<lambda>d. dl_webhook d = i) ds"
      by (auto simp: eq rows_def row_def filter_filter intro!: filter_cong)
    then show ?thesis
      using assms(1) by (simp add: queue_ok_def)
  qed
  then show ?thesis
    using dist all by (auto simp: queue_ok_def eq intro: distinct_map_filter)
qed

lemma enqueue_all_ok: "queue_ok ds \<Longrightarrow> queue_ok (enqueue_all event hxs ds)"
proof (induction hxs arbitrary: ds)
  case (Cons hx hxs)
  then show ?case
    using enqueue_one_ok [of ds hx event] by simp
qed simp

section \<open>The activity store as a machine\<close>

datatype activity_op =
    RecordEvent "string list" ms new_event
  | DeliverDue "string \<Rightarrow> egress_answer" ms nat
  | CreateWebhook string ms owner string "string list" WebhookFormat string
  | UpdateWebhook ms owner string webhook_patch
  | DeleteWebhook owner string

fun activity_step :: "env \<Rightarrow> (nat \<Rightarrow> string) \<Rightarrow> (string \<Rightarrow> bool) \<Rightarrow> (string \<Rightarrow> string) \<Rightarrow> activity_db \<Rightarrow> activity_op \<Rightarrow> activity_db" where
  "activity_step env shw can enc s (RecordEvent hexes now input) = fst (recordEvent env hexes now input s)"
| "activity_step env shw can enc s (DeliverDue ans now limit) = fst (deliverDue shw can ans now limit s)"
| "activity_step env shw can enc s (CreateWebhook hex now o1 url ts fmt sec) =
     (case createWebhook enc hex now o1 url ts fmt sec s of Inl _ \<Rightarrow> s | Inr r \<Rightarrow> fst r)"
| "activity_step env shw can enc s (UpdateWebhook now o1 i patch) = fst (updateWebhook now o1 i patch s)"
| "activity_step env shw can enc s (DeleteWebhook o1 i) = fst (deleteWebhook o1 i s)"

definition empty_activity :: activity_db where
  "empty_activity = events_db.extend empty_events \<lparr>hooks = [], deliveries = []\<rparr>"

lemma activity_step_ok:
  "queue_ok (deliveries s) \<Longrightarrow> queue_ok (deliveries (activity_step env shw can enc s a))"
  by (cases a)
    (auto simp: recordEvent_def enqueueDeliveries_def createWebhook_def updateWebhook_def deleteWebhook_def
      Let_def case_prod_beta intro!: enqueue_all_ok deliverDue_ok queue_filter split: option.splits)

interpretation activity: machine empty_activity "activity_step env shw can enc" "\<lambda>s. queue_ok (deliveries s)"
  for env shw can enc
  by unfold_locales
    (simp add: queue_ok_def empty_activity_def events_db.extend_def empty_events_def, rule activity_step_ok)


lemma enqueue_all_new:
  "d \<in> set (enqueue_all event hxs ds) \<Longrightarrow> d \<in> set ds \<or> (dl_webhook d \<in> wh_id ` fst ` set hxs \<and> dl_event d = ev_id event)"
proof (induction hxs arbitrary: ds)
  case (Cons hx hxs)
  have "x \<in> set (enqueue_one event hx ds) \<Longrightarrow> x \<in> set ds \<or> (dl_webhook x = wh_id (fst hx) \<and> dl_event x = ev_id event)" for x
    by (auto simp: enqueue_one_def Let_def split: if_splits)
  then show ?case
    using Cons by (auto split: if_splits)
qed simp

lemma targets_in_account:
  "h \<in> set (delivery_targets event only s) \<Longrightarrow>
     h \<in> set (hooks s) \<and> wh_owner h = ev_owner event \<and> ev_owner event \<noteq> SYSTEM_OWNER \<and>
     (only = Some (wh_id h) \<or> wh_enabled h \<and> typeMatches (parseStoredFilters (wh_types h)) (ev_type event))"
  by (auto simp: delivery_targets_def listWebhooks_def split: if_splits option.splits)

text \<open>
  C27: an event is queued only for webhooks of its own account: either the one the caller named,
  or those that are enabled and whose filter matches its type. System events are queued for
  nobody.
\<close>

theorem deliveries_stay_in_account:
  assumes "recordEvent env hexes now input s = (s', event)"
    and "d \<in> set (deliveries s')" and "d \<notin> set (deliveries s)"
  shows "\<exists>h \<in> set (hooks s). dl_webhook d = wh_id h \<and> wh_owner h = ne_owner input \<and>
    ne_owner input \<noteq> SYSTEM_OWNER \<and> dl_event d = ev_id event \<and>
    (ne_webhook input = Some (wh_id h) \<or>
     wh_enabled h \<and> typeMatches (parseStoredFilters (wh_types h)) (ne_type input))"
proof -
  let ?e = "insert_event env now input (events_db.truncate s)"
  let ?s = "s\<lparr>events := events (fst ?e), ev_next := ev_next (fst ?e), ev_inserts := ev_inserts (fst ?e),
    ev_pruned_path := ev_pruned_path (fst ?e)\<rparr>"
  have s': "s' = enqueueDeliveries hexes event (ne_webhook input) ?s" and ev: "event = snd ?e"
    using assms(1) by (auto simp: recordEvent_def case_prod_beta)
  have fields: "ev_owner event = ne_owner input" "ev_type event = ne_type input"
    by (simp_all add: ev insert_event_def Let_def)
  have "d \<in> set (enqueue_all event (zip (delivery_targets event (ne_webhook input) ?s) hexes) (deliveries s))"
    using assms(2) by (simp add: s' enqueueDeliveries_def)
  then obtain h where "h \<in> set (delivery_targets event (ne_webhook input) ?s)" "dl_webhook d = wh_id h" "dl_event d = ev_id event"
    using enqueue_all_new assms(3) by (fastforce dest: set_zip_leftD)
  then show ?thesis
    using targets_in_account [of h event "ne_webhook input" ?s] fields by auto
qed

definition sample_hook :: webhook where
  "sample_hook = \<lparr>wh_id = ''wh_1'', wh_owner = ''ann'', wh_url = ''u'', wh_types = [], wh_format = Json,
     wh_secret = ''s'', wh_enabled = True, wh_created_at = 0, wh_updated_at = 0\<rparr>"

definition sample_event :: new_event where
  "sample_event = \<lparr>ne_owner = ''ann'', ne_project = None, ne_type = ''deploy.started'', ne_actor = None,
     ne_summary = [], ne_data = [], ne_webhook = None\<rparr>"

theorem deliveries_stay_in_account_witness:
  "\<exists>s' event d. recordEvent (\<lambda>_. None) [''ff''] 5 sample_event (empty_activity\<lparr>hooks := [sample_hook]\<rparr>) = (s', event) \<and>
     d \<in> set (deliveries s') \<and> (\<exists>h \<in> {sample_hook}. dl_webhook d = wh_id h \<and> wh_owner h = ''ann'')"
proof -
  let ?s = "empty_activity\<lparr>hooks := [sample_hook]\<rparr>"
  obtain s' event where eq: "recordEvent (\<lambda>_. None) [''ff''] 5 sample_event ?s = (s', event)"
    by (metis surj_pair)
  have none: "deliveries ?s = []" "hooks ?s = [sample_hook]"
    by (simp_all add: empty_activity_def events_db.extend_def)
  have "deliveries s' \<noteq> []"
    using eq by (auto simp: recordEvent_def case_prod_beta enqueueDeliveries_def delivery_targets_def insert_event_def
        Let_def SYSTEM_OWNER_def sample_event_def sample_hook_def listWebhooks_def typeMatches_def parseStoredFilters_def
        empty_activity_def events_db.extend_def enqueue_one_def newest_ids_def KEEP_DELIVERIES_def List.map_filter_def)
  then obtain d where d: "d \<in> set (deliveries s')"
    by (meson hd_in_set)
  then show ?thesis
    using deliveries_stay_in_account [OF eq d] eq none by (auto simp: sample_event_def)
qed

end
