(* ===== verification/Edge_Cache.thy ===== *)
theory Edge_Cache
  imports Sproutboat_Prelude
begin

text \<open>
  The response cache of the edge (\<open>src/services/edge/src/cache.ts\<close>), its policy, and the
  \<open>Cache-Control\<close> of static assets (\<open>asset-cache-control.ts\<close>). A \<open>Map\<close> is an association list in
  insertion order, so storing an existing key keeps its place. Bodies are byte strings. The clock
  and \<open>Date.parse\<close> are arguments.
\<close>

section \<open>Policy\<close>

definition cacheRequestEligible :: "string \<Rightarrow> (string \<Rightarrow> bool) \<Rightarrow> bool" where
  "cacheRequestEligible meth has \<longleftrightarrow>
     meth = ''GET'' \<and> \<not> has ''authorization'' \<and> \<not> has ''cookie'' \<and>
     \<not> list_ex has [''cache-control'', ''pragma'', ''if-match'', ''if-modified-since'', ''if-none-match'',
                   ''if-unmodified-since'', ''range'']"

text \<open>
  The regular expressions anchor a directive at the start or after a comma and end it before the
  next comma, so they look at the comma-separated segments one by one.
\<close>

definition cc_segments :: "string \<Rightarrow> string list" where
  "cc_segments s = split_on CHR '','' s"

text \<open>\<open>\s*name\<close>: what follows the name in a segment that starts with it.\<close>

definition after_name :: "string \<Rightarrow> string \<Rightarrow> string option" where
  "after_name name seg =
     (let r = dropWhile is_space seg in if starts_with r name then Some (drop (length name) r) else None)"

definition forbids_caching :: "string \<Rightarrow> bool" where
  "forbids_caching seg =
     list_ex (\<lambda>name. case after_name name seg of
                None \<Rightarrow> False
              | Some r \<Rightarrow> (case dropWhile is_space r of
                             [] \<Rightarrow> True
                           | c # v \<Rightarrow> c = CHR ''='' \<and> v \<noteq> []))
       [''no-store'', ''private'', ''no-cache'']"

text \<open>\<open>\s*name\s*=\s*([^,]+)\<close>: the group, which backtracks to one space when only spaces follow.\<close>

definition directive_value :: "string \<Rightarrow> string \<Rightarrow> string option" where
  "directive_value name seg =
     (case after_name name seg of
        None \<Rightarrow> None
      | Some r \<Rightarrow> (case dropWhile is_space r of
                     [] \<Rightarrow> None
                   | c # v \<Rightarrow> if c \<noteq> CHR ''='' \<or> v = [] then None
                              else if dropWhile is_space v = [] then Some [last v]
                              else Some (dropWhile is_space v)))"

datatype directive_result = Absent | Malformed | Seconds nat

definition directive :: "string \<Rightarrow> string \<Rightarrow> directive_result" where
  "directive cc name =
     (case List.map_filter (directive_value name) (cc_segments cc) of
        [] \<Rightarrow> Absent
      | [v] \<Rightarrow> if all_digits v then Seconds (dec_val v) else Malformed
      | _ \<Rightarrow> Malformed)"

definition cacheableForSeconds :: "string option \<Rightarrow> nat option" where
  "cacheableForSeconds cacheControl =
     (case cacheControl of
        None \<Rightarrow> None
      | Some raw \<Rightarrow>
          if raw = [] then None
          else
            let cc = to_lower raw
            in if list_ex forbids_caching (cc_segments cc) then None
               else (case (directive cc ''s-maxage'', directive cc ''max-age'') of
                       (Malformed, _) \<Rightarrow> None
                     | (_, Malformed) \<Rightarrow> None
                     | (Seconds n, _) \<Rightarrow> if n > 0 then Some n else None
                     | (Absent, Seconds n) \<Rightarrow> if n > 0 then Some n else None
                     | (Absent, Absent) \<Rightarrow> None))"

definition says_public :: "string \<Rightarrow> bool" where
  "says_public control =
     list_ex (\<lambda>seg. case after_name ''public'' seg of None \<Rightarrow> False | Some r \<Rightarrow> dropWhile is_space r = [])
       (cc_segments (to_lower control))"

definition cacheResponseEligible ::
    "(string \<Rightarrow> ms option) \<Rightarrow> (string \<Rightarrow> string option) \<Rightarrow> ms \<Rightarrow> (ms \<times> ms) option" where
  "cacheResponseEligible parse_date headers now =
     (case headers ''cache-control'' of
        None \<Rightarrow> None
      | Some control \<Rightarrow>
          if control = [] \<or> \<not> says_public control then None
          else if headers ''vary'' \<noteq> None \<or> headers ''set-cookie'' \<noteq> None \<or> headers ''age'' \<noteq> None then None
          else (case cacheableForSeconds (Some control) of
                  None \<Rightarrow> None
                | Some seconds \<Rightarrow>
                    (case (case headers ''date'' of
                             None \<Rightarrow> Some now
                           | Some d \<Rightarrow> if d = [] then Some now else parse_date d) of
                       None \<Rightarrow> None
                     | Some dateMs \<Rightarrow>
                         if dateMs > now then None
                         else let expiresAt = dateMs + int seconds * 1000
                              in if now < expiresAt then Some (expiresAt, dateMs) else None)))"

section \<open>The cache\<close>

record cached_response =
  cr_status :: nat
  cr_headers :: "(string \<times> string) list"
  cr_body :: string
  cr_expiresAt :: ms
  cr_storedAt :: ms
  cr_ageAtStore :: int

record edge_cache =
  ec_entries :: "(string \<times> cached_response) list"
  ec_bytes :: int

record cache_limits =
  maxEntries :: nat
  maxBytes :: nat
  maxEntryBytes :: nat

definition default_limits :: cache_limits where
  "default_limits = \<lparr>maxEntries = 500, maxBytes = 64 * 1024 * 1024, maxEntryBytes = 512 * 1024\<rparr>"

definition CACHEABLE_STATUS :: "nat list" where
  "CACHEABLE_STATUS = [200, 203, 301, 404, 410]"

definition cache_key :: "string \<Rightarrow> string \<Rightarrow> string \<Rightarrow> string" where
  "cache_key host meth path = meth @ '' '' @ host @ '' '' @ path"

definition cache_get :: "ms \<Rightarrow> string \<Rightarrow> edge_cache \<Rightarrow> edge_cache \<times> cached_response option" where
  "cache_get now key c =
     (case map_of (ec_entries c) key of
        None \<Rightarrow> (c, None)
      | Some hit \<Rightarrow>
          if cr_expiresAt hit \<le> now
          then (c\<lparr>ec_entries := AList.delete key (ec_entries c), ec_bytes := ec_bytes c - int (length (cr_body hit))\<rparr>, None)
          else (c, Some hit))"

text \<open>The eviction loop: drop the oldest entry while there are too many entries or bytes.\<close>

fun evict :: "cache_limits \<Rightarrow> (string \<times> cached_response) list \<Rightarrow> int \<Rightarrow> (string \<times> cached_response) list \<times> int" where
  "evict lm [] bytes = ([], bytes)"
| "evict lm (e # es) bytes =
     (if length (e # es) > maxEntries lm \<or> bytes > int (maxBytes lm)
      then evict lm es (bytes - int (length (cr_body (snd e)))) else (e # es, bytes))"

definition cache_set :: "cache_limits \<Rightarrow> string \<Rightarrow> cached_response \<Rightarrow> edge_cache \<Rightarrow> edge_cache \<times> bool" where
  "cache_set lm key r c =
     (if cr_status r \<notin> set CACHEABLE_STATUS \<or> length (cr_body r) > maxEntryBytes lm then (c, False)
      else
        let old = (case map_of (ec_entries c) key of None \<Rightarrow> 0 | Some e \<Rightarrow> int (length (cr_body e)));
            (es, b) = evict lm (AList.update key r (ec_entries c)) (ec_bytes c - old + int (length (cr_body r)))
        in (\<lparr>ec_entries = es, ec_bytes = b\<rparr>, True))"

definition purgeHost :: "string \<Rightarrow> edge_cache \<Rightarrow> edge_cache" where
  "purgeHost host c =
     (let hit = (\<lambda>x. case split_on CHR '' '' (fst x) of _ # h # _ \<Rightarrow> h = host | _ \<Rightarrow> False)
      in \<lparr>ec_entries = filter (\<lambda>x. \<not> hit x) (ec_entries c),
          ec_bytes = ec_bytes c - (\<Sum>x \<leftarrow> filter hit (ec_entries c). int (length (cr_body (snd x))))\<rparr>)"

section \<open>Asset caching\<close>

fun split_tokens :: "(char \<Rightarrow> bool) \<Rightarrow> string \<Rightarrow> string list" where
  "split_tokens P [] = [[]]"
| "split_tokens P (x # xs) =
     (if P x then [] # split_tokens P xs
      else (case split_tokens P xs of [] \<Rightarrow> [[x]] | w # ws \<Rightarrow> (x # w) # ws))"

definition isFingerprinted :: "string \<Rightarrow> bool" where
  "isFingerprinted assetKey =
     (let filename = last (split_on CHR ''/'' assetKey)
      in list_ex (\<lambda>t. length t \<ge> 8 \<and> list_ex is_digit t \<and> list_ex (\<lambda>c. is_lower c \<or> is_upper c) t)
           (split_tokens (\<lambda>c. c \<in> {CHR ''.'', CHR ''-'', CHR ''_''}) filename))"

definition cacheControlFor :: "string \<Rightarrow> string" where
  "cacheControlFor assetKey =
     (if isFingerprinted assetKey then ''public, max-age=31536000, immutable'' else ''public, max-age=86400'')"

section \<open>Bounds\<close>

definition body_bytes :: "(string \<times> cached_response) list \<Rightarrow> int" where
  "body_bytes es = (\<Sum>x \<leftarrow> es. int (length (cr_body (snd x))))"

definition cache_ok :: "cache_limits \<Rightarrow> edge_cache \<Rightarrow> bool" where
  "cache_ok lm c \<longleftrightarrow>
     distinct (map fst (ec_entries c)) \<and> ec_bytes c = body_bytes (ec_entries c) \<and>
     length (ec_entries c) \<le> maxEntries lm \<and> ec_bytes c \<le> int (maxBytes lm)"

lemma body_bytes_simps [simp]:
  "body_bytes [] = 0"
  "body_bytes (x # es) = int (length (cr_body (snd x))) + body_bytes es"
  "body_bytes (es @ fs) = body_bytes es + body_bytes fs"
  by (simp_all add: body_bytes_def)

lemma body_bytes_nonneg [simp]: "0 \<le> body_bytes es"
  by (induction es) auto

lemma evict_ok:
  assumes "bytes = body_bytes es" "evict lm es bytes = (es', b')"
  shows "\<exists>gone. es = gone @ es' \<and> b' = body_bytes es' \<and> length es' \<le> maxEntries lm \<and> b' \<le> int (maxBytes lm)"
  using assms
proof (induction lm es bytes rule: evict.induct)
  case (2 lm e es bytes)
  show ?case
  proof (cases "length (e # es) > maxEntries lm \<or> bytes > int (maxBytes lm)")
    case True
    have "bytes - int (length (cr_body (snd e))) = body_bytes es"
      using 2(2) by simp
    moreover have "evict lm es (bytes - int (length (cr_body (snd e)))) = (es', b')"
      using 2(3) True by (simp only: evict.simps if_True)
    ultimately obtain gone where "es = gone @ es' \<and> b' = body_bytes es' \<and> length es' \<le> maxEntries lm \<and> b' \<le> int (maxBytes lm)"
      using 2(1) [OF True] by blast
    then show ?thesis
      by (intro exI [of _ "e # gone"]) simp
  next
    case False
    then have "es' = e # es" "b' = bytes"
      using 2(3) by (simp_all only: evict.simps if_False prod.inject)
    then show ?thesis
      using 2(2) False by (intro exI [of _ "[]"]) (simp add: not_less)
  qed
qed simp

lemma body_bytes_update:
  "distinct (map fst es) \<Longrightarrow> body_bytes (AList.update k r es) =
     body_bytes es - (case map_of es k of None \<Rightarrow> 0 | Some e \<Rightarrow> int (length (cr_body e))) + int (length (cr_body r))"
  by (induction es) (auto split: option.splits)

lemma body_bytes_delete:
  "distinct (map fst es) \<Longrightarrow> map_of es k = Some e \<Longrightarrow> body_bytes (AList.delete k es) = body_bytes es - int (length (cr_body e))"
proof (induction es)
  case (Cons x es)
  show ?case
  proof (cases "fst x = k")
    case True
    then have "k \<notin> fst ` set es"
      using Cons.prems by auto
    then have "AList.delete k es = es"
      by (simp add: delete_idem)
    then show ?thesis
      using Cons.prems True by (cases x) auto
  next
    case False
    then show ?thesis
      using Cons by (cases x) auto
  qed
qed simp

lemma body_bytes_split: "body_bytes (filter P es) + body_bytes (filter (\<lambda>x. \<not> P x) es) = body_bytes es"
  by (induction es) auto

lemma cache_get_ok: "cache_ok lm c \<Longrightarrow> cache_ok lm (fst (cache_get now key c))"
  using length_delete_le [of key "ec_entries c"]
  by (auto simp: cache_ok_def cache_get_def distinct_delete body_bytes_delete split: option.splits)

lemma cache_set_result:
  assumes "cache_ok lm c" "cr_status r \<in> set CACHEABLE_STATUS" "length (cr_body r) \<le> maxEntryBytes lm"
  obtains gone es where "AList.update key r (ec_entries c) = gone @ es"
    "cache_set lm key r c = (\<lparr>ec_entries = es, ec_bytes = body_bytes es\<rparr>, True)"
    "length es \<le> maxEntries lm" "body_bytes es \<le> int (maxBytes lm)"
proof -
  let ?up = "AList.update key r (ec_entries c)"
  let ?b = "ec_bytes c - (case map_of (ec_entries c) key of None \<Rightarrow> 0 | Some e \<Rightarrow> int (length (cr_body e))) + int (length (cr_body r))"
  obtain es b where ev: "evict lm ?up ?b = (es, b)"
    by (metis surj_pair)
  have "?b = body_bytes ?up"
    using assms(1) by (simp add: cache_ok_def body_bytes_update)
  from evict_ok [OF this ev] show thesis
    using that assms(2,3) ev by (auto simp: cache_set_def Let_def)
qed

lemma cache_set_ok:
  assumes "cache_ok lm c"
  shows "cache_ok lm (fst (cache_set lm key r c))"
proof (cases "cr_status r \<in> set CACHEABLE_STATUS \<and> length (cr_body r) \<le> maxEntryBytes lm")
  case True
  then obtain gone es where up: "AList.update key r (ec_entries c) = gone @ es"
    and set: "cache_set lm key r c = (\<lparr>ec_entries = es, ec_bytes = body_bytes es\<rparr>, True)"
    "length es \<le> maxEntries lm" "body_bytes es \<le> int (maxBytes lm)"
    using cache_set_result [OF assms] by metis
  have "distinct (map fst (gone @ es))"
    using assms unfolding up [symmetric] by (simp add: cache_ok_def distinct_update)
  then show ?thesis
    using set by (simp add: cache_ok_def)
next
  case False
  then have "fst (cache_set lm key r c) = c"
    by (auto simp: cache_set_def)
  then show ?thesis
    using assms by simp
qed

lemma purge_ok: "cache_ok lm c \<Longrightarrow> cache_ok lm (purgeHost host c)"
proof -
  assume ok: "cache_ok lm c"
  define hit where "hit x = (case split_on CHR '' '' (fst x) of _ # h # _ \<Rightarrow> h = host | _ \<Rightarrow> False)" for x :: "string \<times> cached_response"
  have eq: "purgeHost host c = \<lparr>ec_entries = filter (\<lambda>x. \<not> hit x) (ec_entries c),
      ec_bytes = ec_bytes c - body_bytes (filter hit (ec_entries c))\<rparr>"
    by (simp add: purgeHost_def hit_def [abs_def] body_bytes_def Let_def)
  have "length (filter (\<lambda>x. \<not> hit x) (ec_entries c)) \<le> maxEntries lm"
    using ok length_filter_le order_trans unfolding cache_ok_def by blast
  moreover have "body_bytes (filter (\<lambda>x. \<not> hit x) (ec_entries c)) = body_bytes (ec_entries c) - body_bytes (filter hit (ec_entries c))"
    using body_bytes_split [of hit "ec_entries c"] by simp
  moreover have "0 \<le> body_bytes (filter hit (ec_entries c))"
    by simp
  ultimately show ?thesis
    using ok unfolding cache_ok_def eq by (auto simp del: body_bytes_nonneg)
qed

datatype cache_op =
    CacheGet ms string
  | CacheSet string cached_response
  | PurgeHost string

fun cache_step :: "cache_limits \<Rightarrow> edge_cache \<Rightarrow> cache_op \<Rightarrow> edge_cache" where
  "cache_step lm c (CacheGet now key) = fst (cache_get now key c)"
| "cache_step lm c (CacheSet key r) = fst (cache_set lm key r c)"
| "cache_step lm c (PurgeHost host) = purgeHost host c"

definition empty_cache :: edge_cache where
  "empty_cache = \<lparr>ec_entries = [], ec_bytes = 0\<rparr>"

lemma cache_step_ok: "cache_ok lm c \<Longrightarrow> cache_ok lm (cache_step lm c a)"
  by (cases a) (auto intro: cache_get_ok cache_set_ok purge_ok)

interpretation cache: machine empty_cache "cache_step lm" "cache_ok lm" for lm
  by unfold_locales (simp add: cache_ok_def empty_cache_def, rule cache_step_ok)

text \<open>
  C28: over any sequence of lookups, stores and purges the byte counter is the total size of the
  bodies held, and neither the entry count nor the byte count exceeds its cap.
\<close>

theorem cache_bounded:
  "let c = foldl (cache_step lm) empty_cache ops
   in ec_bytes c = (\<Sum>x \<leftarrow> ec_entries c. int (length (cr_body (snd x)))) \<and>
      length (ec_entries c) \<le> maxEntries lm \<and> ec_bytes c \<le> int (maxBytes lm) \<and> distinct (map fst (ec_entries c))"
  using cache.run_inv [of lm ops] by (simp add: cache.run_def cache_ok_def body_bytes_def Let_def)

section \<open>Storing and reading back\<close>

lemma evict_keeps_last:
  assumes "bytes = body_bytes (xs @ [x])" "length (cr_body (snd x)) \<le> maxBytes lm" "0 < maxEntries lm"
  shows "\<exists>ys zs. xs = zs @ ys \<and> fst (evict lm (xs @ [x]) bytes) = ys @ [x]"
  using assms
proof (induction xs arbitrary: bytes)
  case Nil
  then show ?case
    by (cases "maxEntries lm") auto
next
  case (Cons y xs)
  show ?case
  proof (cases "length (y # xs @ [x]) > maxEntries lm \<or> bytes > int (maxBytes lm)")
    case True
    obtain ys zs where "xs = zs @ ys" "fst (evict lm (xs @ [x]) (bytes - int (length (cr_body (snd y))))) = ys @ [x]"
      using Cons.IH [of "bytes - int (length (cr_body (snd y)))", OF _ Cons.prems(2,3)] Cons.prems(1) by fastforce
    moreover have "evict lm ((y # xs) @ [x]) bytes = evict lm (xs @ [x]) (bytes - int (length (cr_body (snd y))))"
      using True by (simp only: append_Cons evict.simps if_True)
    ultimately show ?thesis
      by (intro exI [of _ ys] exI [of _ "y # zs"]) simp
  next
    case False
    then have "fst (evict lm ((y # xs) @ [x]) bytes) = (y # xs) @ [x]"
      by (simp only: append_Cons evict.simps if_False fst_conv)
    then show ?thesis
      by blast
  qed
qed

lemma update_new: "k \<notin> fst ` set es \<Longrightarrow> AList.update k r es = es @ [(k, r)]"
  by (induction es) auto

lemma cache_set_new:
  assumes "cache_ok lm c" "key \<notin> fst ` set (ec_entries c)"
    and "cr_status r \<in> set CACHEABLE_STATUS" "length (cr_body r) \<le> maxEntryBytes lm"
    and "maxEntryBytes lm \<le> maxBytes lm" "0 < maxEntries lm"
  obtains ys where "cache_set lm key r c = (\<lparr>ec_entries = ys @ [(key, r)], ec_bytes = body_bytes (ys @ [(key, r)])\<rparr>, True)"
    "key \<notin> fst ` set ys"
proof -
  have up: "AList.update key r (ec_entries c) = ec_entries c @ [(key, r)]"
    by (rule update_new [OF assms(2)])
  let ?b = "body_bytes (ec_entries c @ [(key, r)])"
  obtain ys zs where yz: "ec_entries c = zs @ ys" "fst (evict lm (ec_entries c @ [(key, r)]) ?b) = ys @ [(key, r)]"
    using evict_keeps_last [OF refl, of "(key, r)" lm "ec_entries c"] order_trans [OF assms(4,5)] assms(6) by fastforce
  obtain gone es where "cache_set lm key r c = (\<lparr>ec_entries = es, ec_bytes = body_bytes es\<rparr>, True)"
    using cache_set_result [OF assms(1,3,4)] by metis
  moreover have "map_of (ec_entries c) key = None"
    using assms(2) by (simp add: map_of_eq_None_iff)
  then have "ec_entries (fst (cache_set lm key r c)) = ys @ [(key, r)]"
    using assms(1,3,4) yz(2) by (simp add: cache_set_def up cache_ok_def case_prod_beta Let_def)
  ultimately show thesis
    using that [of ys] yz(1) assms(2) by auto
qed

text \<open>
  C29: a response stored under a new key can be read back, as stored, until it expires, and not
  after; and a purge of its host removes it at once.
\<close>

theorem cache_roundtrip:
  assumes "cache_ok lm c" and "cache_key host meth path \<notin> fst ` set (ec_entries c)"
    and "cr_status r \<in> set CACHEABLE_STATUS" and "length (cr_body r) \<le> maxEntryBytes lm"
    and "maxEntryBytes lm \<le> maxBytes lm" and "0 < maxEntries lm"
    and "CHR '' '' \<notin> set meth" and "CHR '' '' \<notin> set host"
  shows "\<exists>c'. cache_set lm (cache_key host meth path) r c = (c', True) \<and>
    snd (cache_get now (cache_key host meth path) c') = (if now < cr_expiresAt r then Some r else None) \<and>
    snd (cache_get now (cache_key host meth path) (purgeHost host c')) = None"
proof -
  let ?k = "cache_key host meth path"
  obtain ys where set: "cache_set lm ?k r c = (\<lparr>ec_entries = ys @ [(?k, r)], ec_bytes = body_bytes (ys @ [(?k, r)])\<rparr>, True)"
    and new: "?k \<notin> fst ` set ys"
    using cache_set_new [OF assms(1-6)] by metis
  let ?c = "\<lparr>ec_entries = ys @ [(?k, r)], ec_bytes = body_bytes (ys @ [(?k, r)])\<rparr>"
  have look: "map_of (ys @ [(?k, r)]) ?k = Some r"
    using new by (simp add: map_add_def map_of_eq_None_iff [THEN iffD2])
  have one: "split_on d s = [s]" if "d \<notin> set s" for d s
    using that by (induction s) auto
  have "split_on CHR '' '' ?k = meth # host # split_on CHR '' '' path"
    using split_on_append [of "CHR '' ''" meth "host @ '' '' @ path"]
      split_on_append [of "CHR '' ''" host path] one [OF assms(7)] one [OF assms(8)]
    by (simp add: cache_key_def)
  then have "?k \<notin> fst ` set (ec_entries (purgeHost host ?c))"
    by (auto simp: purgeHost_def Let_def)
  then have "map_of (ec_entries (purgeHost host ?c)) ?k = None"
    by (simp add: map_of_eq_None_iff)
  then have "snd (cache_get now ?k (purgeHost host ?c)) = None"
    by (simp add: cache_get_def)
  moreover have "snd (cache_get now ?k ?c) = (if now < cr_expiresAt r then Some r else None)"
    using look by (simp add: cache_get_def)
  ultimately show ?thesis
    using set by blast
qed

definition sample_response :: "nat \<Rightarrow> cached_response" where
  "sample_response n = \<lparr>cr_status = 200, cr_headers = [], cr_body = replicate n CHR ''x'', cr_expiresAt = 100,
     cr_storedAt = 0, cr_ageAtStore = 0\<rparr>"

theorem cache_roundtrip_witness:
  "\<exists>c'. cache_set default_limits (cache_key ''h'' ''GET'' ''/'') (sample_response 3) empty_cache = (c', True) \<and>
     snd (cache_get 5 (cache_key ''h'' ''GET'' ''/'') c') = Some (sample_response 3)"
proof -
  have "cache_ok default_limits empty_cache"
    by (simp add: cache_ok_def empty_cache_def)
  from cache_roundtrip [OF this, of "''h''" "''GET''" "''/''" "sample_response 3" 5] show ?thesis
    by (auto simp: empty_cache_def sample_response_def CACHEABLE_STATUS_def default_limits_def)
qed

text \<open>
  Storing a larger response under a key that is already the oldest entry can evict that very
  entry, since a \<open>Map\<close> keeps the place of an existing key: the call still answers that it stored
  the response.
\<close>

theorem cache_set_can_drop_its_own_entry:
  "let lm = \<lparr>maxEntries = 5, maxBytes = 10, maxEntryBytes = 8\<rparr>;
       c = foldl (cache_step lm) empty_cache [CacheSet ''a'' (sample_response 2), CacheSet ''b'' (sample_response 7)];
       r = cache_set lm ''a'' (sample_response 4) c
   in snd r = True \<and> snd (cache_get 0 ''a'' (fst r)) = None \<and> snd (cache_get 0 ''b'' (fst r)) = Some (sample_response 7)"
  by (simp add: Let_def cache_set_def cache_get_def sample_response_def CACHEABLE_STATUS_def empty_cache_def)

end
