(* ===== verification/Sqlite_Guard.thy ===== *)
theory Sqlite_Guard
  imports Sproutboat_Prelude
begin

text \<open>
  The screen for tenant SQL (\<open>src/services/supervisor/src/sqlite-guard.ts\<close>). SQL is its UTF-8
  bytes: every byte above 127 belongs to a character the source's pattern takes for a word
  character. The tokenizer works on the rest of the text instead of an index. Lower-casing is that
  of ASCII letters: of all other characters only the Kelvin sign and the dotted capital I have a
  lower case with an ASCII letter in it, and no keyword the screen looks for holds a k or an i.
\<close>

section \<open>Tokens\<close>

datatype token = Word string | Punct char | Other

definition sql_space :: "char \<Rightarrow> bool" where
  "sql_space c \<longleftrightarrow> c \<in> {CHR '' '', CHR 0x09, CHR 0x0A, CHR 0x0D, CHR 0x0C, CHR 0x0B}"

definition word_char :: "char \<Rightarrow> bool" where
  "word_char c \<longleftrightarrow> is_lower c \<or> is_upper c \<or> is_digit c \<or> c = CHR ''_'' \<or> c = CHR ''$'' \<or> (of_char c :: nat) \<ge> 128"

text \<open>\<open>sql.indexOf("*/", i + 2)\<close>: what follows the end of a block comment.\<close>

fun skip_block :: "string \<Rightarrow> string" where
  "skip_block [] = []"
| "skip_block [c] = []"
| "skip_block (c # d # s) = (if c = CHR ''*'' \<and> d = CHR ''/'' then s else skip_block (d # s))"

text \<open>A line comment ends after its newline.\<close>

definition skip_line :: "string \<Rightarrow> string" where
  "skip_line s = drop 1 (dropWhile (\<lambda>c. c \<noteq> CHR 0x0A) s)"

text \<open>
  A quoted token: its text with doubled quotes undone, and the rest. In brackets a doubled
  bracket does not escape, but the text still has its \<open>]]\<close> pairs merged (there are none).
\<close>

fun quoted :: "char \<Rightarrow> string \<Rightarrow> string \<times> string" where
  "quoted q [] = ([], [])"
| "quoted q [c] = (if c = q then ([], []) else ([c], []))"
| "quoted q (c # d # s) =
     (if c \<noteq> q then (let r = quoted q (d # s) in (c # fst r, snd r))
      else if q \<noteq> CHR '']'' \<and> d = q then (let r = quoted q s in (q # fst r, snd r))
      else ([], d # s))"

lemma quoted_shorter: "length (snd (quoted q s)) \<le> length s"
  by (induction q s rule: quoted.induct) (auto simp: Let_def)

lemma skip_block_shorter: "length (skip_block s) \<le> length s"
  by (induction s rule: skip_block.induct) auto

lemma skip_line_shorter: "length (skip_line s) \<le> length s"
  using length_dropWhile_le [of "\<lambda>c. c \<noteq> CHR 0x0A" s] by (simp add: skip_line_def)

definition push :: "token \<Rightarrow> token list list \<Rightarrow> token list list" where
  "push t out = butlast out @ [last out @ [t]]"

text \<open>\<open>starts_with2 a b s\<close>: the text begins with the two characters.\<close>

definition starts_with2 :: "char \<Rightarrow> char \<Rightarrow> string \<Rightarrow> bool" where
  "starts_with2 a b s = (case s of x # y # _ \<Rightarrow> x = a \<and> y = b | _ \<Rightarrow> False)"

function tokens :: "string \<Rightarrow> token list list \<Rightarrow> token list list" where
  "tokens [] out = out"
| "tokens (c # s) out =
     (if sql_space c then tokens s out
      else if starts_with2 CHR ''-'' CHR ''-'' (c # s) then tokens (skip_line s) out
      else if starts_with2 CHR ''/'' CHR ''*'' (c # s) then tokens (skip_block (tl s)) out
      else if c \<in> {CHR 0x27, CHR 0x22, CHR 0x60, CHR ''[''} then
        let q = (if c = CHR ''['' then CHR '']'' else c); r = quoted q s
        in tokens (snd r) (push (if c = CHR 0x27 then Other else Word (to_lower (fst r))) out)
      else if c = CHR '';'' then tokens s (out @ [[]])
      else if word_char c then
        tokens (dropWhile word_char s) (push (Word (to_lower (c # takeWhile word_char s))) out)
      else tokens s (push (Punct c) out))"
  by pat_completeness auto
termination
proof (relation "measure (\<lambda>(s, out). length s)")
  fix c :: char and s :: string and out :: "token list list"
  show "((skip_line s, out), (c # s, out)) \<in> measure (\<lambda>(s, out). length s)"
    using skip_line_shorter [of s] by simp
  show "((skip_block (tl s), out), (c # s, out)) \<in> measure (\<lambda>(s, out). length s)"
    using skip_block_shorter [of "tl s"] by simp
  show "((dropWhile word_char s, push (Word (to_lower (c # takeWhile word_char s))) out), (c # s, out))
      \<in> measure (\<lambda>(s, out). length s)"
    using length_dropWhile_le [of word_char s] by simp
next
  fix c :: char and s :: string and out :: "token list list" and q r
  assume "r = quoted q s"
  then show "((snd r, push (if c = CHR 0x27 then Other else Word (to_lower (fst r))) out), (c # s, out))
      \<in> measure (\<lambda>(s, out). length s)"
    using quoted_shorter [of q s] by simp
qed auto

definition statements :: "string \<Rightarrow> token list list" where
  "statements sql = tokens sql [[]]"

section \<open>The screen\<close>

definition D1_PRAGMAS :: "string list" where
  "D1_PRAGMAS = [''table_list'', ''table_info'', ''table_xinfo'', ''index_list'', ''index_info'', ''index_xinfo'',
     ''quick_check'', ''foreign_key_list'', ''foreign_key_check'', ''foreign_keys'', ''defer_foreign_keys'',
     ''case_sensitive_like'', ''ignore_check_constraints'', ''legacy_alter_table'', ''recursive_triggers'',
     ''reverse_unordered_selects'', ''optimize'']"

definition BROKER_PRAGMAS :: "string list" where
  "BROKER_PRAGMAS = [''journal_mode'', ''synchronous'', ''busy_timeout'', ''integrity_check'', ''user_version'',
     ''wal_checkpoint'', ''trusted_schema'']"

definition ALLOWED_PRAGMAS :: "string list" where
  "ALLOWED_PRAGMAS = D1_PRAGMAS @ BROKER_PRAGMAS"

text \<open>The text of a token: a string literal's is its quote, a punctuation mark's itself.\<close>

definition token_text :: "token \<Rightarrow> string" where
  "token_text t = (case t of Word w \<Rightarrow> w | Punct c \<Rightarrow> [c] | Other \<Rightarrow> [CHR 0x27])"

definition text_at :: "token list \<Rightarrow> nat \<Rightarrow> string option" where
  "text_at ts i = (if i < length ts then Some (token_text (ts ! i)) else None)"

definition skip_explain :: "token list \<Rightarrow> token list" where
  "skip_explain ts =
     (case ts of
        Word w # rest \<Rightarrow>
          if w = ''explain''
          then if text_at rest 0 = Some ''query'' \<and> text_at rest 1 = Some ''plan'' then drop 2 rest else rest
          else ts
      | _ \<Rightarrow> ts)"

definition pragma_name :: "token list \<Rightarrow> token option" where
  "pragma_name rest =
     (if text_at rest 1 = Some ''.'' \<and> 2 < length rest then Some (rest ! 2)
      else if rest = [] then None else Some (rest ! 0))"

text \<open>\<open>Some kind\<close> is the \<open>SqliteGuardError\<close> thrown for the statement.\<close>

definition screen_statement :: "token list \<Rightarrow> string option" where
  "screen_statement ts =
     (case skip_explain ts of
        Word w # rest \<Rightarrow>
          if w = ''attach'' \<or> w = ''detach'' then Some (to_upper w)
          else if w = ''vacuum'' then (if Word ''into'' \<in> set rest then Some ''VACUUM INTO'' else None)
          else if w = ''pragma'' then
            (case pragma_name rest of
               Some (Word n) \<Rightarrow> if n \<in> set ALLOWED_PRAGMAS then None else Some (js_trim (''PRAGMA '' @ n))
             | Some t \<Rightarrow> Some (js_trim (''PRAGMA '' @ token_text t))
             | None \<Rightarrow> Some ''PRAGMA'')
          else None
      | _ \<Rightarrow> None)"

definition screenSql :: "string \<Rightarrow> string option" where
  "screenSql sql =
     (case List.map_filter screen_statement (statements sql) of [] \<Rightarrow> None | e # _ \<Rightarrow> Some e)"

definition BROKER_BACKUP :: string where
  "BROKER_BACKUP = ''VACUUM INTO ?''"

datatype db_method = Exec | Run | Prepare | Query

text \<open>
  The process state \<open>installSqliteGuard\<close> works on: the connections already seen (the weak set
  \<open>guarded\<close>) and the statements SQLite has run, oldest first, each with its connection.
\<close>

record sqlite_process =
  guarded :: "nat set"
  executed :: "(nat \<times> string) list"

definition TRUSTED_SCHEMA_OFF :: string where
  "TRUSTED_SCHEMA_OFF = ''PRAGMA trusted_schema = OFF''"

definition skip_of :: "db_method \<Rightarrow> string option" where
  "skip_of m = (if m = Run then Some BROKER_BACKUP else None)"

text \<open>The wrapper around each method: \<open>Inl\<close> is the error thrown before the original is called.\<close>

definition screened :: "db_method \<Rightarrow> nat \<Rightarrow> string \<Rightarrow> sqlite_process \<Rightarrow> (string + unit) \<times> sqlite_process" where
  "screened m d sql p =
     (let p1 = (if d \<in> guarded p then p
                else p\<lparr>guarded := insert d (guarded p), executed := executed p @ [(d, TRUSTED_SCHEMA_OFF)]\<rparr>)
      in case (if skip_of m = Some sql then None else screenSql sql) of
           Some e \<Rightarrow> (Inl e, p1)
         | None \<Rightarrow> (Inr (), p1\<lparr>executed := executed p1 @ [(d, sql)]\<rparr>))"

section \<open>Where statements split\<close>

text \<open>The text ends outside quotes and comments: a semicolon after it opens a new statement.\<close>

definition complete_sql :: "string \<Rightarrow> bool" where
  "complete_sql pre \<longleftrightarrow> statements (pre @ '';'') = statements pre @ [[]]"

lemma starts_with2_append [simp]:
  "b \<noteq> d \<Longrightarrow> starts_with2 a b (c # s @ d # x) = starts_with2 a b (c # s)"
  by (cases s) (auto simp: starts_with2_def)

lemma skip_line_append:
  "skip_line (s @ y) = (if CHR 0x0A \<in> set s then skip_line s @ y else skip_line y)"
  by (induction s) (auto simp: skip_line_def)

lemma skip_block_append:
  "skip_block s = [] \<and> skip_block (s @ '';'') = [] \<or> (\<forall>y. skip_block (s @ y) = skip_block s @ y)"
  by (induction s rule: skip_block.induct) auto

lemma quoted_append:
  "q \<noteq> CHR '';'' \<Longrightarrow>
   snd (quoted q s) = [] \<and> snd (quoted q (s @ '';'')) = []
   \<or> (\<forall>y. quoted q (s @ CHR '';'' # y) = (fst (quoted q s), snd (quoted q s) @ CHR '';'' # y))"
  by (induction q s rule: quoted.induct) (auto simp: Let_def split: if_splits)

lemma push_length: "length (push t out) = Suc (length out - 1)"
  by (simp add: push_def)

lemma push_prefix: "push t (ys @ [zs]) = ys @ push t [zs]"
  by (simp add: push_def)

lemma push_single: "push t [zs] = [zs @ [t]]"
  by (simp add: push_def)

lemma not_word_semicolon [simp]: "\<not> word_char CHR '';''"
  by code_simp

lemma word_run_append [simp]:
  "takeWhile word_char (s @ CHR '';'' # x) = takeWhile word_char s"
  "dropWhile word_char (s @ CHR '';'' # x) = dropWhile word_char s @ CHR '';'' # x"
  by (induction s) auto

definition quote_end :: "char \<Rightarrow> char" where
  "quote_end c = (if c = CHR ''['' then CHR '']'' else c)"

definition quote_token :: "char \<Rightarrow> string \<Rightarrow> token" where
  "quote_token c w = (if c = CHR 0x27 then Other else Word (to_lower w))"

lemma starts_with2_hd: "c \<noteq> a \<Longrightarrow> \<not> starts_with2 a b (c # s)"
  by (cases s) (auto simp: starts_with2_def)

declare tokens.simps(2) [simp del]

lemma tokens_space: "sql_space c \<Longrightarrow> tokens (c # s) out = tokens s out"
  by (simp only: tokens.simps(2) if_True)

lemma tokens_line:
  assumes "starts_with2 CHR ''-'' CHR ''-'' (c # s)"
  shows "tokens (c # s) out = tokens (skip_line s) out"
proof -
  have "\<not> sql_space c" using assms starts_with2_hd [of c] by (fastforce simp: sql_space_def)
  with assms show ?thesis by (subst tokens.simps(2)) simp
qed

lemma tokens_block:
  assumes "starts_with2 CHR ''/'' CHR ''*'' (c # s)"
  shows "tokens (c # s) out = tokens (skip_block (tl s)) out"
proof -
  have "c = CHR ''/''" using assms starts_with2_hd [of c] by fastforce
  with assms show ?thesis by (subst tokens.simps(2)) (simp add: sql_space_def starts_with2_hd)
qed

lemma tokens_quote:
  assumes "c \<in> {CHR 0x27, CHR 0x22, CHR 0x60, CHR ''[''}"
  shows "tokens (c # s) out =
    tokens (snd (quoted (quote_end c) s)) (push (quote_token c (fst (quoted (quote_end c) s))) out)"
proof -
  have "\<not> sql_space c" "c \<noteq> CHR ''-''" "c \<noteq> CHR ''/''" using assms by (auto simp: sql_space_def)
  with assms show ?thesis
    by (subst tokens.simps(2)) (simp only: starts_with2_hd Let_def quote_end_def quote_token_def if_True if_False
      not_False_eq_True)
qed

lemma tokens_semi: "tokens (CHR '';'' # s) out = tokens s (out @ [[]])"
  by (subst tokens.simps(2)) (simp add: starts_with2_hd sql_space_def)

lemma sql_marks_not_word:
  "\<not> word_char CHR '' ''" "\<not> word_char CHR 0x09" "\<not> word_char CHR 0x0A" "\<not> word_char CHR 0x0D"
  "\<not> word_char CHR 0x0C" "\<not> word_char CHR 0x0B" "\<not> word_char CHR ''-''" "\<not> word_char CHR ''/''"
  "\<not> word_char CHR 0x27" "\<not> word_char CHR 0x22" "\<not> word_char CHR 0x60" "\<not> word_char CHR ''[''"
  by code_simp+

lemma tokens_word:
  assumes "word_char c"
  shows "tokens (c # s) out = tokens (dropWhile word_char s) (push (Word (to_lower (c # takeWhile word_char s))) out)"
proof -
  have "\<not> sql_space c" "c \<noteq> CHR ''-''" "c \<noteq> CHR ''/''" "c \<noteq> CHR '';''"
    "c \<notin> {CHR 0x27, CHR 0x22, CHR 0x60, CHR ''[''}"
    using assms sql_marks_not_word not_word_semicolon unfolding sql_space_def by blast+
  then show ?thesis using assms by (subst tokens.simps(2)) (simp add: starts_with2_hd)
qed

lemma tokens_punct:
  assumes "\<not> sql_space c" "\<not> starts_with2 CHR ''-'' CHR ''-'' (c # s)" "\<not> starts_with2 CHR ''/'' CHR ''*'' (c # s)"
    "c \<notin> {CHR 0x27, CHR 0x22, CHR 0x60, CHR ''[''}" "c \<noteq> CHR '';''" "\<not> word_char c"
  shows "tokens (c # s) out = tokens s (push (Punct c) out)"
  using assms by (subst tokens.simps(2)) (simp del: insert_iff)

lemmas tokens_rules = tokens_space tokens_line tokens_block tokens_quote tokens_semi tokens_word tokens_punct

text \<open>The seven ways a token starts.\<close>

lemma token_start_cases:
  obtains (space) "sql_space c" | (line) "starts_with2 CHR ''-'' CHR ''-'' (c # s)"
    | (block) "starts_with2 CHR ''/'' CHR ''*'' (c # s)" | (quote) "c \<in> {CHR 0x27, CHR 0x22, CHR 0x60, CHR ''[''}"
    | (semi) "c = CHR '';''" | (word) "word_char c"
    | (punct) "\<not> sql_space c" "\<not> starts_with2 CHR ''-'' CHR ''-'' (c # s)"
      "\<not> starts_with2 CHR ''/'' CHR ''*'' (c # s)" "c \<notin> {CHR 0x27, CHR 0x22, CHR 0x60, CHR ''[''}"
      "c \<noteq> CHR '';''" "\<not> word_char c"
  by blast

text \<open>A complete text may be followed by any statement: its tokens do not change.\<close>

lemma tokens_semicolon:
  "tokens (pre @ '';'') out = tokens pre out @ [[]] \<Longrightarrow>
   tokens (pre @ CHR '';'' # x) out = tokens x (tokens pre out @ [[]])"
proof (induction pre arbitrary: out rule: length_induct)
  case (1 pre)
  note IH = 1(1) [rule_format] and eq = 1(2)
  show ?case
  proof (cases pre)
    case Nil then show ?thesis by (simp add: tokens_semi)
  next
    case (Cons c s)
    show ?thesis
    proof (cases rule: token_start_cases [where c = c and s = s])
      case space with Cons eq IH [of s out] show ?thesis by (simp add: tokens_space)
    next
      case line
      have "CHR 0x0A \<in> set s"
      proof (rule ccontr)
        assume "CHR 0x0A \<notin> set s"
        then have "skip_line s = []" "skip_line (s @ '';'') = []"
          using skip_line_append [of s "[]"] skip_line_append [of s "'';''"] by (simp_all add: skip_line_def)
        with line Cons eq show False by (simp add: tokens_line)
      qed
      with line Cons eq IH [of "skip_line s" out] show ?thesis
        using skip_line_shorter [of s] by (simp add: tokens_line skip_line_append)
    next
      case block
      then have "s \<noteq> []" by (auto simp: starts_with2_def)
      with block Cons eq IH [of "skip_block (tl s)" out] show ?thesis
        using skip_block_append [of "tl s"] skip_block_shorter [of "tl s"] by (auto simp: tokens_block)
    next
      case quote
      then have "quote_end c \<noteq> CHR '';''" by (auto simp: quote_end_def)
      from quoted_append [OF this, of s] show ?thesis
      proof
        assume "snd (quoted (quote_end c) s) = [] \<and> snd (quoted (quote_end c) (s @ '';'')) = []"
        with Cons eq have "length (push (quote_token c (fst (quoted (quote_end c) (s @ '';'')))) out) =
            Suc (length (push (quote_token c (fst (quoted (quote_end c) s))) out))"
          by (simp add: tokens_quote [OF quote])
        then show ?thesis by (simp add: push_length)
      next
        assume "\<forall>y. quoted (quote_end c) (s @ CHR '';'' # y) =
          (fst (quoted (quote_end c) s), snd (quoted (quote_end c) s) @ CHR '';'' # y)"
        with Cons eq IH [of "snd (quoted (quote_end c) s)"] show ?thesis
          using quoted_shorter [of "quote_end c" s] by (simp add: tokens_quote [OF quote])
      qed
    next
      case semi with Cons eq IH [of s "out @ [[]]"] show ?thesis by (simp add: tokens_semi)
    next
      case word with Cons eq IH [of "dropWhile word_char s"] show ?thesis
        using length_dropWhile_le [of word_char s] by (simp add: tokens_word)
    next
      case punct with Cons eq IH [of s] show ?thesis by (simp add: tokens_punct)
    qed
  qed
qed

lemma tokens_prefix: "tokens x (ys @ [zs]) = ys @ tokens x [zs]"
proof (induction x arbitrary: ys zs rule: length_induct)
  case (1 x)
  note IH = 1 [rule_format]
  show ?case
  proof (cases x)
    case (Cons c s)
    show ?thesis
    proof (cases rule: token_start_cases [where c = c and s = s])
      case semi
      with Cons IH [of s "ys @ [zs]" "[]"] IH [of s "[zs]" "[]"] show ?thesis by (simp add: tokens_semi)
    qed (use Cons IH skip_line_shorter [of s] skip_block_shorter [of "tl s"] length_dropWhile_le [of word_char s]
        quoted_shorter [of "quote_end c" s] in \<open>simp_all add: tokens_space tokens_line tokens_block tokens_quote
        tokens_word tokens_punct push_prefix push_single\<close>)
  qed simp
qed

text \<open>The screen takes a text statement by statement.\<close>

lemma statements_semicolon:
  "complete_sql pre \<Longrightarrow> statements (pre @ CHR '';'' # x) = statements pre @ statements x"
  using tokens_semicolon [of pre "[[]]" x] tokens_prefix [of x _ "[]"]
  by (simp add: complete_sql_def statements_def)

section \<open>What the screen refuses\<close>

text \<open>A comment body that does not close early.\<close>

fun unclosed :: "string \<Rightarrow> bool" where
  "unclosed (c # d # s) \<longleftrightarrow> \<not> (c = CHR ''*'' \<and> d = CHR ''/'') \<and> unclosed (d # s)"
| "unclosed s \<longleftrightarrow> True"

text \<open>White space and closed comments.\<close>

inductive blank :: "string \<Rightarrow> bool" where
  blank_end: "blank []"
| blank_space: "sql_space c \<Longrightarrow> blank p \<Longrightarrow> blank (c # p)"
| blank_line: "CHR 0x0A \<notin> set s \<Longrightarrow> blank p \<Longrightarrow> blank (''--'' @ s @ CHR 0x0A # p)"
| blank_block: "unclosed s \<Longrightarrow> blank p \<Longrightarrow> blank (''/*'' @ s @ ''*/'' @ p)"

lemma skip_block_unclosed: "unclosed s \<Longrightarrow> skip_block (s @ ''*/'' @ y) = y"
  by (induction s rule: unclosed.induct) auto

lemma blank_skipped: "blank p \<Longrightarrow> tokens (p @ x) out = tokens x out"
proof (induction p rule: blank.induct)
  case (blank_line s p)
  then have "skip_line (CHR ''-'' # s @ CHR 0x0A # p @ x) = p @ x"
    using skip_line_append [of "CHR ''-'' # s" "CHR 0x0A # p @ x"] by (simp add: skip_line_def)
  with blank_line show ?case by (simp add: tokens_line starts_with2_def)
next
  case (blank_block s p)
  then show ?case
    using skip_block_unclosed [of s "p @ x"] by (simp add: tokens_block starts_with2_def)
qed (simp_all add: tokens_space)

lemma tokens_whole_word:
  assumes "w \<noteq> []" "list_all word_char w" "x = [] \<or> \<not> word_char (hd x)"
  shows "tokens (w @ x) [[]] = tokens x [[Word (to_lower w)]]"
proof (cases w)
  case (Cons c v)
  have "takeWhile word_char (v @ x) = v" "dropWhile word_char (v @ x) = x"
    using assms Cons by (cases x; simp add: takeWhile_append dropWhile_append list_all_iff)+
  then show ?thesis using assms Cons by (simp add: tokens_word push_def)
qed (use assms in simp)

text \<open>More text only extends the statement under way, or opens new ones.\<close>

lemma tokens_extend: "\<exists>us ss. tokens x [ts] = (ts @ us) # ss"
proof (induction x arbitrary: ts rule: length_induct)
  case (1 x)
  note IH = 1 [rule_format]
  show ?case
  proof (cases x)
    case (Cons c s)
    show ?thesis
    proof (cases rule: token_start_cases [where c = c and s = s])
      case semi
      with Cons show ?thesis using tokens_prefix [of s "[ts]" "[]"] by (simp add: tokens_semi)
    next
      case quote
      with Cons IH [of "snd (quoted (quote_end c) s)"] quoted_shorter [of "quote_end c" s] show ?thesis
        by (simp add: tokens_quote [OF quote] push_single) (metis append.assoc)
    next
      case word
      with Cons IH [of "dropWhile word_char s"] length_dropWhile_le [of word_char s] show ?thesis
        by (simp add: tokens_word push_single) (metis append.assoc)
    next
      case punct
      with Cons IH [of s] show ?thesis
        by (simp add: tokens_punct push_single) (metis append.assoc)
    qed (use Cons IH skip_line_shorter [of s] skip_block_shorter [of "tl s"]
        in \<open>simp_all add: tokens_space tokens_line tokens_block\<close>)
  qed simp
qed

lemma screen_statement_attach:
  "w \<in> {''attach'', ''detach''} \<Longrightarrow> screen_statement (Word w # ts) = Some (to_upper w)"
  by (auto simp: screen_statement_def skip_explain_def)

lemma screenSql_first:
  assumes "statements sql = ts # ss" "screen_statement ts = Some e"
  shows "screenSql sql = Some e"
  using assms by (simp add: screenSql_def map_filter_simps)

lemma map_filter_empty: "List.map_filter f xs = [] \<longleftrightarrow> (\<forall>x \<in> set xs. f x = None)"
  by (auto simp: List.map_filter_def filter_empty_conv)

lemma screenSql_none_iff: "screenSql sql = None \<longleftrightarrow> (\<forall>ts \<in> set (statements sql). screen_statement ts = None)"
  using map_filter_empty [of screen_statement "statements sql"] by (auto simp: screenSql_def split: list.splits)

lemma attach_word_refused:
  assumes "blank p" "list_all word_char w" "to_lower w \<in> {''attach'', ''detach''}" "x = [] \<or> \<not> word_char (hd x)"
  shows "screenSql (p @ w @ x) = Some (to_upper (to_lower w))"
proof -
  have "w \<noteq> []" using assms(3) by (auto simp: to_lower_def)
  then obtain us ss where "statements (p @ w @ x) = (Word (to_lower w) # us) # ss"
    using assms tokens_whole_word [of w x] tokens_extend [of x "[Word (to_lower w)]"]
    by (auto simp: statements_def blank_skipped)
  then show ?thesis using assms(3) by (metis screenSql_first screen_statement_attach)
qed

text \<open>
  C30: no spelling of \<open>ATTACH\<close> or \<open>DETACH\<close> gets past the screen as the first word of a statement:
  in any mix of cases, behind any white space and comments, alone or after any complete SQL text.
\<close>

theorem attach_always_refused:
  assumes "complete_sql pre" "blank p" "list_all word_char w" "to_lower w \<in> {''attach'', ''detach''}"
    "x = [] \<or> \<not> word_char (hd x)"
  shows "screenSql (p @ w @ x) = Some (to_upper (to_lower w)) \<and> screenSql (pre @ CHR '';'' # p @ w @ x) \<noteq> None"
proof -
  have alone: "screenSql (p @ w @ x) = Some (to_upper (to_lower w))"
    using assms by (intro attach_word_refused)
  then show ?thesis
    using statements_semicolon [OF assms(1), of "p @ w @ x"] screenSql_none_iff [of "p @ w @ x"]
      screenSql_none_iff [of "pre @ CHR '';'' # p @ w @ x"] by auto
qed

theorem attach_always_refused_witness:
  "screenSql (''SELECT 1;/* hi */ '' @ ''AtTaCh 1'') \<noteq> None"
proof -
  have "sql_space CHR '' ''" by code_simp
  then have "blank (''/*'' @ '' hi '' @ ''*/'' @ '' '')" by (intro blank.intros) simp_all
  moreover have "complete_sql ''SELECT 1''" "list_all word_char ''AtTaCh''"
    "to_lower ''AtTaCh'' \<in> {''attach'', ''detach''}" "\<not> word_char (hd '' 1'')" by code_simp+
  ultimately show ?thesis
    using attach_always_refused [of "''SELECT 1''" "''/*'' @ '' hi '' @ ''*/'' @ '' ''" "''AtTaCh''" "'' 1''"] by simp
qed

text \<open>
  A byte-order mark is no white space to the screen. It becomes part of the first word, so the
  screen passes an \<open>ATTACH\<close> behind it (SQLite's own tokenizer skips the mark).
\<close>

theorem bom_hides_attach:
  "screenSql ([CHR 0xEF, CHR 0xBB, CHR 0xBF] @ ''ATTACH x AS y'') = None \<and> screenSql ''ATTACH x AS y'' = Some ''ATTACH''"
  by code_simp

section \<open>The guarded process\<close>

text \<open>
  Only the guard's own pragma, the broker's backup and screened statements have run, and the first
  statement of every connection turned the trusted schema off.
\<close>

definition process_ok :: "sqlite_process \<Rightarrow> bool" where
  "process_ok p \<longleftrightarrow>
     list_all (\<lambda>(d, sql). sql = TRUSTED_SCHEMA_OFF \<or> sql = BROKER_BACKUP \<or> screenSql sql = None) (executed p) \<and>
     fst ` set (executed p) = guarded p \<and>
     (\<forall>d \<in> guarded p. map_of (executed p) d = Some TRUSTED_SCHEMA_OFF)"

definition guard_step :: "sqlite_process \<Rightarrow> db_method \<times> nat \<times> string \<Rightarrow> sqlite_process" where
  "guard_step p c = (case c of (m, d, sql) \<Rightarrow> snd (screened m d sql p))"

definition fresh_process :: sqlite_process where
  "fresh_process = \<lparr>guarded = {}, executed = []\<rparr>"

lemma process_ok_first:
  assumes "process_ok p"
  shows "list_all (\<lambda>(d, sql). map_of (executed p) d = Some TRUSTED_SCHEMA_OFF) (executed p)"
proof -
  have "map_of (executed p) (fst x) = Some TRUSTED_SCHEMA_OFF" if "x \<in> set (executed p)" for x
    using that assms unfolding process_ok_def by blast
  then show ?thesis by (fastforce simp: list_all_iff)
qed

lemma process_ok_guard:
  assumes "process_ok p" "d \<notin> guarded p"
  shows "process_ok (p\<lparr>guarded := insert d (guarded p), executed := executed p @ [(d, TRUSTED_SCHEMA_OFF)]\<rparr>)"
proof -
  have "map_of (executed p) d = None" using assms by (auto simp: process_ok_def map_of_eq_None_iff)
  then show ?thesis using assms by (auto simp: process_ok_def map_add_def split: option.splits)
qed

lemma process_ok_run:
  assumes "process_ok p" "d \<in> guarded p" "sql = BROKER_BACKUP \<or> screenSql sql = None"
  shows "process_ok (p\<lparr>executed := executed p @ [(d, sql)]\<rparr>)"
  using assms by (auto simp: process_ok_def map_add_def split: option.splits)

lemma screened_ok: "process_ok p \<Longrightarrow> process_ok (snd (screened m d sql p))"
  using process_ok_guard [of p d] process_ok_run [of p d sql]
    process_ok_run [of "p\<lparr>guarded := insert d (guarded p), executed := executed p @ [(d, TRUSTED_SCHEMA_OFF)]\<rparr>" d sql]
  by (auto simp: screened_def Let_def skip_of_def split: option.splits if_splits)

interpretation sqlite: machine fresh_process guard_step process_ok
  by unfold_locales (simp add: process_ok_def fresh_process_def, auto simp: guard_step_def intro: screened_ok)

text \<open>
  C31: over any sequence of \<open>exec\<close>, \<open>run\<close>, \<open>prepare\<close> and \<open>query\<close> calls, SQLite has run only the guard's own
  pragma, the broker's backup statement and text the screen passes, and on every connection
  \<open>trusted_schema = OFF\<close> ran before anything else.
\<close>

theorem guard_screens_everything:
  "let p = foldl guard_step fresh_process calls
   in list_all (\<lambda>(d, sql). sql = TRUSTED_SCHEMA_OFF \<or> sql = BROKER_BACKUP \<or> screenSql sql = None) (executed p) \<and>
      list_all (\<lambda>(d, sql). map_of (executed p) d = Some TRUSTED_SCHEMA_OFF) (executed p)"
  using sqlite.run_inv [of calls] process_ok_first [of "foldl guard_step fresh_process calls"]
  by (simp add: sqlite.run_def process_ok_def Let_def)

end
