(* ===== verification/Sprout_Pool.thy ===== *)
theory Sprout_Pool
  imports Sproutboat_Prelude
begin

text \<open>
  The pool of sprout processes (\<open>SproutPool\<close> and \<open>SproutServer\<close> in
  \<open>src/services/supervisor/src/run.ts\<close>).

  Servers are objects with an identity: \<open>sp_heap\<close> holds every server ever constructed and
  \<open>sp_servers\<close> is the pool's map from runtime keys to them, so that a callback or a failed wait of a
  server the map no longer names can be told apart. The asynchronous methods are cut where they
  await: the part of \<open>endpoint\<close> before \<open>server.ready()\<close> is \<open>enter\<close>, its \<open>catch\<close> is \<open>ready_fail\<close>, and the
  child's exit is \<open>on_exit\<close>; these pieces interleave in any order.
\<close>

section \<open>What a process is keyed by\<close>

record R2Runtime =
  r2_owner :: owner
  r2_resource_ids :: "string list"
  r2_do_store :: "string option"

record TimedSprout =
  ts_path :: string
  ts_secrets :: "string option"
  ts_services :: "(string \<times> string) list option"
  ts_r2 :: "R2Runtime option"

definition json_pair :: "string \<times> string \<Rightarrow> string" where
  "json_pair p = ''['' @ json_quote (fst p) @ '','' @ json_quote (snd p) @ '']''"

definition service_text :: "(string \<Rightarrow> 'k::linorder) \<Rightarrow> (string \<times> string) list option \<Rightarrow> string" where
  "service_text collate services =
     ''['' @ join_with '','' (map json_pair (case services of None \<Rightarrow> [] | Some ps \<Rightarrow> sort_key (\<lambda>p. collate (fst p)) ps)) @ '']''"

definition r2_text :: "R2Runtime option \<Rightarrow> string" where
  "r2_text r2 = (case r2 of None \<Rightarrow> []
     | Some r \<Rightarrow> r2_owner r @ [CHR 0x00] @ join_with '','' (sort (r2_resource_ids r)) @ [CHR 0x00]
         @ (case r2_do_store r of None \<Rightarrow> [] | Some d \<Rightarrow> d))"

text \<open>\<open>abs_path\<close> is \<open>path.resolve\<close> in the working directory of the edge; \<open>collate\<close> the order of \<open>localeCompare\<close>.\<close>

definition runtimeKey :: "(string \<Rightarrow> string) \<Rightarrow> (string \<Rightarrow> 'k::linorder) \<Rightarrow> TimedSprout \<Rightarrow> string" where
  "runtimeKey abs_path collate t =
     abs_path (ts_path t) @ [CHR 0x00] @ (case ts_secrets t of None \<Rightarrow> [] | Some s \<Rightarrow> s) @ [CHR 0x00]
     @ service_text collate (ts_services t) @ [CHR 0x00] @ r2_text (ts_r2 t)"

section \<open>State\<close>

record sprout_server =
  sv_key :: string
  sv_path :: string
  sv_port :: nat
  sv_closed :: bool
  sv_alive :: bool
  sv_dispatch :: bool
  sv_lastUsedAt :: ms

record sprout_pool =
  sp_servers :: "(string \<times> nat) list"
  sp_heap :: "nat \<Rightarrow> sprout_server option"
  sp_next :: nat
  sp_usedPorts :: "nat set"
  sp_seenKeys :: "string set"
  sp_timed :: "(string \<times> TimedSprout) list"
  sp_timedWakeups :: "(string \<times> int) list"
  sp_timedWakeAttempts :: "(string \<times> nat) list"
  sp_spawns :: nat
  sp_restarts :: nat
  sp_readyFailures :: nat
  sp_idleEvictions :: nat
  sp_timedWakeFailures :: nat
  sp_foreignListeners :: nat

definition empty_pool :: sprout_pool where
  "empty_pool = \<lparr>sp_servers = [], sp_heap = (\<lambda>_. None), sp_next = 0, sp_usedPorts = {}, sp_seenKeys = {}, sp_timed = [],
     sp_timedWakeups = [], sp_timedWakeAttempts = [], sp_spawns = 0, sp_restarts = 0, sp_readyFailures = 0,
     sp_idleEvictions = 0, sp_timedWakeFailures = 0, sp_foreignListeners = 0\<rparr>"

text \<open>What the process was started with: idle time, port range, and the operating system's answers.\<close>

record pool_config =
  pc_idleMs :: int
  pc_lo :: nat
  pc_hi :: nat
  pc_path :: "string \<Rightarrow> string"

definition defaultReadyTimeoutMs :: int where "defaultReadyTimeoutMs = 10000"

definition defaultIdleMs :: int where "defaultIdleMs = 600000"

definition defaultPortRange :: "nat \<times> nat" where "defaultPortRange = (40000, 49999)"

section \<open>Ports\<close>

text \<open>\<open>bindable\<close> is the probe of \<open>portBindable\<close>; \<open>start\<close> the random offset, below the size of the range.\<close>

definition port_usable :: "(nat \<Rightarrow> bool) \<Rightarrow> bool \<Rightarrow> nat \<Rightarrow> bool" where
  "port_usable bindable withBroker port \<longleftrightarrow>
     bindable port \<and>
     (\<not> withBroker \<or> port > 10000 \<and> port + 10000 \<le> 65535 \<and> bindable (port + 10000) \<and> bindable (port - 10000))"

definition freePort :: "pool_config \<Rightarrow> (nat \<Rightarrow> bool) \<Rightarrow> bool \<Rightarrow> nat \<Rightarrow> nat set \<Rightarrow> nat option" where
  "freePort cfg bindable withBroker start used =
     (let size = pc_hi cfg + 1 - pc_lo cfg
      in find (\<lambda>port. port \<notin> used \<and> port_usable bindable withBroker port)
           (map (\<lambda>i. pc_lo cfg + (start + i) mod size) [0..<size]))"

section \<open>Timers of broker-driven sprouts\<close>

definition clearTimedWakeTimer :: "string \<Rightarrow> sprout_pool \<Rightarrow> sprout_pool" where
  "clearTimedWakeTimer k p = p\<lparr>sp_timedWakeups := AList.delete k (sp_timedWakeups p)\<rparr>"

definition cancelTimedWake :: "string \<Rightarrow> sprout_pool \<Rightarrow> sprout_pool" where
  "cancelTimedWake k p =
     (let p1 = clearTimedWakeTimer k p in p1\<lparr>sp_timedWakeAttempts := AList.delete k (sp_timedWakeAttempts p1)\<rparr>)"

definition wake_delay :: "nat \<Rightarrow> int" where
  "wake_delay attempt = min 30000 (250 * 2 ^ min (attempt - 1) 7)"

definition scheduleTimedWake :: "string \<Rightarrow> sprout_pool \<Rightarrow> sprout_pool" where
  "scheduleTimedWake k p =
     (if map_of (sp_timedWakeups p) k \<noteq> None \<or> map_of (sp_timed p) k = None then p
      else let attempt = (case map_of (sp_timedWakeAttempts p) k of None \<Rightarrow> 0 | Some n \<Rightarrow> n) + 1
           in p\<lparr>sp_timedWakeAttempts := AList.update k attempt (sp_timedWakeAttempts p),
                sp_timedWakeups := AList.update k (wake_delay attempt) (sp_timedWakeups p)\<rparr>)"

section \<open>Servers\<close>

text \<open>\<open>SproutServer.dispose\<close>.\<close>

definition dispose_server :: "nat \<Rightarrow> sprout_pool \<Rightarrow> sprout_pool" where
  "dispose_server sid p =
     (case sp_heap p sid of
        None \<Rightarrow> p
      | Some sv \<Rightarrow> if sv_closed sv then p
                  else p\<lparr>sp_heap := (sp_heap p)(sid := Some (sv\<lparr>sv_closed := True, sv_alive := False\<rparr>))\<rparr>)"

definition server_port :: "nat \<Rightarrow> sprout_pool \<Rightarrow> nat set" where
  "server_port sid p = (case sp_heap p sid of None \<Rightarrow> {} | Some sv \<Rightarrow> {sv_port sv})"

text \<open>\<open>server.dispose(); this.#servers.delete(key); this.#usedPorts.delete(server.port)\<close>.\<close>

definition drop_server :: "string \<Rightarrow> nat \<Rightarrow> sprout_pool \<Rightarrow> sprout_pool" where
  "drop_server k sid p =
     (let p1 = dispose_server sid p
      in p1\<lparr>sp_servers := AList.delete k (sp_servers p1), sp_usedPorts := sp_usedPorts p1 - server_port sid p1\<rparr>)"

text \<open>
  The child's exit: the handler in the constructor, and the pool's \<open>onExit\<close> callback when the
  server was not closed before.
\<close>

definition on_exit :: "nat \<Rightarrow> sprout_pool \<Rightarrow> sprout_pool" where
  "on_exit sid p =
     (case sp_heap p sid of
        None \<Rightarrow> p
      | Some sv \<Rightarrow>
          if sv_closed sv then p\<lparr>sp_heap := (sp_heap p)(sid := Some (sv\<lparr>sv_alive := False\<rparr>))\<rparr>
          else let k = sv_key sv;
                   p1 = p\<lparr>sp_heap := (sp_heap p)(sid := Some (sv\<lparr>sv_closed := True, sv_alive := False\<rparr>)),
                          sp_servers := (if map_of (sp_servers p) k = Some sid then AList.delete k (sp_servers p)
                                         else sp_servers p),
                          sp_usedPorts := sp_usedPorts p - {sv_port sv}\<rparr>
               in if map_of (sp_timed p1) k \<noteq> None then scheduleTimedWake k p1 else p1)"

section \<open>endpoint\<close>

text \<open>What the call meets outside the pool: the clock, the probes, the files and the spawn.\<close>

record spawn_env =
  en_now :: ms
  en_bindable :: "nat \<Rightarrow> bool"
  en_withBroker :: bool
  en_start :: nat
  en_spawns :: bool

datatype entered = NoFreePort | SpawnThrew | Waiting nat bool

text \<open>
  \<open>endpointOnce\<close> up to \<open>await server.ready()\<close>. A throwing \<open>spawn\<close> leaves what came before it: the port
  is in \<open>usedPorts\<close> and counted.
\<close>

definition enter ::
  "pool_config \<Rightarrow> string \<Rightarrow> string \<Rightarrow> bool \<Rightarrow> spawn_env \<Rightarrow> sprout_pool \<Rightarrow> sprout_pool \<times> entered" where
  "enter cfg k path dispatchDisabled en p =
     (let found = (case map_of (sp_servers p) k of
                     None \<Rightarrow> None
                   | Some sid \<Rightarrow> (case sp_heap p sid of Some sv \<Rightarrow> if sv_closed sv then None else Some (sid, sv) | None \<Rightarrow> None))
      in case found of
           Some (sid, sv) \<Rightarrow>
             (p\<lparr>sp_heap := (sp_heap p)(sid := Some (sv\<lparr>sv_lastUsedAt := en_now en\<rparr>))\<rparr>, Waiting sid False)
         | None \<Rightarrow>
             let p1 = p\<lparr>sp_restarts := sp_restarts p + (if k \<in> sp_seenKeys p then 1 else 0),
                        sp_seenKeys := insert k (sp_seenKeys p)\<rparr>
             in (case freePort cfg (en_bindable en) (en_withBroker en) (en_start en) (sp_usedPorts p1) of
                   None \<Rightarrow> (p1, NoFreePort)
                 | Some port \<Rightarrow>
                     let p2 = p1\<lparr>sp_usedPorts := insert port (sp_usedPorts p1), sp_spawns := sp_spawns p1 + 1\<rparr>
                     in if \<not> en_spawns en then (p2, SpawnThrew)
                        else let sid = sp_next p2;
                                 sv = \<lparr>sv_key = k, sv_path = pc_path cfg path, sv_port = port, sv_closed = False,
                                       sv_alive = True, sv_dispatch = \<not> dispatchDisabled, sv_lastUsedAt = en_now en\<rparr>
                             in (p2\<lparr>sp_heap := (sp_heap p2)(sid := Some sv), sp_next := sid + 1,
                                    sp_servers := AList.update k sid (sp_servers p2)\<rparr>, Waiting sid True)))"

text \<open>The \<open>catch\<close> of \<open>endpointOnce\<close>: the wait for a server entered under this key failed.\<close>

definition ready_fail :: "string \<Rightarrow> nat \<Rightarrow> sprout_pool \<Rightarrow> sprout_pool" where
  "ready_fail k sid p = drop_server k sid (p\<lparr>sp_readyFailures := sp_readyFailures p + 1\<rparr>)"

text \<open>
  \<open>endpoint\<close>: what a call answers when its successive attempts would end as listed. Only a foreign
  listener is retried, once.
\<close>

datatype 'a attempt = Ready 'a | Foreign | Failed string

fun endpoint :: "nat \<Rightarrow> 'a attempt list \<Rightarrow> 'a attempt option \<times> nat" where
  "endpoint n [] = (None, 0)"
| "endpoint n (Foreign # rest) =
     (if n \<ge> 2 then (Some Foreign, 1) else let r = endpoint (n + 1) rest in (fst r, snd r + 1))"
| "endpoint n (r # rest) = (Some r, 0)"

record Endpoint =
  ep_url_port :: nat
  ep_transfer_port :: "nat option"
  ep_coldStart :: bool
  ep_startupMs :: int
  ep_bootMs :: int

definition endpoint_result :: "bool \<Rightarrow> sprout_server \<Rightarrow> bool \<Rightarrow> int \<Rightarrow> int \<Rightarrow> Endpoint" where
  "endpoint_result hasBindings sv coldStart startupMs bootMs =
     \<lparr>ep_url_port = sv_port sv, ep_transfer_port = (if hasBindings then Some (sv_port sv - 10000) else None),
      ep_coldStart = coldStart, ep_startupMs = (if coldStart then startupMs else 0),
      ep_bootMs = (if coldStart then bootMs else 0)\<rparr>"

text \<open>\<open>readBootMs\<close>: the file's text as a number of milliseconds (\<open>None\<close> when it cannot be read or is none).\<close>

definition readBootMs :: "int option \<Rightarrow> ms \<Rightarrow> int \<Rightarrow> int" where
  "readBootMs started spawnedAt startupMs =
     (case started of None \<Rightarrow> 0
      | Some t \<Rightarrow> let boot = t - spawnedAt in if boot < 0 then 0 else if boot > startupMs then startupMs else boot)"

section \<open>The other operations\<close>

definition touch :: "string \<Rightarrow> ms \<Rightarrow> sprout_pool \<Rightarrow> sprout_pool" where
  "touch k now p =
     (case map_of (sp_servers p) k of
        None \<Rightarrow> p
      | Some sid \<Rightarrow>
          (case sp_heap p sid of
             None \<Rightarrow> p
           | Some sv \<Rightarrow> if sv_closed sv then p
                       else p\<lparr>sp_heap := (sp_heap p)(sid := Some (sv\<lparr>sv_lastUsedAt := now\<rparr>))\<rparr>))"

definition forget_timed :: "string \<Rightarrow> sprout_pool \<Rightarrow> sprout_pool" where
  "forget_timed k p = cancelTimedWake k (p\<lparr>sp_timed := AList.delete k (sp_timed p)\<rparr>)"

definition server_path_is :: "string \<Rightarrow> nat \<Rightarrow> sprout_pool \<Rightarrow> bool" where
  "server_path_is path sid p = (case sp_heap p sid of None \<Rightarrow> False | Some sv \<Rightarrow> sv_path sv = path)"

definition pool_dispose :: "pool_config \<Rightarrow> string \<Rightarrow> sprout_pool \<Rightarrow> sprout_pool" where
  "pool_dispose cfg sproutPath p =
     (let path = pc_path cfg sproutPath;
          p1 = foldl (\<lambda>q (k, sid). if server_path_is path sid q then drop_server k sid (forget_timed k q) else q)
                 p (sp_servers p)
      in foldl (\<lambda>q (k, t). if pc_path cfg (ts_path t) = path then forget_timed k q else q) p1 (sp_timed p1))"

definition disposeAll :: "sprout_pool \<Rightarrow> sprout_pool" where
  "disposeAll p =
     (let p1 = foldl (\<lambda>q (k, _). cancelTimedWake k q) p (sp_timedWakeups p);
          p2 = p1\<lparr>sp_timed := []\<rparr>;
          p3 = foldl (\<lambda>q (_, sid). dispose_server sid q) p2 (sp_servers p2)
      in p3\<lparr>sp_servers := [], sp_usedPorts := {}\<rparr>)"

definition idle_past :: "pool_config \<Rightarrow> ms \<Rightarrow> nat \<Rightarrow> sprout_pool \<Rightarrow> bool" where
  "idle_past cfg now sid p = (case sp_heap p sid of None \<Rightarrow> False | Some sv \<Rightarrow> now - sv_lastUsedAt sv \<ge> pc_idleMs cfg)"

definition evict_one :: "pool_config \<Rightarrow> ms \<Rightarrow> sprout_pool \<times> nat \<Rightarrow> string \<times> nat \<Rightarrow> sprout_pool \<times> nat" where
  "evict_one cfg now = (\<lambda>(q, n) (k, sid).
     if map_of (sp_timed q) k \<noteq> None then (q, n)
     else if idle_past cfg now sid q then (drop_server k sid q, n + 1) else (q, n))"

definition evictIdle :: "pool_config \<Rightarrow> ms \<Rightarrow> sprout_pool \<Rightarrow> sprout_pool \<times> nat" where
  "evictIdle cfg now p =
     (let r = foldl (evict_one cfg now) (p, 0) (sp_servers p)
      in ((fst r)\<lparr>sp_idleEvictions := sp_idleEvictions (fst r) + snd r\<rparr>, snd r))"

section \<open>Keeping timed sprouts up\<close>

definition enable_dispatch :: "nat \<Rightarrow> sprout_pool \<Rightarrow> sprout_pool" where
  "enable_dispatch sid p =
     (case sp_heap p sid of None \<Rightarrow> p
      | Some sv \<Rightarrow> p\<lparr>sp_heap := (sp_heap p)(sid := Some (sv\<lparr>sv_dispatch := True\<rparr>))\<rparr>)"

definition retire_timed :: "(string \<times> TimedSprout) list \<Rightarrow> sprout_pool \<Rightarrow> string \<times> TimedSprout \<Rightarrow> sprout_pool" where
  "retire_timed next q kt =
     (let k = fst kt
      in if map_of next k \<noteq> None then q
         else let q1 = forget_timed k q
              in case map_of (sp_servers q1) k of None \<Rightarrow> q1 | Some sid \<Rightarrow> drop_server k sid q1)"

text \<open>\<open>reconcileTimed\<close> up to its wakes; the keys to wake, last first, come with the new state.\<close>

definition reconcileTimed ::
  "(TimedSprout \<Rightarrow> string) \<Rightarrow> TimedSprout list \<Rightarrow> sprout_pool \<Rightarrow> sprout_pool \<times> string list" where
  "reconcileTimed key sprouts p =
     (let next = foldl (\<lambda>m t. AList.update (key t) t m) [] sprouts;
          p1 = foldl (retire_timed next) p (sp_timed p);
          p2 = p1\<lparr>sp_timed := foldl (\<lambda>m (k, t). AList.update k t m) (sp_timed p1) next\<rparr>;
          p3 = foldl (\<lambda>q (k, _). case map_of (sp_servers q) k of None \<Rightarrow> q | Some sid \<Rightarrow> enable_dispatch sid q) p2 next
      in (p3, rev (map fst next)))"

text \<open>\<open>wakeTimed\<close> up to the wait, and its two ends.\<close>

definition wakeTimed :: "pool_config \<Rightarrow> string \<Rightarrow> spawn_env \<Rightarrow> sprout_pool \<Rightarrow> sprout_pool \<times> entered option" where
  "wakeTimed cfg k en p =
     (case map_of (sp_timed p) k of
        None \<Rightarrow> (p, None)
      | Some t \<Rightarrow> let r = enter cfg k (ts_path t) False en (clearTimedWakeTimer k p) in (fst r, Some (snd r)))"

definition wake_ok :: "string \<Rightarrow> sprout_pool \<Rightarrow> sprout_pool" where
  "wake_ok k p = p\<lparr>sp_timedWakeAttempts := AList.delete k (sp_timedWakeAttempts p)\<rparr>"

definition wake_failed :: "string \<Rightarrow> sprout_pool \<Rightarrow> sprout_pool" where
  "wake_failed k p =
     (let p1 = p\<lparr>sp_timedWakeFailures := sp_timedWakeFailures p + 1\<rparr>
      in if map_of (sp_timed p1) k \<noteq> None then scheduleTimedWake k p1 else p1)"

text \<open>The timer of a scheduled wake fires.\<close>

definition wake_timer :: "pool_config \<Rightarrow> string \<Rightarrow> spawn_env \<Rightarrow> sprout_pool \<Rightarrow> sprout_pool \<times> entered option" where
  "wake_timer cfg k en p = wakeTimed cfg k en (p\<lparr>sp_timedWakeups := AList.delete k (sp_timedWakeups p)\<rparr>)"

record PoolStats =
  st_live :: nat
  st_spawns :: nat
  st_restarts :: nat
  st_readyFailures :: nat
  st_idleEvictions :: nat
  st_portsInUse :: nat
  st_portPoolSize :: nat
  st_timedConfigured :: nat
  st_timedLive :: nat
  st_timedWakeFailures :: nat
  st_foreignListeners :: nat

definition pool_stats :: "pool_config \<Rightarrow> sprout_pool \<Rightarrow> PoolStats" where
  "pool_stats cfg p =
     \<lparr>st_live = length (sp_servers p), st_spawns = sp_spawns p, st_restarts = sp_restarts p,
      st_readyFailures = sp_readyFailures p, st_idleEvictions = sp_idleEvictions p,
      st_portsInUse = card (sp_usedPorts p), st_portPoolSize = pc_hi cfg + 1 - pc_lo cfg,
      st_timedConfigured = length (sp_timed p),
      st_timedLive = length (filter (\<lambda>(k, _). map_of (sp_servers p) k \<noteq> None) (sp_timed p)),
      st_timedWakeFailures = sp_timedWakeFailures p, st_foreignListeners = sp_foreignListeners p\<rparr>"

section \<open>The pool as a machine\<close>

datatype pool_act =
    Enter string string bool spawn_env
  | Exited nat
  | AwaitFails nat
  | ReadyFail string nat
  | ForeignSeen
  | Touch string ms
  | DisposePath string
  | DisposeAll
  | EvictIdle ms
  | Reconcile "TimedSprout list"
  | WakeTimer string spawn_env
  | WakeOk string
  | WakeFailed string

fun pool_step :: "pool_config \<Rightarrow> (TimedSprout \<Rightarrow> string) \<Rightarrow> sprout_pool \<Rightarrow> pool_act \<Rightarrow> sprout_pool" where
  "pool_step cfg key p (Enter k path d en) = fst (enter cfg k path d en p)"
| "pool_step cfg key p (Exited sid) = on_exit sid p"
| "pool_step cfg key p (AwaitFails sid) = dispose_server sid p"
| "pool_step cfg key p (ReadyFail k sid) = ready_fail k sid p"
| "pool_step cfg key p ForeignSeen = p\<lparr>sp_foreignListeners := sp_foreignListeners p + 1\<rparr>"
| "pool_step cfg key p (Touch k now) = touch k now p"
| "pool_step cfg key p (DisposePath path) = pool_dispose cfg path p"
| "pool_step cfg key p DisposeAll = disposeAll p"
| "pool_step cfg key p (EvictIdle now) = fst (evictIdle cfg now p)"
| "pool_step cfg key p (Reconcile ts) = fst (reconcileTimed key ts p)"
| "pool_step cfg key p (WakeTimer k en) = fst (wake_timer cfg k en p)"
| "pool_step cfg key p (WakeOk k) = wake_ok k p"
| "pool_step cfg key p (WakeFailed k) = wake_failed k p"

text \<open>The part of the state the ports and processes depend on.\<close>

definition pool_core :: "sprout_pool \<Rightarrow> (string \<times> nat) list \<times> (nat \<Rightarrow> sprout_server option) \<times> nat \<times> nat set" where
  "pool_core p = (sp_servers p, sp_heap p, sp_next p, sp_usedPorts p)"

definition port_of :: "(nat \<Rightarrow> sprout_server option) \<Rightarrow> nat \<Rightarrow> nat" where
  "port_of h s = (case h s of None \<Rightarrow> 0 | Some sv \<Rightarrow> sv_port sv)"

text \<open>
  Every server that is not closed is in the map under its own key; every server in the map holds a
  port of the range that is marked used and that no other one holds.
\<close>

definition core_ok ::
  "pool_config \<Rightarrow> (string \<times> nat) list \<Rightarrow> (nat \<Rightarrow> sprout_server option) \<Rightarrow> nat \<Rightarrow> nat set \<Rightarrow> bool" where
  "core_ok cfg ss h n used \<longleftrightarrow>
     distinct (map fst ss) \<and>
     (\<forall>x \<in> set ss. \<exists>sv. h (snd x) = Some sv \<and> sv_key sv = fst x \<and> sv_port sv \<in> used \<and>
        pc_lo cfg \<le> sv_port sv \<and> sv_port sv \<le> pc_hi cfg) \<and>
     (\<forall>x \<in> set ss. \<forall>y \<in> set ss. port_of h (snd x) = port_of h (snd y) \<longrightarrow> x = y) \<and>
     (\<forall>s sv. h s = Some sv \<longrightarrow> s < n \<and> (\<not> sv_closed sv \<longrightarrow> (sv_key sv, s) \<in> set ss))"

definition pool_ok :: "pool_config \<Rightarrow> sprout_pool \<Rightarrow> bool" where
  "pool_ok cfg p \<longleftrightarrow> core_ok cfg (sp_servers p) (sp_heap p) (sp_next p) (sp_usedPorts p)"

text \<open>
  A failed wait is handled cleanly when the map still names its server under the key, or names
  none and the server's port has not been given to another one.
\<close>

definition clean_act :: "sprout_pool \<Rightarrow> pool_act \<Rightarrow> bool" where
  "clean_act p a =
     (case a of
        ReadyFail k sid \<Rightarrow>
          map_of (sp_servers p) k = Some sid \<or>
          map_of (sp_servers p) k = None \<and>
          (case sp_heap p sid of
             None \<Rightarrow> False
           | Some sv \<Rightarrow> sv_closed sv \<and> list_all (\<lambda>x. port_of (sp_heap p) (snd x) \<noteq> sv_port sv) (sp_servers p))
      | _ \<Rightarrow> True)"

section \<open>The invariant\<close>

lemma set_update_distinct:
  "distinct (map fst al) \<Longrightarrow> set (AList.update k v al) = insert (k, v) {x \<in> set al. fst x \<noteq> k}"
  by (induction al) (auto simp: image_iff)

lemma set_delete: "set (AList.delete k al) = {x \<in> set al. fst x \<noteq> k}"
  by (auto simp: AList.delete_eq)

lemma pool_ok_core: "pool_core p = pool_core q \<Longrightarrow> pool_ok cfg p = pool_ok cfg q"
  by (simp add: pool_core_def pool_ok_def)

lemma core_ok_entry:
  assumes "core_ok cfg ss h n used" "x \<in> set ss"
  obtains sv where "h (snd x) = Some sv" "sv_key sv = fst x" "sv_port sv \<in> used" "pc_lo cfg \<le> sv_port sv"
    "sv_port sv \<le> pc_hi cfg"
  using assms by (auto simp: core_ok_def dest: bspec)

lemma core_ok_ports:
  "core_ok cfg ss h n used \<Longrightarrow> x \<in> set ss \<Longrightarrow> y \<in> set ss \<Longrightarrow> port_of h (snd x) = port_of h (snd y) \<Longrightarrow> x = y"
  unfolding core_ok_def by metis

lemma core_ok_live:
  assumes "core_ok cfg ss h n used" "h s = Some sv"
  shows "s < n" "\<not> sv_closed sv \<Longrightarrow> (sv_key sv, s) \<in> set ss"
  using assms unfolding core_ok_def by metis+

lemma core_okI:
  assumes "distinct (map fst ss)"
    "\<And>x. x \<in> set ss \<Longrightarrow> \<exists>sv. h (snd x) = Some sv \<and> sv_key sv = fst x \<and> sv_port sv \<in> used \<and>
        pc_lo cfg \<le> sv_port sv \<and> sv_port sv \<le> pc_hi cfg"
    "\<And>x y. x \<in> set ss \<Longrightarrow> y \<in> set ss \<Longrightarrow> port_of h (snd x) = port_of h (snd y) \<Longrightarrow> x = y"
    "\<And>s sv. h s = Some sv \<Longrightarrow> s < n \<and> (\<not> sv_closed sv \<longrightarrow> (sv_key sv, s) \<in> set ss)"
  shows "core_ok cfg ss h n used"
  unfolding core_ok_def using assms by simp

lemma core_ok_distinct: "core_ok cfg ss h n used \<Longrightarrow> distinct (map fst ss)"
  by (simp add: core_ok_def)

lemma core_ok_drop:
  assumes ok: "core_ok cfg ss h n used" and s: "h s = Some sv"
    and c: "(k, s) \<in> set ss \<or> k \<notin> fst ` set ss \<and> sv_closed sv \<and> (\<forall>x \<in> set ss. port_of h (snd x) \<noteq> sv_port sv)"
    and sv': "sv_closed sv'" "sv_key sv' = sv_key sv" "sv_port sv' = sv_port sv"
  shows "core_ok cfg (AList.delete k ss) (h(s := Some sv')) n (used - {sv_port sv})"
proof (rule core_okI)
  let ?ss = "AList.delete k ss" and ?h = "h(s := Some sv')"
  have port: "port_of ?h t = port_of h t" for t using s sv'(3) by (simp add: port_of_def)
  have own: "port_of h s = sv_port sv" using s by (simp add: port_of_def)
  show "distinct (map fst ?ss)" using core_ok_distinct [OF ok] by (simp add: distinct_delete)
  show "x = y" if "x \<in> set ?ss" "y \<in> set ?ss" "port_of ?h (snd x) = port_of ?h (snd y)" for x y
    using core_ok_ports [OF ok, of x y] that unfolding port by (simp add: set_delete)
  show "\<exists>w. ?h (snd x) = Some w \<and> sv_key w = fst x \<and> sv_port w \<in> used - {sv_port sv} \<and>
      pc_lo cfg \<le> sv_port w \<and> sv_port w \<le> pc_hi cfg" if "x \<in> set ?ss" for x
  proof -
    have x: "x \<in> set ss" "fst x \<noteq> k" using that by (auto simp: set_delete)
    have "port_of h (snd x) \<noteq> sv_port sv" using c
    proof
      assume "(k, s) \<in> set ss"
      then show ?thesis using core_ok_ports [OF ok x(1), of "(k, s)"] x(2) own by auto
    qed (use x in blast)
    moreover from this have "snd x \<noteq> s" using own by auto
    moreover obtain w where "h (snd x) = Some w" "sv_key w = fst x" "sv_port w \<in> used" "pc_lo cfg \<le> sv_port w"
        "sv_port w \<le> pc_hi cfg" by (rule core_ok_entry [OF ok x(1)])
    ultimately show ?thesis by (simp add: port_of_def)
  qed
  show "t < n \<and> (\<not> sv_closed w \<longrightarrow> (sv_key w, t) \<in> set ?ss)" if t: "?h t = Some w" for t w
  proof (cases "t = s")
    case True
    then show ?thesis using t core_ok_live [OF ok s] sv'(1) by auto
  next
    case False
    then have h: "h t = Some w" using t by simp
    have "sv_key w \<noteq> k" if "(sv_key w, t) \<in> set ss"
      using c
    proof
      assume "(k, s) \<in> set ss"
      then show ?thesis using that False core_ok_distinct [OF ok] by (metis eq_key_imp_eq_value)
    qed (use that in force)
    with core_ok_live [OF ok h] show ?thesis by (auto simp: set_delete)
  qed
qed

text \<open>A server may be touched, switched on or closed in place.\<close>

lemma core_ok_upd:
  assumes ok: "core_ok cfg ss h n used" and s: "h s = Some sv"
    and sv': "sv_closed sv \<longrightarrow> sv_closed sv'" "sv_key sv' = sv_key sv" "sv_port sv' = sv_port sv"
  shows "core_ok cfg ss (h(s := Some sv')) n used"
proof (rule core_okI)
  let ?h = "h(s := Some sv')"
  have port: "port_of ?h t = port_of h t" for t using s sv'(3) by (simp add: port_of_def)
  show "distinct (map fst ss)" by (rule core_ok_distinct [OF ok])
  show "x = y" if "x \<in> set ss" "y \<in> set ss" "port_of ?h (snd x) = port_of ?h (snd y)" for x y
    using core_ok_ports [OF ok that(1,2)] that(3) by (simp only: port)
  show "\<exists>w. ?h (snd x) = Some w \<and> sv_key w = fst x \<and> sv_port w \<in> used \<and> pc_lo cfg \<le> sv_port w \<and> sv_port w \<le> pc_hi cfg"
    if "x \<in> set ss" for x
    by (rule core_ok_entry [OF ok that]) (use s sv'(2,3) in \<open>cases "snd x = s"; simp\<close>)
  show "t < n \<and> (\<not> sv_closed w \<longrightarrow> (sv_key w, t) \<in> set ss)" if t: "?h t = Some w" for t w
    using t core_ok_live [OF ok s] core_ok_live [OF ok, of t w] sv'(1,2) by (cases "t = s") auto
qed

lemma core_ok_add:
  assumes ok: "core_ok cfg ss h n used" and port: "sv_port sv \<notin> used" "pc_lo cfg \<le> sv_port sv" "sv_port sv \<le> pc_hi cfg"
    and old: "\<And>s w. (sv_key sv, s) \<in> set ss \<Longrightarrow> h s = Some w \<Longrightarrow> sv_closed w"
  shows "core_ok cfg (AList.update (sv_key sv) n ss) (h(n := Some sv)) (n + 1) (insert (sv_port sv) used)"
proof (rule core_okI)
  let ?ss = "AList.update (sv_key sv) n ss" and ?h = "h(n := Some sv)"
  have entries: "x \<in> set ?ss \<longleftrightarrow> x = (sv_key sv, n) \<or> x \<in> set ss \<and> fst x \<noteq> sv_key sv" for x
    using set_update_distinct [OF core_ok_distinct [OF ok], of "sv_key sv" n] by simp
  have below: "snd x \<noteq> n" if x: "x \<in> set ss" for x
    by (rule core_ok_entry [OF ok x]) (use core_ok_live(1) [OF ok] in fastforce)
  have port_old: "port_of ?h (snd x) = port_of h (snd x) \<and> port_of h (snd x) \<noteq> sv_port sv" if x: "x \<in> set ss" for x
    by (rule core_ok_entry [OF ok x]) (use below [OF x] port(1) in \<open>auto simp: port_of_def\<close>)
  have port_new: "port_of ?h n = sv_port sv" by (simp add: port_of_def)
  show "distinct (map fst ?ss)" using core_ok_distinct [OF ok] by (rule distinct_update)
  show "\<exists>w. ?h (snd x) = Some w \<and> sv_key w = fst x \<and> sv_port w \<in> insert (sv_port sv) used \<and> pc_lo cfg \<le> sv_port w \<and>
      sv_port w \<le> pc_hi cfg" if "x \<in> set ?ss" for x
    using that unfolding entries
  proof
    assume x: "x \<in> set ss \<and> fst x \<noteq> sv_key sv"
    show ?thesis by (rule core_ok_entry [OF ok, of x]) (use x below [of x] in auto)
  qed (use port in simp)
  show "x = y" if xy: "x \<in> set ?ss" "y \<in> set ?ss" "port_of ?h (snd x) = port_of ?h (snd y)" for x y
  proof -
    consider "x = y" | "x \<in> set ss" "y \<in> set ss" | "x \<in> set ss" "y = (sv_key sv, n)" | "x = (sv_key sv, n)" "y \<in> set ss"
      using xy(1,2) entries by metis
    then show ?thesis
    proof cases
      case 2
      then show ?thesis using core_ok_ports [OF ok 2] xy(3) port_old by simp
    next
      case 3
      then show ?thesis using port_old [OF 3(1)] port_new xy(3) by auto
    next
      case 4
      then show ?thesis using port_old [OF 4(2)] port_new xy(3) by auto
    qed
  qed
  show "t < n + 1 \<and> (\<not> sv_closed w \<longrightarrow> (sv_key w, t) \<in> set ?ss)" if t: "?h t = Some w" for t w
    using t core_ok_live [OF ok, of t w] old [of t w] unfolding entries by (cases "t = n") auto
qed

lemma core_ok_reserve: "core_ok cfg ss h n used \<Longrightarrow> used \<subseteq> used' \<Longrightarrow> core_ok cfg ss h n used'"
  unfolding core_ok_def by (meson subsetD)

lemma freePort_Some:
  assumes "freePort cfg b wb st used = Some port"
  shows "port \<notin> used" "pc_lo cfg \<le> port" "port \<le> pc_hi cfg" "port_usable b wb port"
proof -
  let ?size = "pc_hi cfg + 1 - pc_lo cfg"
  from assms have *: "port \<notin> used \<and> port_usable b wb port"
    "port \<in> set (map (\<lambda>i. pc_lo cfg + (st + i) mod ?size) [0..<?size])"
    by (auto simp: freePort_def Let_def find_Some_iff)
  then obtain i where "i < ?size" "port = pc_lo cfg + (st + i) mod ?size" by auto
  moreover have "(st + i) mod ?size < ?size" using \<open>i < ?size\<close> by (intro mod_less_divisor) simp
  ultimately show "pc_lo cfg \<le> port" "port \<le> pc_hi cfg" by linarith+
  show "port \<notin> used" "port_usable b wb port" using * by auto
qed

section \<open>Every operation keeps the invariant\<close>

lemma pool_core_eq_iff:
  "pool_core p = pool_core q \<longleftrightarrow>
     sp_servers p = sp_servers q \<and> sp_heap p = sp_heap q \<and> sp_next p = sp_next q \<and> sp_usedPorts p = sp_usedPorts q"
  by (simp add: pool_core_def)

lemma timers_frame [frame_simps]:
  "pool_core (clearTimedWakeTimer k p) = pool_core p"
  "pool_core (cancelTimedWake k p) = pool_core p"
  "pool_core (scheduleTimedWake k p) = pool_core p"
  "pool_core (forget_timed k p) = pool_core p"
  "pool_core (wake_ok k p) = pool_core p"
  "pool_core (wake_failed k p) = pool_core p"
  by (simp_all add: pool_core_eq_iff clearTimedWakeTimer_def cancelTimedWake_def scheduleTimedWake_def forget_timed_def
      wake_ok_def wake_failed_def Let_def)

lemma dispose_server_ok:
  assumes "pool_ok cfg p" shows "pool_ok cfg (dispose_server sid p)"
  using assms core_ok_upd [of cfg "sp_servers p" "sp_heap p" "sp_next p" "sp_usedPorts p" sid]
  by (auto simp: pool_ok_def dispose_server_def split: option.splits)

lemma drop_server_ok:
  assumes ok: "pool_ok cfg p" and c: "clean_act p (ReadyFail k sid)"
  shows "pool_ok cfg (drop_server k sid p)"
proof -
  have core: "core_ok cfg (sp_servers p) (sp_heap p) (sp_next p) (sp_usedPorts p)" using ok by (simp add: pool_ok_def)
  obtain sv where sv: "sp_heap p sid = Some sv"
    using c core_ok_entry [OF core, of "(k, sid)"] by (auto simp: clean_act_def dest: map_of_SomeD split: option.splits)
  have cond: "(k, sid) \<in> set (sp_servers p) \<or> k \<notin> fst ` set (sp_servers p) \<and> sv_closed sv \<and>
      (\<forall>x \<in> set (sp_servers p). port_of (sp_heap p) (snd x) \<noteq> sv_port sv)"
    using c sv by (auto simp: clean_act_def list_all_iff map_of_eq_None_iff dest: map_of_SomeD)
  show ?thesis
  proof (cases "sv_closed sv")
    case True
    have "(sp_heap p)(sid := Some sv) = sp_heap p" using sv by auto
    then show ?thesis
      using core_ok_drop [OF core sv cond True refl refl] True sv
      by (simp add: pool_ok_def drop_server_def dispose_server_def server_port_def Let_def)
  next
    case False
    then show ?thesis
      using core_ok_drop [OF core sv cond, of "sv\<lparr>sv_closed := True, sv_alive := False\<rparr>"] sv
      by (simp add: pool_ok_def drop_server_def dispose_server_def server_port_def Let_def)
  qed
qed

lemma drop_mapped_ok:
  "pool_ok cfg p \<Longrightarrow> map_of (sp_servers p) k = Some sid \<Longrightarrow> pool_ok cfg (drop_server k sid p)"
  by (rule drop_server_ok) (simp_all add: clean_act_def)

lemma drop_server_servers: "sp_servers (drop_server k sid p) = AList.delete k (sp_servers p)"
  by (auto simp: drop_server_def dispose_server_def Let_def split: option.splits)

text \<open>A loop over a snapshot of the map that drops some of its entries.\<close>

lemma fold_drop_ok:
  assumes "pool_ok cfg (pr a)" "set xs \<subseteq> set (sp_servers (pr a))" "distinct (map fst xs)"
    and f: "\<And>a k sid. pool_core (pr (f a (k, sid))) = pool_core (pr a) \<or>
      (\<exists>q. pool_core q = pool_core (pr a) \<and> pr (f a (k, sid)) = drop_server k sid q)"
  shows "pool_ok cfg (pr (foldl f a xs))"
  using assms(1,2,3)
proof (induction xs arbitrary: a)
  case (Cons x xs)
  obtain k sid where x: "x = (k, sid)" by force
  have ok: "pool_ok cfg (pr a)" and mem: "map_of (sp_servers (pr a)) k = Some sid"
    using Cons.prems x by (auto simp: pool_ok_def core_ok_def)
  show ?case
    using f [of a k sid]
  proof
    assume "pool_core (pr (f a (k, sid))) = pool_core (pr a)"
    then show ?thesis
      using Cons.IH [of "f a (k, sid)"] Cons.prems pool_ok_core [of "pr (f a (k, sid))" "pr a" cfg] x
      by (simp add: pool_core_eq_iff)
  next
    assume "\<exists>q. pool_core q = pool_core (pr a) \<and> pr (f a (k, sid)) = drop_server k sid q"
    then obtain q where q: "pool_core q = pool_core (pr a)" "pr (f a (k, sid)) = drop_server k sid q" by blast
    then have "pool_ok cfg (drop_server k sid q)"
      using ok mem pool_ok_core [of q "pr a" cfg] by (intro drop_mapped_ok) (simp_all add: pool_core_eq_iff)
    moreover have "set xs \<subseteq> set (sp_servers (drop_server k sid q))"
      using Cons.prems q(1) x by (auto simp: drop_server_servers set_delete pool_core_eq_iff)
    ultimately show ?thesis
      using Cons.IH [of "f a (k, sid)"] Cons.prems q x by simp
  qed
qed simp

lemma fold_frame: "(\<And>q x. pool_core (f q x) = pool_core q) \<Longrightarrow> pool_core (foldl f p xs) = pool_core p"
  by (induction xs arbitrary: p) simp_all

lemma on_exit_ok:
  assumes ok: "pool_ok cfg p" shows "pool_ok cfg (on_exit sid p)"
proof (cases "sp_heap p sid")
  case (Some sv)
  have core: "core_ok cfg (sp_servers p) (sp_heap p) (sp_next p) (sp_usedPorts p)" using ok by (simp add: pool_ok_def)
  show ?thesis
  proof (cases "sv_closed sv")
    case True
    then show ?thesis using Some core_ok_upd [OF core Some, of "sv\<lparr>sv_alive := False\<rparr>"] by (simp add: on_exit_def pool_ok_def)
  next
    case False
    have mem: "(sv_key sv, sid) \<in> set (sp_servers p)" using core_ok_live(2) [OF core Some False] .
    then have "map_of (sp_servers p) (sv_key sv) = Some sid" using core_ok_distinct [OF core] by simp
    then show ?thesis
      using Some False core_ok_drop [OF core Some, of "sv_key sv" "sv\<lparr>sv_closed := True, sv_alive := False\<rparr>"] mem
        timers_frame(3) by (simp add: on_exit_def pool_ok_def Let_def pool_core_eq_iff)
  qed
qed (use ok in \<open>simp add: on_exit_def\<close>)

lemma enter_ok:
  assumes ok: "pool_ok cfg p" shows "pool_ok cfg (fst (enter cfg k path d en p))"
proof -
  have core: "core_ok cfg (sp_servers p) (sp_heap p) (sp_next p) (sp_usedPorts p)" using ok by (simp add: pool_ok_def)
  define found where "found = (case map_of (sp_servers p) k of None \<Rightarrow> None
     | Some sid \<Rightarrow> (case sp_heap p sid of Some sv \<Rightarrow> if sv_closed sv then None else Some (sid, sv) | None \<Rightarrow> None))"
  show ?thesis
  proof (cases found)
    case (Some x)
    then obtain sid sv where x: "x = (sid, sv)" "sp_heap p sid = Some sv"
      by (auto simp: found_def split: option.splits if_splits)
    then show ?thesis
      using Some core_ok_upd [OF core x(2), of "sv\<lparr>sv_lastUsedAt := en_now en\<rparr>"]
      unfolding found_def by (simp add: enter_def pool_ok_def)
  next
    case None
    have old: "sv_closed w" if "(k, s) \<in> set (sp_servers p)" "sp_heap p s = Some w" for s w
      using None that core_ok_distinct [OF core] by (auto simp: found_def split: if_splits)
    show ?thesis
    proof (cases "freePort cfg (en_bindable en) (en_withBroker en) (en_start en) (sp_usedPorts p)")
      case None': None
      with None core show ?thesis unfolding found_def by (simp add: enter_def pool_ok_def Let_def)
    next
      case (Some port)
      let ?sv = "\<lparr>sv_key = k, sv_path = pc_path cfg path, sv_port = port, sv_closed = False, sv_alive = True,
        sv_dispatch = \<not> d, sv_lastUsedAt = en_now en\<rparr>"
      show ?thesis
        using Some None core_ok_add [OF core, of ?sv] freePort_Some [OF Some] old
          core_ok_reserve [OF core, of "insert port (sp_usedPorts p)"]
        unfolding found_def by (auto simp: enter_def pool_ok_def Let_def)
    qed
  qed
qed

lemma touch_ok: "pool_ok cfg p \<Longrightarrow> pool_ok cfg (touch k now p)"
  by (auto simp: touch_def pool_ok_def intro: core_ok_upd split: option.splits)

lemma enable_dispatch_ok: "pool_ok cfg p \<Longrightarrow> pool_ok cfg (enable_dispatch sid p)"
  by (auto simp: enable_dispatch_def pool_ok_def intro: core_ok_upd split: option.splits)

lemma pool_dispose_ok:
  assumes ok: "pool_ok cfg p" shows "pool_ok cfg (pool_dispose cfg path p)"
proof -
  let ?f = "\<lambda>q (k, sid). if server_path_is (pc_path cfg path) sid q then drop_server k sid (forget_timed k q) else q"
  let ?p1 = "foldl ?f p (sp_servers p)"
  let ?g = "\<lambda>q (k, t). if pc_path cfg (ts_path t) = pc_path cfg path then forget_timed k q else q"
  have p1: "pool_ok cfg ?p1"
  proof (rule fold_drop_ok [where pr = "\<lambda>q. q"])
    show "pool_core (?f a (k, sid)) = pool_core a \<or> (\<exists>q. pool_core q = pool_core a \<and> ?f a (k, sid) = drop_server k sid q)"
      for a k sid
      using timers_frame(4) [of k a] by (cases "server_path_is (pc_path cfg path) sid a") auto
  qed (use ok in \<open>simp_all add: pool_ok_def core_ok_def\<close>)
  have "pool_core (foldl ?g ?p1 (sp_timed ?p1)) = pool_core ?p1"
    by (rule fold_frame) (auto simp: frame_simps split: prod.splits)
  from pool_ok_core [OF this, of cfg] show ?thesis
    unfolding pool_dispose_def Let_def using p1 by blast
qed

lemma evictIdle_ok:
  assumes "pool_ok cfg p" shows "pool_ok cfg (fst (evictIdle cfg now p))"
proof -
  have "pool_ok cfg (fst (foldl (evict_one cfg now) (p, 0) (sp_servers p)))"
  proof (rule fold_drop_ok [where pr = fst])
    show "pool_core (fst (evict_one cfg now a (k, sid))) = pool_core (fst a) \<or>
        (\<exists>q. pool_core q = pool_core (fst a) \<and> fst (evict_one cfg now a (k, sid)) = drop_server k sid q)" for a k sid
      by (cases a) (auto simp: evict_one_def)
  qed (use assms in \<open>simp_all add: pool_ok_def core_ok_def\<close>)
  then show ?thesis by (simp add: evictIdle_def Let_def pool_ok_def)
qed

lemma dispose_fold:
  "sp_servers (foldl (\<lambda>q (_, sid). dispose_server sid q) p xs) = sp_servers p \<and>
   (\<forall>s sv. sp_heap (foldl (\<lambda>q (_, sid). dispose_server sid q) p xs) s = Some sv \<longrightarrow>
      (\<exists>w. sp_heap p s = Some w \<and> (sv_closed w \<longrightarrow> sv_closed sv)) \<and> (s \<in> snd ` set xs \<longrightarrow> sv_closed sv))"
proof (induction xs arbitrary: p)
  case (Cons x xs)
  have "sp_servers (dispose_server (snd x) p) = sp_servers p"
    "\<And>s sv. sp_heap (dispose_server (snd x) p) s = Some sv \<Longrightarrow>
       (\<exists>w. sp_heap p s = Some w \<and> (sv_closed w \<longrightarrow> sv_closed sv)) \<and> (s = snd x \<longrightarrow> sv_closed sv)"
    by (auto simp: dispose_server_def split: option.splits if_splits)
  with Cons.IH [of "dispose_server (snd x) p"] show ?case
    by (cases x) (simp, blast)
qed simp

lemma dispose_fold_next: "sp_next (foldl (\<lambda>q (_, sid). dispose_server sid q) p xs) = sp_next p"
  by (induction xs arbitrary: p) (auto simp: dispose_server_def split: option.splits)

lemma disposeAll_closes:
  assumes "pool_ok cfg p" "sp_heap (disposeAll p) s = Some sv"
  shows "sv_closed sv \<and> s < sp_next (disposeAll p)"
proof -
  define q where "q = (foldl (\<lambda>q (k, _). cancelTimedWake k q) p (sp_timedWakeups p))\<lparr>sp_timed := []\<rparr>"
  have "pool_core (foldl (\<lambda>q (k, _). cancelTimedWake k q) p (sp_timedWakeups p)) = pool_core p"
    by (rule fold_frame) (auto simp: frame_simps split: prod.splits)
  then have frame: "sp_servers q = sp_servers p" "sp_heap q = sp_heap p" "sp_next q = sp_next p"
    by (simp_all add: q_def pool_core_eq_iff)
  have "disposeAll p = (foldl (\<lambda>q (_, sid). dispose_server sid q) q (sp_servers q))\<lparr>sp_servers := [], sp_usedPorts := {}\<rparr>"
    unfolding disposeAll_def Let_def q_def ..
  then have heap: "sp_heap (disposeAll p) = sp_heap (foldl (\<lambda>q (_, sid). dispose_server sid q) q (sp_servers q))"
    "sp_next (disposeAll p) = sp_next p"
    by (simp_all add: dispose_fold_next frame(3))
  have core: "core_ok cfg (sp_servers p) (sp_heap p) (sp_next p) (sp_usedPorts p)" using assms(1) by (simp add: pool_ok_def)
  obtain w where w: "sp_heap p s = Some w" "sv_closed w \<longrightarrow> sv_closed sv" "s \<in> snd ` set (sp_servers p) \<longrightarrow> sv_closed sv"
    using conjunct2 [OF dispose_fold [of q "sp_servers q"], rule_format, of s sv] assms(2) frame heap by auto
  then show ?thesis
    using core_ok_live [OF core w(1)] heap(2) by force
qed

lemma disposeAll_ok:
  assumes "pool_ok cfg p" shows "pool_ok cfg (disposeAll p)"
proof -
  have "sp_servers (disposeAll p) = []" by (simp add: disposeAll_def Let_def)
  then show ?thesis
    using disposeAll_closes [OF assms] by (auto simp: pool_ok_def core_ok_def)
qed

lemma retire_ok: "pool_ok cfg q \<Longrightarrow> pool_ok cfg (retire_timed nx q kt)"
  using pool_ok_core [OF timers_frame(4), of cfg "fst kt" q] drop_mapped_ok [of cfg "forget_timed (fst kt) q" "fst kt"]
  by (auto simp: retire_timed_def Let_def split: option.splits)

lemma fold_ok: "(\<And>q x. pool_ok cfg q \<Longrightarrow> pool_ok cfg (f q x)) \<Longrightarrow> pool_ok cfg p \<Longrightarrow> pool_ok cfg (foldl f p xs)"
  by (induction xs arbitrary: p) simp_all

lemma reconcileTimed_ok:
  assumes "pool_ok cfg p" shows "pool_ok cfg (fst (reconcileTimed key ts p))"
proof -
  define nx where "nx = foldl (\<lambda>m t. AList.update (key t) t m) [] ts"
  define p1 where "p1 = foldl (retire_timed nx) p (sp_timed p)"
  have "pool_ok cfg p1" unfolding p1_def by (rule fold_ok [OF retire_ok assms])
  then have "pool_ok cfg (p1\<lparr>sp_timed := foldl (\<lambda>m (k, t). AList.update k t m) (sp_timed p1) nx\<rparr>)"
    by (simp add: pool_ok_def)
  then show ?thesis
    unfolding reconcileTimed_def Let_def nx_def [symmetric] p1_def [symmetric] fst_conv
    by (intro fold_ok) (auto intro: enable_dispatch_ok split: option.splits)
qed

lemma wake_timer_ok: "pool_ok cfg p \<Longrightarrow> pool_ok cfg (fst (wake_timer cfg k en p))"
  using enter_ok [of cfg "clearTimedWakeTimer k (p\<lparr>sp_timedWakeups := AList.delete k (sp_timedWakeups p)\<rparr>)"]
  by (auto simp: wake_timer_def wakeTimed_def clearTimedWakeTimer_def pool_ok_def Let_def split: option.splits)

lemma clean_act_core:
  assumes "pool_core p = pool_core q" shows "clean_act p a = clean_act q a"
proof -
  have "sp_servers p = sp_servers q" "sp_heap p = sp_heap q" using assms by (simp_all add: pool_core_eq_iff)
  then show ?thesis by (simp only: clean_act_def)
qed

lemma ready_fail_ok:
  assumes "pool_ok cfg p" "clean_act p (ReadyFail k sid)" shows "pool_ok cfg (ready_fail k sid p)"
proof -
  have "pool_core (p\<lparr>sp_readyFailures := sp_readyFailures p + 1\<rparr>) = pool_core p" by (simp add: pool_core_eq_iff)
  then show ?thesis
    unfolding ready_fail_def using assms clean_act_core pool_ok_core by (metis drop_server_ok)
qed

lemma pool_step_ok: "pool_ok cfg p \<Longrightarrow> clean_act p a \<Longrightarrow> pool_ok cfg (pool_step cfg key p a)"
  using pool_ok_core [OF timers_frame(5), of cfg] pool_ok_core [OF timers_frame(6), of cfg]
  by (cases a) (auto simp: enter_ok on_exit_ok dispose_server_ok touch_ok pool_dispose_ok disposeAll_ok evictIdle_ok
      reconcileTimed_ok wake_timer_ok ready_fail_ok, simp add: pool_ok_def)

text \<open>A run in which every failed wait is handled cleanly.\<close>

fun clean_run :: "pool_config \<Rightarrow> (TimedSprout \<Rightarrow> string) \<Rightarrow> sprout_pool \<Rightarrow> pool_act list \<Rightarrow> bool" where
  "clean_run cfg key p [] \<longleftrightarrow> True"
| "clean_run cfg key p (a # as) \<longleftrightarrow> clean_act p a \<and> clean_run cfg key (pool_step cfg key p a) as"

definition clean_pool_step :: "pool_config \<Rightarrow> (TimedSprout \<Rightarrow> string) \<Rightarrow> sprout_pool \<Rightarrow> pool_act \<Rightarrow> sprout_pool" where
  "clean_pool_step cfg key p a = (if clean_act p a then pool_step cfg key p a else p)"

lemma empty_pool_ok: "pool_ok cfg empty_pool"
  by (simp add: pool_ok_def empty_pool_def core_ok_def)

interpretation sprouts: machine empty_pool "clean_pool_step cfg key" "pool_ok cfg" for cfg key
  by unfold_locales (simp_all add: empty_pool_ok clean_pool_step_def pool_step_ok)

lemma clean_run_eq: "clean_run cfg key p as \<Longrightarrow> foldl (pool_step cfg key) p as = foldl (clean_pool_step cfg key) p as"
  by (induction as arbitrary: p) (simp_all add: clean_pool_step_def)

lemma clean_run_ok: "clean_run cfg key empty_pool as \<Longrightarrow> pool_ok cfg (foldl (pool_step cfg key) empty_pool as)"
  using sprouts.run_inv [of cfg key as] by (simp add: sprouts.run_def clean_run_eq)

lemma pool_ok_tracks:
  assumes ok: "pool_ok cfg p" and s: "sp_heap p s = Some sv" "\<not> sv_closed sv"
  shows "map_of (sp_servers p) (sv_key sv) = Some s" "sv_port sv \<in> sp_usedPorts p"
    "pc_lo cfg \<le> sv_port sv" "sv_port sv \<le> pc_hi cfg"
proof -
  have core: "core_ok cfg (sp_servers p) (sp_heap p) (sp_next p) (sp_usedPorts p)" using ok by (simp add: pool_ok_def)
  have mem: "(sv_key sv, s) \<in> set (sp_servers p)" using core_ok_live(2) [OF core s] .
  show "map_of (sp_servers p) (sv_key sv) = Some s" using mem core_ok_distinct [OF core] by simp
  show "sv_port sv \<in> sp_usedPorts p" "pc_lo cfg \<le> sv_port sv" "sv_port sv \<le> pc_hi cfg"
    using core_ok_entry [OF core mem] s(1) by auto
qed

lemma pool_ok_ports_distinct:
  assumes ok: "pool_ok cfg p" and s: "sp_heap p s = Some sv" "\<not> sv_closed sv" and t: "sp_heap p t = Some w" "\<not> sv_closed w"
    and same: "sv_port sv = sv_port w"
  shows "s = t"
proof -
  have core: "core_ok cfg (sp_servers p) (sp_heap p) (sp_next p) (sp_usedPorts p)" using ok by (simp add: pool_ok_def)
  show ?thesis
    using core_ok_ports [OF core core_ok_live(2) [OF core s] core_ok_live(2) [OF core t]] s t same by (simp add: port_of_def)
qed

text \<open>
  C32: whatever way requests, exits, failed waits, evictions, disposals and timer wakes interleave,
  every running sprout is the one the pool's map names under its key, holds a port of the range
  that is marked used, and shares that port with no other running sprout; disposing of the pool
  leaves none running. A failed wait must still find its own server in the map.
\<close>

theorem pool_tracks_running_sprouts:
  assumes "clean_run cfg key empty_pool as"
  shows "let p = foldl (pool_step cfg key) empty_pool as
    in (\<forall>s sv. sp_heap p s = Some sv \<and> \<not> sv_closed sv \<longrightarrow>
          map_of (sp_servers p) (sv_key sv) = Some s \<and> sv_port sv \<in> sp_usedPorts p \<and>
          pc_lo cfg \<le> sv_port sv \<and> sv_port sv \<le> pc_hi cfg \<and>
          (\<forall>t w. sp_heap p t = Some w \<and> \<not> sv_closed w \<and> sv_port w = sv_port sv \<longrightarrow> t = s)) \<and>
       (\<forall>s sv. sp_heap (disposeAll p) s = Some sv \<longrightarrow> sv_closed sv)"
  using pool_ok_tracks [OF clean_run_ok [OF assms]] pool_ok_ports_distinct [OF clean_run_ok [OF assms]]
    disposeAll_closes [OF clean_run_ok [OF assms]] by (simp add: Let_def) metis

definition sample_config :: pool_config where
  "sample_config = \<lparr>pc_idleMs = 600000, pc_lo = 40000, pc_hi = 40001, pc_path = (\<lambda>p. p)\<rparr>"

definition sample_env :: "bool \<Rightarrow> spawn_env" where
  "sample_env ok = \<lparr>en_now = 0, en_bindable = (\<lambda>_. True), en_withBroker = False, en_start = 0, en_spawns = ok\<rparr>"

lemmas pool_eval = enter_def empty_pool_def sample_config_def sample_env_def freePort_def port_usable_def Let_def
  clean_act_def on_exit_def ready_fail_def drop_server_def dispose_server_def server_port_def disposeAll_def port_of_def

theorem pool_tracks_running_sprouts_witness:
  "let as = [Enter ''k'' ''a'' False (sample_env True), AwaitFails 0, ReadyFail ''k'' 0, Enter ''k'' ''a'' False (sample_env True)];
       p = foldl (pool_step sample_config ts_path) empty_pool as
   in \<exists>sv. sp_heap p 1 = Some sv \<and> \<not> sv_closed sv \<and> map_of (sp_servers p) (sv_key sv) = Some 1 \<and>
        sv_port sv \<in> sp_usedPorts p"
proof -
  let ?as = "[Enter ''k'' ''a'' False (sample_env True), AwaitFails 0, ReadyFail ''k'' 0, Enter ''k'' ''a'' False (sample_env True)]"
  let ?p = "foldl (pool_step sample_config ts_path) empty_pool ?as"
  have clean: "clean_run sample_config ts_path empty_pool ?as"
    by (simp add: pool_eval upt_rec)
  have "\<exists>sv. sp_heap ?p 1 = Some sv \<and> \<not> sv_closed sv"
    by (simp add: pool_eval upt_rec)
  then obtain sv where sv: "sp_heap ?p 1 = Some sv" "\<not> sv_closed sv" by blast
  have "map_of (sp_servers ?p) (sv_key sv) = Some 1 \<and> sv_port sv \<in> sp_usedPorts ?p"
    using pool_tracks_running_sprouts [OF clean] sv unfolding Let_def by blast
  with sv show ?thesis unfolding Let_def by blast
qed


text \<open>
  A spawn that throws keeps its port. The port is marked used before the process is started and
  nothing frees it, so failing starts of one deployment use up the range for all of them.
\<close>

theorem throwing_spawn_leaks_port:
  "let p = foldl (pool_step sample_config ts_path) empty_pool
     [Enter ''k'' ''a'' False (sample_env False), Enter ''k'' ''a'' False (sample_env False)]
   in sp_servers p = [] \<and> sp_usedPorts p = {40001, 40000} \<and>
      snd (enter sample_config ''other'' ''b'' False (sample_env True) p) = NoFreePort"
  by (simp add: pool_eval upt_rec)

section \<open>Ports, eviction and waits\<close>

lemma freePort_complete:
  "freePort cfg b wb st used = None \<longleftrightarrow>
     (\<forall>port. pc_lo cfg \<le> port \<and> port \<le> pc_hi cfg \<longrightarrow> port \<in> used \<or> \<not> port_usable b wb port)"
proof -
  define size where "size = pc_hi cfg + 1 - pc_lo cfg"
  have "(\<lambda>i. pc_lo cfg + (st + i) mod size) ` {0..<size} = {pc_lo cfg..pc_hi cfg}"
  proof (cases "size = 0")
    case False
    have "\<exists>i<size. port = pc_lo cfg + (st + i) mod size" if "pc_lo cfg \<le> port" "port \<le> pc_hi cfg" for port
    proof -
      let ?i = "(port - pc_lo cfg + (size - st mod size)) mod size"
      have "(st + ?i) mod size = (st mod size + (port - pc_lo cfg + (size - st mod size))) mod size"
        by (simp add: mod_simps)
      also have "st mod size + (port - pc_lo cfg + (size - st mod size)) = port - pc_lo cfg + size"
        using mod_less_divisor [of size st] False by linarith
      finally have "(st + ?i) mod size = (port - pc_lo cfg) mod size" by simp
      moreover have "port - pc_lo cfg < size" using that by (simp add: size_def)
      ultimately have "(st + ?i) mod size = port - pc_lo cfg" by simp
      then show ?thesis using False that by (intro exI [of _ ?i]) simp
    qed
    moreover have "pc_lo cfg + (st + i) mod size \<le> pc_hi cfg" for i
    proof -
      have "(st + i) mod size < size" using False by simp
      then show ?thesis unfolding size_def by linarith
    qed
    ultimately show ?thesis by (intro equalityI subsetI) fastforce+
  qed (simp add: size_def)
  then have ports: "set (map (\<lambda>i. pc_lo cfg + (st + i) mod size) [0..<size]) = {pc_lo cfg..pc_hi cfg}"
    by (simp only: set_map set_upt)
  have "freePort cfg b wb st used = None \<longleftrightarrow>
      \<not> (\<exists>port. port \<in> set (map (\<lambda>i. pc_lo cfg + (st + i) mod size) [0..<size]) \<and> port \<notin> used \<and> port_usable b wb port)"
    unfolding freePort_def Let_def size_def by (rule find_None_iff)
  then show ?thesis unfolding ports by auto
qed

lemma wake_delay_bounds: "250 \<le> wake_delay n \<and> wake_delay n \<le> 30000"
proof -
  have "(1::int) \<le> 2 ^ min (n - 1) 7" by simp
  then show ?thesis by (simp add: wake_delay_def)
qed

text \<open>An endpoint call makes at most two attempts and fails on a foreign listener only twice in a row.\<close>

lemma endpoint_attempts:
  "2 \<le> length rs \<Longrightarrow> (case endpoint 1 rs of (r, n) \<Rightarrow> r \<noteq> None \<and> n \<le> 2 \<and> (r = Some Foreign \<longleftrightarrow> n = 2))"
proof (cases rs)
  case (Cons r rs')
  assume "2 \<le> length rs"
  then obtain r' rs'' where "rs' = r' # rs''" using Cons by (cases rs') auto
  then show ?thesis using Cons by (cases r; cases r') (simp_all add: numeral_2_eq_2)
qed simp

lemma dispose_server_last:
  "idle_past cfg now s (dispose_server sid q) = idle_past cfg now s q"
  by (auto simp: idle_past_def dispose_server_def split: option.splits)

lemma drop_server_frame [frame_simps]:
  "idle_past cfg now s (drop_server k sid q) = idle_past cfg now s q"
  "sp_timed (drop_server k sid q) = sp_timed q"
  using dispose_server_last [of cfg now s sid q]
  by (auto simp: drop_server_def idle_past_def dispose_server_def Let_def split: option.splits)

lemma evict_fold:
  assumes "distinct (map fst xs)"
  shows "set (sp_servers (fst (foldl (evict_one cfg now) (q, n) xs))) =
    {x \<in> set (sp_servers q). \<forall>y \<in> set xs. fst y = fst x \<longrightarrow> map_of (sp_timed q) (fst y) \<noteq> None \<or> \<not> idle_past cfg now (snd y) q}"
  using assms
proof (induction xs arbitrary: q n)
  case (Cons x xs)
  obtain k sid where x: "x = (k, sid)" by force
  let ?drop = "map_of (sp_timed q) k = None \<and> idle_past cfg now sid q"
  have step: "evict_one cfg now (q, n) x = (if ?drop then (drop_server k sid q, n + 1) else (q, n))"
    by (auto simp: evict_one_def x)
  show ?case
  proof (cases ?drop)
    case True
    then show ?thesis
      using Cons step by (auto simp: x frame_simps drop_server_servers set_delete)
  next
    case False
    then show ?thesis using Cons step by (auto simp: x)
  qed
qed simp

text \<open>Eviction removes exactly the servers that are not timed and have been idle for the whole window.\<close>

lemma evictIdle_exact:
  assumes "pool_ok cfg p"
  shows "set (sp_servers (fst (evictIdle cfg now p))) =
    {(k, sid) \<in> set (sp_servers p). map_of (sp_timed p) k \<noteq> None \<or> \<not> idle_past cfg now sid p}"
proof -
  have d: "distinct (map fst (sp_servers p))" using assms by (simp add: pool_ok_def core_ok_def)
  have one: "sid' = sid" if "(k, sid) \<in> set (sp_servers p)" "(k, sid') \<in> set (sp_servers p)" for k sid sid'
    using d that by (metis eq_key_imp_eq_value)
  show ?thesis
    using evict_fold [OF d, of cfg now p 0] by (auto simp: evictIdle_def Let_def dest: one)
qed

section \<open>Separate contexts have separate processes\<close>

lemma split_at_mark:
  "c \<notin> set a \<Longrightarrow> c \<notin> set b \<Longrightarrow> a @ c # x = b @ c # y \<longleftrightarrow> a = b \<and> x = y"
  by (induction a arbitrary: b) (case_tac [!] b, auto)

lemma json_quote_no_nul: "CHR 0x00 \<notin> set (json_quote s)"
proof -
  have hex: "hex_digit n \<noteq> CHR 0x00" if "n < 16" for n
  proof -
    have "(of_char (hex_digit n) :: nat) \<noteq> 0" using that by (simp add: hex_digit_def)
    then show ?thesis by auto
  qed
  have "CHR 0x00 \<notin> set (json_escape c)" for c
    using hex [of "of_char c div 16", symmetric] hex [of "of_char c mod 16", symmetric]
    by (auto simp: json_escape_def Let_def div_less_iff_less_mult)
  then show ?thesis by (simp add: json_quote_def)
qed

lemma join_with_no: "c \<notin> set sep \<Longrightarrow> (\<And>x. x \<in> set xs \<Longrightarrow> c \<notin> set x) \<Longrightarrow> c \<notin> set (join_with sep xs)"
  by (induction sep xs rule: join_with.induct) auto

lemma service_text_no_nul: "CHR 0x00 \<notin> set (service_text collate ss)"
proof -
  have "CHR 0x00 \<notin> set (json_pair x)" for x using json_quote_no_nul by (simp add: json_pair_def)
  then have "CHR 0x00 \<notin> set (join_with '','' (map json_pair xs))" for xs
    by (intro join_with_no) auto
  then show ?thesis by (simp add: service_text_def)
qed

text \<open>Two routes share a process only when artifact, secrets file, services and account context agree.\<close>

lemma runtimeKey_separates:
  assumes "CHR 0x00 \<notin> set (ap (ts_path t))" "CHR 0x00 \<notin> set (ap (ts_path u))"
    and "CHR 0x00 \<notin> set (case_option [] id (ts_secrets t))" "CHR 0x00 \<notin> set (case_option [] id (ts_secrets u))"
  shows "runtimeKey ap collate t = runtimeKey ap collate u \<longleftrightarrow>
    ap (ts_path t) = ap (ts_path u) \<and> case_option [] id (ts_secrets t) = case_option [] id (ts_secrets u) \<and>
    service_text collate (ts_services t) = service_text collate (ts_services u) \<and> r2_text (ts_r2 t) = r2_text (ts_r2 u)"
proof -
  have "(case ts_secrets x of None \<Rightarrow> [] | Some s \<Rightarrow> s) = case_option [] id (ts_secrets x)" for x :: TimedSprout
    by (simp split: option.splits)
  then show ?thesis
    using assms by (simp add: runtimeKey_def split_at_mark service_text_no_nul)
qed

end
