(* ===== verification/Sprout_Process.thy ===== *)
theory Sprout_Process
  imports Sprout_Pool
begin

text \<open>
  Starting one sprout and its bindings broker (\<open>spawnWithBroker\<close>, \<open>brokerArgs\<close>, the port waits and the
  binding credentials of \<open>src/services/supervisor/src/run.ts\<close>) and finding out who listens on a port
  (\<open>listener-owner.ts\<close>). Processes, sockets and files are arguments: what the operating system answers.
\<close>

section \<open>Binding credentials\<close>

text \<open>The map holds, under the hash of each credential, the hosts it may call.\<close>

type_synonym credentials = "(string \<times> string list) list"

definition hostOnly :: "string \<Rightarrow> string" where
  "hostOnly host = to_lower (hd (split_on CHR '':'' host))"

definition registerBindingCredential :: "(string \<Rightarrow> string) \<Rightarrow> string \<Rightarrow> string list \<Rightarrow> credentials \<Rightarrow> credentials" where
  "registerBindingCredential sha credential hosts m = AList.update (sha credential) (map hostOnly hosts) m"

definition revokeBindingCredential :: "(string \<Rightarrow> string) \<Rightarrow> string \<Rightarrow> credentials \<Rightarrow> credentials" where
  "revokeBindingCredential sha credential m = AList.delete (sha credential) m"

definition verifyBindingCall :: "(string \<Rightarrow> string) \<Rightarrow> string option \<Rightarrow> string \<Rightarrow> credentials \<Rightarrow> bool" where
  "verifyBindingCall sha credential host m =
     (case credential of
        None \<Rightarrow> False
      | Some c \<Rightarrow> c \<noteq> [] \<and> (case map_of m (sha c) of None \<Rightarrow> False | Some hosts \<Rightarrow> hostOnly host \<in> set hosts))"

section \<open>Waiting for a port\<close>

text \<open>
  Both waits are the same loop: look at the clock, try once, sleep, double the sleep up to a cap.
  \<open>clock i\<close> is the time of the \<open>i\<close>-th look and \<open>attempt i\<close> what the \<open>i\<close>-th try decides, if anything. Out
  of fuel is \<open>None\<close>.
\<close>

fun poll :: "nat \<Rightarrow> (nat \<Rightarrow> ms) \<Rightarrow> ms \<Rightarrow> (nat \<Rightarrow> 'r option) \<Rightarrow> 'r \<Rightarrow> nat \<Rightarrow> 'r option" where
  "poll 0 clock deadline attempt late i = None"
| "poll (Suc n) clock deadline attempt late i =
     (if clock i < deadline
      then (case attempt i of Some r \<Rightarrow> Some r | None \<Rightarrow> poll n clock deadline attempt late (i + 1))
      else Some late)"

fun wait_at :: "int \<Rightarrow> int \<Rightarrow> nat \<Rightarrow> int" where
  "wait_at first cap 0 = first"
| "wait_at first cap (Suc i) = (let w = wait_at first cap i in if w < cap then min cap (w * 2) else w)"

definition awaitPort :: "nat \<Rightarrow> (nat \<Rightarrow> ms) \<Rightarrow> ms \<Rightarrow> int \<Rightarrow> (nat \<Rightarrow> bool) \<Rightarrow> bool option" where
  "awaitPort fuel clock started timeoutMs listens =
     poll fuel clock (started + timeoutMs) (\<lambda>i. if listens i then Some True else None) False 0"

datatype ListenerOwner = Owned | ForeignOwner | NoListener | Unsupported

datatype listening = Listening | ExitedEarly | ForeignListener | TimedOut

text \<open>
  The verdict on a port that accepts: a child that reports no pid yet is still starting its broker, one
  without a pid at all is trusted.
\<close>

definition port_verdict :: "bool \<Rightarrow> nat option \<Rightarrow> (nat \<Rightarrow> ListenerOwner) \<Rightarrow> ListenerOwner" where
  "port_verdict hasPidField pid owner_of =
     (case pid of None \<Rightarrow> if hasPidField then NoListener else Unsupported | Some n \<Rightarrow> owner_of n)"

definition awaitListening ::
  "nat \<Rightarrow> (nat \<Rightarrow> ms) \<Rightarrow> ms \<Rightarrow> int \<Rightarrow> (nat \<Rightarrow> bool) \<Rightarrow> (nat \<Rightarrow> bool) \<Rightarrow> (nat \<Rightarrow> ListenerOwner) \<Rightarrow> listening option" where
  "awaitListening fuel clock started timeoutMs gone listens verdict =
     poll fuel clock (started + timeoutMs)
       (\<lambda>i. if gone i then Some ExitedEarly
            else if listens i
              then (case verdict i of ForeignOwner \<Rightarrow> Some ForeignListener | NoListener \<Rightarrow> None | _ \<Rightarrow> Some Listening)
              else None) TimedOut 0"

lemma wait_at_pos: "0 < w \<Longrightarrow> 0 < cap \<Longrightarrow> 0 < wait_at w cap i"
  by (induction i) (auto simp: Let_def)

lemma wait_at_cap: "w \<le> cap \<Longrightarrow> wait_at w cap i \<le> cap"
  by (induction i) (auto simp: Let_def)

lemma poll_ends:
  assumes "\<And>i. clock i + 1 \<le> clock (Suc i)" "nat (deadline - clock i) < n"
  shows "\<exists>r. poll n clock deadline attempt late i = Some r"
  using assms(2)
proof (induction n arbitrary: i)
  case (Suc n)
  have "nat (deadline - clock (i + 1)) < n" if "clock i < deadline"
    using Suc.prems assms(1) [of i] that by auto
  with Suc.IH [of "i + 1"] show ?case by (auto split: option.splits)
qed simp

lemma sleeping_clock:
  assumes "\<And>i. clock i + wait_at w cap i \<le> clock (Suc i)" "0 < w" "0 < cap"
  shows "clock i + 1 \<le> clock (Suc i)"
  using assms(1) [of i] wait_at_pos [OF assms(2,3), of i] by linarith

lemma awaitListening_ends:
  assumes "\<And>i. clock i + wait_at 1 20 i \<le> clock (Suc i)" "started \<le> clock 0" "nat timeoutMs < fuel"
  shows "\<exists>r. awaitListening fuel clock started timeoutMs gone listens verdict = Some r"
  unfolding awaitListening_def
  by (rule poll_ends) (use sleeping_clock [OF assms(1)] assms(2,3) in auto)

lemma awaitPort_ends:
  assumes "\<And>i. clock i + wait_at 2 25 i \<le> clock (Suc i)" "started \<le> clock 0" "nat timeoutMs < fuel"
  shows "\<exists>r. awaitPort fuel clock started timeoutMs listens = Some r"
  unfolding awaitPort_def
  by (rule poll_ends) (use sleeping_clock [OF assms(1)] assms(2,3) in auto)

section \<open>Who listens on a port\<close>

text \<open>\<open>/\s+/\<close> splitting of a trimmed line.\<close>

definition words_of :: "string \<Rightarrow> string list" where
  "words_of s = filter (\<lambda>w. w \<noteq> []) (split_on CHR '' '' (map (\<lambda>c. if is_space c then CHR '' '' else c) s))"

text \<open>\<open>Number.parseInt(text, 16)\<close> on the digits at the start of the text.\<close>

definition parse_hex :: "string \<Rightarrow> nat option" where
  "parse_hex s =
     (let ds = takeWhile (\<lambda>c. radix_digit c < 16) s
      in if ds = [] then None else Some (foldl (\<lambda>n c. n * 16 + radix_digit c) 0 ds))"

definition listening_inode :: "nat \<Rightarrow> string \<Rightarrow> nat option" where
  "listening_inode port line =
     (let fields = words_of line
      in if length fields < 10 \<or> fields ! 3 \<noteq> ''0A'' then None
         else if parse_hex (last (split_on CHR '':'' (fields ! 1))) \<noteq> Some port then None
         else case js_number (fields ! 9) of
                None \<Rightarrow> None
              | Some n \<Rightarrow> if n > 0 then Some (nat \<lfloor>n\<rfloor>) else None)"

text \<open>\<open>Inl ()\<close>: \<open>/proc/net/tcp\<close> is unreadable. An unreadable \<open>tcp6\<close> is skipped.\<close>

definition listeningInodes :: "string option \<Rightarrow> string option \<Rightarrow> nat \<Rightarrow> unit + nat list" where
  "listeningInodes tcp tcp6 port =
     (case tcp of
        None \<Rightarrow> Inl ()
      | Some text \<Rightarrow>
          let lines = tl (split_on CHR 0x0A text) @ (case tcp6 of None \<Rightarrow> [] | Some t \<Rightarrow> tl (split_on CHR 0x0A t))
          in Inr (uniq (List.map_filter (listening_inode port) lines)))"

text \<open>
  A snapshot of \<open>/proc\<close>: the children every process reports, and the sockets it holds. A process that
  is gone has no entry.
\<close>

type_synonym procs = "(nat \<times> nat list) list"

definition children_of :: "procs \<Rightarrow> nat \<Rightarrow> nat list" where
  "children_of ps pid = (case map_of ps pid of None \<Rightarrow> [] | Some cs \<Rightarrow> filter (\<lambda>c. c > 0) cs)"

definition all_children :: "procs \<Rightarrow> nat set" where
  "all_children ps = (\<Union>x \<in> set ps. set (snd x))"

lemma children_subset: "set (children_of ps pid) \<subseteq> all_children ps"
proof (cases "map_of ps pid")
  case (Some cs)
  then have "(pid, cs) \<in> set ps" by (rule map_of_SomeD)
  then have "set cs \<subseteq> all_children ps" unfolding all_children_def by (metis UN_upper snd_conv)
  then show ?thesis using Some by (auto simp: children_of_def)
qed (simp add: children_of_def)

lemma finite_all_children [simp]: "finite (all_children ps)"
  by (simp add: all_children_def)

text \<open>The loop of \<open>descendants\<close>: \<open>queue\<close> is popped at its end (here: its head) and grows there.\<close>

function visit :: "procs \<Rightarrow> nat list \<Rightarrow> nat list \<Rightarrow> nat list" where
  "visit ps seen [] = rev seen"
| "visit ps seen (next # queue) =
     (if next \<in> set seen then visit ps seen queue
      else visit ps (next # seen) (rev (children_of ps next) @ queue))"
  by pat_completeness auto
termination
proof (relation "measures [\<lambda>(ps, seen, queue). card ((set queue \<union> all_children ps) - set seen),
    \<lambda>(ps, seen, queue). length queue]")
  fix ps :: procs and seen queue :: "nat list" and pid :: nat
  assume new: "pid \<notin> set seen"
  have "(set (rev (children_of ps pid) @ queue) \<union> all_children ps) - set (pid # seen)
      \<subset> (set (pid # queue) \<union> all_children ps) - set seen"
    using children_subset [of ps pid] new by auto
  then show "((ps, pid # seen, rev (children_of ps pid) @ queue), ps, seen, pid # queue)
      \<in> measures [\<lambda>(ps, seen, queue). card ((set queue \<union> all_children ps) - set seen), \<lambda>(ps, seen, queue). length queue]"
    by (simp add: psubset_card_mono)
next
  fix ps :: procs and seen queue :: "nat list" and pid :: nat
  assume "pid \<in> set seen"
  then have "(set queue \<union> all_children ps) - set seen = (set (pid # queue) \<union> all_children ps) - set seen" by auto
  then show "((ps, seen, queue), ps, seen, pid # queue)
      \<in> measures [\<lambda>(ps, seen, queue). card ((set queue \<union> all_children ps) - set seen), \<lambda>(ps, seen, queue). length queue]"
    by simp
qed simp

definition descendants :: "procs \<Rightarrow> nat \<Rightarrow> nat list" where
  "descendants ps pid = visit ps [] [pid]"

definition socketInodes :: "(nat \<times> nat list) list \<Rightarrow> nat \<Rightarrow> nat list" where
  "socketInodes fds pid = (case map_of fds pid of None \<Rightarrow> [] | Some is \<Rightarrow> is)"

definition listenerOwner :: "string option \<Rightarrow> string option \<Rightarrow> procs \<Rightarrow> (nat \<times> nat list) list \<Rightarrow> nat \<Rightarrow> nat \<Rightarrow> ListenerOwner" where
  "listenerOwner tcp tcp6 ps fds port rootPid =
     (case listeningInodes tcp tcp6 port of
        Inl _ \<Rightarrow> Unsupported
      | Inr listening \<Rightarrow>
          if listening = [] then NoListener
          else let mine = concat (map (socketInodes fds) (descendants ps rootPid))
               in if list_all (\<lambda>i. i \<in> set mine) listening then Owned else ForeignOwner)"

definition child_rel :: "procs \<Rightarrow> (nat \<times> nat) set" where
  "child_rel ps = {(p, c). c \<in> set (children_of ps p)}"

lemma visit_reach:
  assumes "\<forall>s \<in> set seen. set (children_of ps s) \<subseteq> set seen \<union> set queue"
  shows "set (visit ps seen queue) = (child_rel ps)\<^sup>* `` (set seen \<union> set queue) \<and> (distinct seen \<longrightarrow> distinct (visit ps seen queue))"
  using assms
proof (induction ps seen queue rule: visit.induct)
  case (1 ps seen)
  then have "child_rel ps `` set seen \<subseteq> set seen" by (auto simp: child_rel_def)
  then show ?case using Image_closed_trancl [of "child_rel ps" "set seen"] by simp
next
  case (2 ps seen pid queue)
  show ?case
  proof (cases "pid \<in> set seen")
    case True
    then have "set seen \<union> set (pid # queue) = set seen \<union> set queue" by auto
    then show ?thesis using 2 True by (simp add: Un_commute insert_absorb)
  next
    case False
    let ?R = "(child_rel ps)\<^sup>*" and ?S = "set (pid # seen) \<union> set (rev (children_of ps pid) @ queue)"
    have "\<forall>s \<in> set (pid # seen). set (children_of ps s) \<subseteq> ?S" using 2(3) by auto
    moreover have "?R `` ?S = ?R `` (set seen \<union> set (pid # queue))"
    proof -
      have "?R `` set (children_of ps pid) \<subseteq> ?R `` {pid}"
        by (auto simp: child_rel_def intro: converse_rtrancl_into_rtrancl)
      then show ?thesis by (auto simp: Image_Un)
    qed
    ultimately show ?thesis using 2(2) [OF False] False by simp
  qed
qed

text \<open>
  C34: the walk over the process table ends, whatever children it is shown (cycles and vanished
  processes included), and yields the root and every process below it, each once. So a port counts
  as owned only if every listening socket on it is held inside the tree, and as foreign as soon as
  one is not.
\<close>

theorem listener_owner_sound:
  "set (descendants ps pid) = (child_rel ps)\<^sup>* `` {pid} \<and> distinct (descendants ps pid) \<and>
   (listenerOwner tcp tcp6 ps fds port pid = Owned \<longleftrightarrow>
      (\<exists>is. listeningInodes tcp tcp6 port = Inr is \<and> is \<noteq> [] \<and>
        set is \<subseteq> (\<Union>q \<in> (child_rel ps)\<^sup>* `` {pid}. set (socketInodes fds q))))"
proof -
  have d: "set (descendants ps pid) = (child_rel ps)\<^sup>* `` {pid}" "distinct (descendants ps pid)"
    using visit_reach [of "[]" ps "[pid]"] by (simp_all add: descendants_def)
  show ?thesis
    unfolding listenerOwner_def d(1) [symmetric] using d
    by (cases "listeningInodes tcp tcp6 port") (auto simp: Let_def list_all_iff)
qed

section \<open>Credentials live exactly as long as they are registered\<close>

lemma verify_registered:
  "c \<noteq> [] \<Longrightarrow> verifyBindingCall sha (Some c) host (registerBindingCredential sha c hosts m) \<longleftrightarrow>
     hostOnly host \<in> set (map hostOnly hosts)"
  by (simp add: verifyBindingCall_def registerBindingCredential_def update_conv')

lemma verify_revoked:
  "\<not> verifyBindingCall sha (Some c) host (revokeBindingCredential sha c m)"
  by (simp add: verifyBindingCall_def revokeBindingCredential_def delete_conv')

lemma verify_other:
  assumes "sha c \<noteq> sha d"
  shows "verifyBindingCall sha (Some d) host (registerBindingCredential sha c hosts m) = verifyBindingCall sha (Some d) host m"
    "verifyBindingCall sha (Some d) host (revokeBindingCredential sha c m) = verifyBindingCall sha (Some d) host m"
  using assms by (simp_all add: verifyBindingCall_def registerBindingCredential_def revokeBindingCredential_def
      update_conv' delete_conv')

section \<open>A sprout and its broker\<close>

text \<open>
  \<open>pr_broker\<close> and \<open>pr_sprout\<close>: not started, running, or dead. \<open>pr_credential\<close>: the broker's binding
  credential is registered. \<open>pr_exit\<close>: what \<open>exited\<close> resolved to.
\<close>

record sprout_pair =
  pr_broker :: "bool option"
  pr_sprout :: "bool option"
  pr_stopped :: bool
  pr_credential :: bool
  pr_exit :: "int option"

definition pair_stop :: "sprout_pair \<Rightarrow> sprout_pair" where
  "pair_stop p =
     (if pr_stopped p then p
      else p\<lparr>pr_stopped := True, pr_sprout := map_option (\<lambda>_. False) (pr_sprout p),
             pr_broker := map_option (\<lambda>_. False) (pr_broker p), pr_credential := False\<rparr>)"

text \<open>
  The sprout itself: \<open>Bun.spawn\<close> throws for an artifact that cannot be executed. A broker that has
  exited by now runs the handler installed here at once.
\<close>

definition start_sprout :: "bool \<Rightarrow> sprout_pair \<Rightarrow> sprout_pair" where
  "start_sprout executable p =
     (if executable
      then let p1 = p\<lparr>pr_sprout := Some True\<rparr> in if pr_broker p1 = Some False then pair_stop p1 else p1
      else p\<lparr>pr_broker := map_option (\<lambda>_. False) (pr_broker p), pr_exit := Some 1\<rparr>)"

text \<open>
  The state when \<open>spawnWithBroker\<close> returns: without bindings the sprout has been started, with them the
  broker runs and the sprout waits for its ports.
\<close>

definition pair_spawned :: "bool \<Rightarrow> bool \<Rightarrow> bool \<Rightarrow> sprout_pair" where
  "pair_spawned hasBindings callsServices executable =
     (let p = \<lparr>pr_broker = (if hasBindings then Some True else None), pr_sprout = None, pr_stopped = False,
               pr_credential = (hasBindings \<and> callsServices), pr_exit = None\<rparr>
      in if hasBindings then p else start_sprout executable p)"

text \<open>The gate in front of the sprout, once the waits for the broker's two ports have ended.\<close>

definition broker_gate :: "bool \<Rightarrow> bool \<Rightarrow> bool \<Rightarrow> bool \<Rightarrow> sprout_pair \<Rightarrow> sprout_pair" where
  "broker_gate up transferUp isForeign executable p =
     (case pr_broker p of
        None \<Rightarrow> start_sprout executable p
      | Some _ \<Rightarrow>
          if pr_stopped p then p\<lparr>pr_exit := Some 0\<rparr>
          else if \<not> up \<or> \<not> transferUp then p\<lparr>pr_broker := Some False, pr_exit := Some 1\<rparr>
          else if isForeign then p\<lparr>pr_broker := Some False, pr_credential := False, pr_exit := Some 1\<rparr>
          else start_sprout executable p)"

datatype pair_event = Gate bool bool bool bool | SproutExits int | BrokerExits | KillPair

text \<open>The gate opens once; exit handlers tear the pair down only once the sprout has been started.\<close>

fun pair_step :: "sprout_pair \<Rightarrow> pair_event \<Rightarrow> sprout_pair" where
  "pair_step p (Gate up tr fo ex) = (if pr_exit p = None \<and> pr_sprout p = None then broker_gate up tr fo ex p else p)"
| "pair_step p (SproutExits code) =
     (case pr_sprout p of
        None \<Rightarrow> p
      | Some _ \<Rightarrow> pair_stop (p\<lparr>pr_sprout := Some False, pr_exit := (case pr_exit p of None \<Rightarrow> Some code | e \<Rightarrow> e)\<rparr>))"
| "pair_step p BrokerExits =
     (case pr_broker p of
        None \<Rightarrow> p
      | Some _ \<Rightarrow> let p1 = p\<lparr>pr_broker := Some False\<rparr> in if pr_sprout p1 \<noteq> None then pair_stop p1 else p1)"
| "pair_step p KillPair = pair_stop p"

text \<open>
  Once the sprout has been started, a dead half means a stopped pair: both dead, the credential
  revoked.
\<close>

definition pair_ok :: "sprout_pair \<Rightarrow> bool" where
  "pair_ok p \<longleftrightarrow>
     (pr_stopped p \<longrightarrow> pr_sprout p \<noteq> Some True \<and> pr_broker p \<noteq> Some True \<and> \<not> pr_credential p) \<and>
     (pr_sprout p = Some False \<longrightarrow> pr_stopped p) \<and>
     (pr_sprout p \<noteq> None \<and> pr_broker p = Some False \<longrightarrow> pr_stopped p) \<and>
     (pr_broker p = None \<longrightarrow> (pr_sprout p \<noteq> None \<or> pr_exit p \<noteq> None) \<and> \<not> pr_credential p)"

lemma pair_stop_ok:
  assumes "pr_stopped p \<longrightarrow> pr_sprout p \<noteq> Some True \<and> pr_broker p \<noteq> Some True \<and> \<not> pr_credential p"
    and "pr_broker p = None \<longrightarrow> pr_sprout p \<noteq> None \<or> pr_exit p \<noteq> None"
  shows "pair_ok (pair_stop p)"
  using assms by (auto simp: pair_ok_def pair_stop_def)

lemma start_sprout_ok:
  assumes "pr_sprout p = None" "\<not> pr_stopped p" "pr_broker p = None \<longrightarrow> \<not> pr_credential p"
  shows "pair_ok (start_sprout ex p)"
  using assms by (auto simp: start_sprout_def pair_ok_def pair_stop_def Let_def)

lemma pair_spawned_ok: "pair_ok (pair_spawned hb cs ex)"
  using start_sprout_ok by (auto simp: pair_spawned_def Let_def) (simp add: pair_ok_def)

lemma pair_step_ok:
  assumes "pair_ok p" shows "pair_ok (pair_step p e)"
proof (cases e)
  case (Gate up tr fo ex)
  have "pair_ok (broker_gate up tr fo ex p)" if "pr_sprout p = None" "pr_exit p = None"
  proof (cases "pr_stopped p")
    case True
    then show ?thesis
      using assms that by (auto simp: broker_gate_def pair_ok_def start_sprout_def Let_def pair_stop_def split: option.splits)
  next
    case False
    then show ?thesis
      using assms that start_sprout_ok [OF that(1) False]
      by (auto simp: broker_gate_def split: option.splits) (auto simp: pair_ok_def)
  qed
  then show ?thesis using assms Gate by simp
next
  case (SproutExits code)
  have "pair_ok (pair_stop (p\<lparr>pr_sprout := Some False, pr_exit := x\<rparr>))" for x
    using assms by (intro pair_stop_ok) (auto simp: pair_ok_def)
  then show ?thesis using assms SproutExits by (simp split: option.splits)
next
  case BrokerExits
  have "pair_ok (pair_stop (p\<lparr>pr_broker := Some False\<rparr>))"
    using assms by (intro pair_stop_ok) (auto simp: pair_ok_def)
  moreover have "pair_ok (p\<lparr>pr_broker := Some False\<rparr>)" if "pr_sprout p = None" using assms that by (simp add: pair_ok_def)
  ultimately show ?thesis using assms BrokerExits by (simp add: Let_def split: option.splits)
next
  case KillPair
  have "pair_ok (pair_stop p)" using assms by (intro pair_stop_ok) (simp_all add: pair_ok_def)
  then show ?thesis using KillPair by simp
qed

interpretation pair: machine "pair_spawned hb cs ex" pair_step pair_ok for hb cs ex
  by unfold_locales (rule pair_spawned_ok, rule pair_step_ok)

text \<open>
  C35: in any order of gate, exits and kills, once a sprout with a broker has been started, the exit
  of either half or a kill leaves both dead and the broker's credential revoked.
\<close>

theorem pair_dies_together:
  "let p = foldl pair_step (pair_spawned hb cs ex) es
   in (pr_stopped p \<or> pr_sprout p = Some False \<or> (pr_sprout p \<noteq> None \<and> pr_broker p = Some False) \<longrightarrow>
       pr_sprout p \<noteq> Some True \<and> pr_broker p \<noteq> Some True \<and> \<not> pr_credential p)"
  using pair.run_inv [of hb cs ex es] by (simp add: pair.run_def pair_ok_def Let_def)

theorem pair_dies_together_witness:
  "let p = foldl pair_step (pair_spawned True True True) [Gate True True False True, BrokerExits]
   in pr_sprout p \<noteq> Some True \<and> pr_broker p \<noteq> Some True \<and> \<not> pr_credential p"
proof -
  have "pr_stopped (foldl pair_step (pair_spawned True True True) [Gate True True False True, BrokerExits])"
    by code_simp
  with pair_dies_together [of True True True "[Gate True True False True, BrokerExits]"]
  show ?thesis unfolding Let_def by blast
qed

text \<open>
  A credential can outlive its broker. When the broker's ports never come up, or the sprout
  cannot be executed, the broker is killed and the pair reports its exit, but nothing revokes the
  credential: the pool treats the pair as gone and never calls \<open>kill\<close>.
\<close>

theorem credential_outlives_broker:
  "let p = pair_step (pair_spawned True True True) (Gate False True False True);
       q = pair_step (pair_spawned True True True) (Gate True True False False)
   in pr_exit p = Some 1 \<and> pr_broker p = Some False \<and> pr_credential p \<and>
      pr_exit q = Some 1 \<and> pr_broker q = Some False \<and> pr_credential q"
  by (simp add: pair_spawned_def broker_gate_def start_sprout_def Let_def)

end
