(* ===== verification/Paths.thy ===== *)
theory Paths
  imports Sproutboat_Prelude
begin

text \<open>
  POSIX paths as \<open>node:path\<close> treats them: \<open>resolve\<close>, \<open>join\<close>, \<open>dirname\<close> and \<open>basename\<close>. A path is its text;
  normalising drops empty and \<open>.\<close> segments and lets \<open>..\<close> take back the one before it. Used by the
  broker sandbox, the deploy handlers and the layout migration.
\<close>

fun norm_segments :: "string list \<Rightarrow> string list \<Rightarrow> string list" where
  "norm_segments acc [] = rev acc"
| "norm_segments acc (s # ss) =
     (if s = [] \<or> s = ''.'' then norm_segments acc ss
      else if s = ''..'' then norm_segments (tl acc) ss
      else norm_segments (s # acc) ss)"

definition segments :: "string \<Rightarrow> string list" where
  "segments p = norm_segments [] (split_on CHR ''/'' p)"

definition path_text :: "string list \<Rightarrow> string" where
  "path_text ss = (if ss = [] then ''/'' else concat (map (\<lambda>s. CHR ''/'' # s) ss))"

text \<open>\<open>resolve(base, p)\<close> for an absolute base.\<close>

definition resolve :: "string \<Rightarrow> string \<Rightarrow> string" where
  "resolve base p = path_text (segments (if starts_with p ''/'' then p else base @ ''/'' @ p))"

text \<open>\<open>join(a, b)\<close> for an absolute \<open>a\<close>.\<close>

definition path_join :: "string \<Rightarrow> string \<Rightarrow> string" where
  "path_join a b = path_text (segments (a @ ''/'' @ b))"

definition dirname :: "string \<Rightarrow> string" where
  "dirname p = path_text (butlast (segments p))"

definition basename :: "string \<Rightarrow> string" where
  "basename p = (if segments p = [] then [] else last (segments p))"

section \<open>Canonical paths\<close>

text \<open>A segment that normalising keeps.\<close>

definition plain :: "string \<Rightarrow> bool" where
  "plain s \<longleftrightarrow> s \<noteq> [] \<and> s \<noteq> ''.'' \<and> s \<noteq> ''..'' \<and> CHR ''/'' \<notin> set s"

definition canonical :: "string \<Rightarrow> bool" where
  "canonical p \<longleftrightarrow> path_text (segments p) = p \<and> p \<noteq> ''/''"

lemma split_on_plain: "c \<notin> set s \<Longrightarrow> split_on c s = [s]"
  by (induction s) auto

lemma norm_segments_plain: "list_all plain ss \<Longrightarrow> norm_segments acc (ss @ ts) = norm_segments (rev ss @ acc) ts"
  by (induction ss arbitrary: acc) (auto simp: plain_def)

lemma norm_segments_result:
  "list_all plain acc \<Longrightarrow> list_all (\<lambda>s. CHR ''/'' \<notin> set s) ss \<Longrightarrow> list_all plain (norm_segments acc ss)"
proof (induction acc ss rule: norm_segments.induct)
  case (2 acc s ss)
  have "list_all plain (tl acc)" using 2(4) by (cases acc) auto
  moreover have "plain s" if "s \<noteq> []" "s \<noteq> ''.''" "s \<noteq> ''..''" using 2(5) that by (simp add: plain_def)
  ultimately show ?case using 2 by simp
qed simp

lemma split_on_parts: "x \<in> set (split_on c s) \<Longrightarrow> c \<notin> set x"
proof (induction s arbitrary: x)
  case (Cons y s)
  then show ?case by (cases "split_on c s") (auto split: if_splits)
qed simp

lemma segments_plain: "list_all plain (segments p)"
  unfolding segments_def by (rule norm_segments_result) (auto simp: list_all_iff dest: split_on_parts)

lemma split_path_text: "list_all plain ss \<Longrightarrow> ss \<noteq> [] \<Longrightarrow> split_on CHR ''/'' (path_text ss) = [] # ss"
proof (induction ss)
  case (Cons s ss)
  show ?case
  proof (cases ss)
    case Nil
    then show ?thesis using Cons by (simp add: path_text_def split_on_plain plain_def)
  next
    case (Cons t ts)
    have "path_text (s # ss) = (CHR ''/'' # s) @ path_text ss" using Cons by (simp add: path_text_def)
    moreover have "path_text ss = CHR ''/'' # t @ concat (map (\<lambda>s. CHR ''/'' # s) ts)" using Cons by (simp add: path_text_def)
    moreover have "split_on CHR ''/'' (path_text ss) = [] # ss" using Cons.IH Cons.prems Cons by simp
    ultimately show ?thesis
      using split_on_append [of "CHR ''/''" s "t @ concat (map (\<lambda>s. CHR ''/'' # s) ts)"] Cons.prems
      by (simp add: split_on_plain plain_def)
  qed
qed simp

lemma segments_path_text: "list_all plain ss \<Longrightarrow> segments (path_text ss) = ss"
proof (cases "ss = []")
  case False
  assume p: "list_all plain ss"
  then show ?thesis
    using split_path_text [OF p False] norm_segments_plain [OF p, of "[]" "[]"] by (simp add: segments_def)
qed (simp add: segments_def path_text_def)

lemma segments_append:
  assumes "list_all plain ss" "ss \<noteq> []" "list_all plain ts" "ts \<noteq> []"
  shows "segments (path_text ss @ path_text ts) = ss @ ts"
proof -
  have "path_text ss @ path_text ts = path_text (ss @ ts)" using assms by (simp add: path_text_def)
  then show ?thesis using assms segments_path_text [of "ss @ ts"] by simp
qed

lemma canonical_cases:
  assumes "canonical p" obtains ss where "list_all plain ss" "ss \<noteq> []" "p = path_text ss"
proof
  show "list_all plain (segments p)" by (rule segments_plain)
  show "p = path_text (segments p)" "segments p \<noteq> []"
    using assms by (auto simp: canonical_def path_text_def split: if_splits)
qed

lemma canonical_path_text: "list_all plain ss \<Longrightarrow> ss \<noteq> [] \<Longrightarrow> canonical (path_text ss)"
proof -
  assume ss: "list_all plain ss" "ss \<noteq> []"
  then obtain s ts where s: "ss = s # ts" "s \<noteq> []" by (cases ss) (auto simp: plain_def)
  then have "path_text ss \<noteq> ''/''" by (simp add: path_text_def)
  with ss show ?thesis by (simp add: canonical_def segments_path_text)
qed

text \<open>Joining a plain name onto a canonical path is concatenation.\<close>

lemma join_plain:
  assumes "canonical p" "plain s"
  shows "path_join p s = p @ ''/'' @ s" "resolve p s = p @ ''/'' @ s" "canonical (p @ ''/'' @ s)"
    "dirname (p @ ''/'' @ s) = p" "basename (p @ ''/'' @ s) = s"
proof -
  obtain ss where ss: "list_all plain ss" "ss \<noteq> []" "p = path_text ss" by (rule canonical_cases [OF assms(1)])
  have tx: "p @ ''/'' @ s = path_text (ss @ [s])" using ss by (simp add: path_text_def)
  have seg: "segments (p @ ''/'' @ s) = ss @ [s]"
    unfolding tx using ss assms(2) by (intro segments_path_text) simp
  have rel: "\<not> starts_with s ''/''" using assms(2) by (cases s) (auto simp: plain_def starts_with_def)
  show "path_join p s = p @ ''/'' @ s" unfolding path_join_def seg by (rule tx [symmetric])
  show "resolve p s = p @ ''/'' @ s" unfolding resolve_def if_not_P [OF rel] seg by (rule tx [symmetric])
  show "canonical (p @ ''/'' @ s)"
    unfolding tx using ss assms(2) by (intro canonical_path_text) auto
  show "dirname (p @ ''/'' @ s) = p" unfolding dirname_def seg using ss by simp
  show "basename (p @ ''/'' @ s) = s" unfolding basename_def seg by simp
qed

end
