(* ===== verification/Broker_Sandbox.thy ===== *)
theory Broker_Sandbox
  imports Sprout_Process Paths
begin

text \<open>
  What a broker is started with: its files, mounts, environment and command line
  (\<open>broker-sandbox.ts\<close>, \<open>resource-layout.ts\<close>, \<open>sandbox.ts\<close>, \<open>runtime-name.ts\<close> and \<open>brokerArgs\<close> of
  \<open>run.ts\<close>, all under \<open>src/services/supervisor/src\<close>). The environment is a function from names to
  values, \<open>sha\<close> is the hex sha256 of a text, and \<open>cwd\<close> the directory relative paths are resolved in.
\<close>

type_synonym environ = "string \<Rightarrow> string option"

section \<open>Names\<close>

definition runtimeName :: "string \<Rightarrow> string" where
  "runtimeName sproutPath =
     (let dir = dirname sproutPath in basename (dirname dir) @ ''-'' @ basename dir)"

definition hex24 :: "string \<Rightarrow> bool" where
  "hex24 s \<longleftrightarrow> length s = 24 \<and> list_all is_hex s"

definition RESOURCE_ID :: "string \<Rightarrow> bool" where
  "RESOURCE_ID s \<longleftrightarrow> list_ex (\<lambda>k. starts_with s k \<and> hex24 (drop (length k) s)) [''kv_'', ''d1_'', ''r2_'', ''queue_'']"

definition DO_STORE_ID :: "string \<Rightarrow> bool" where
  "DO_STORE_ID s \<longleftrightarrow> starts_with s ''do_'' \<and> hex24 (drop 3 s)"

definition ownerDirName :: "(string \<Rightarrow> string) \<Rightarrow> owner option \<Rightarrow> string" where
  "ownerDirName sha ownerId =
     (case ownerId of None \<Rightarrow> ''unowned'' | Some o' \<Rightarrow> if o' = [] then ''unowned'' else take 32 (sha o'))"

definition ownerStorageDir :: "(string \<Rightarrow> string) \<Rightarrow> string \<Rightarrow> owner option \<Rightarrow> string" where
  "ownerStorageDir sha resourceDir ownerId = path_join (path_join resourceDir ''owners'') (ownerDirName sha ownerId)"

definition nul :: string where "nul = [CHR 0x00]"

definition r2BlobName :: "(string \<Rightarrow> string) \<Rightarrow> string \<Rightarrow> string \<Rightarrow> string option \<Rightarrow> string" where
  "r2BlobName sha bucket key generation =
     sha (case generation of
            None \<Rightarrow> bucket @ nul @ key
          | Some g \<Rightarrow> if g = [] then bucket @ nul @ key else bucket @ nul @ key @ nul @ g)"

definition r2PartName :: "(string \<Rightarrow> string) \<Rightarrow> string \<Rightarrow> string \<Rightarrow> string \<Rightarrow> string \<Rightarrow> string" where
  "r2PartName sha bucket key uploadId partNumber = sha (bucket @ nul @ key @ nul @ uploadId @ nul @ partNumber)"

definition sqliteFileSet :: "string \<Rightarrow> string list" where
  "sqliteFileSet path = [path, path @ ''-wal'', path @ ''-shm'']"

section \<open>Adopting an account's R2 files\<close>

text \<open>Files by path; a resource's rows: its objects and its upload parts.\<close>

type_synonym files = "string \<Rightarrow> string option"

record r2_rows =
  rr_objects :: "(string \<times> string \<times> string option) list"
  rr_parts :: "(string \<times> string \<times> string \<times> string) list"

definition moveIfPresent :: "string \<Rightarrow> string \<Rightarrow> files \<Rightarrow> files" where
  "moveIfPresent from to fs = (if fs from = None \<or> fs to \<noteq> None then fs else fs(to := fs from, from := None))"

definition adopt_resource :: "(string \<Rightarrow> string) \<Rightarrow> string \<Rightarrow> string \<Rightarrow> r2_rows \<Rightarrow> files \<Rightarrow> files" where
  "adopt_resource sha resourceDir dir rows fs =
     (let blob = (\<lambda>fs (bucket, key, g). let name = r2BlobName sha bucket key g @ ''.blob''
                    in moveIfPresent (resourceDir @ ''/r2-blobs/'' @ name) (dir @ ''/r2-blobs/'' @ name) fs);
          part = (\<lambda>fs (bucket, key, up, n). let name = r2PartName sha bucket key up n @ ''.part''
                    in moveIfPresent (resourceDir @ ''/r2-parts/'' @ name) (dir @ ''/r2-parts/'' @ name) fs)
      in foldl part (foldl blob fs (rr_objects rows)) (rr_parts rows))"

definition adoptOwnerR2Files ::
  "(string \<Rightarrow> string) \<Rightarrow> (string \<Rightarrow> r2_rows option) \<Rightarrow> string \<Rightarrow> owner option \<Rightarrow> string list \<Rightarrow> files \<Rightarrow> files \<times> string" where
  "adoptOwnerR2Files sha rows_of resourceDir ownerId ids fs =
     (let dir = ownerStorageDir sha resourceDir ownerId; marker = dir @ ''/.layout-1''
      in if fs marker \<noteq> None then (fs, dir)
         else let fs1 = foldl (\<lambda>fs i. if \<not> RESOURCE_ID i then fs
                                      else case rows_of i of None \<Rightarrow> fs | Some rows \<Rightarrow> adopt_resource sha resourceDir dir rows fs)
                          fs ids
              in (fs1(marker := Some []), dir))"

definition touchFiles :: "string list \<Rightarrow> files \<Rightarrow> files" where
  "touchFiles paths fs = foldl (\<lambda>fs p. if fs p = None then fs(p := Some []) else fs) fs paths"

section \<open>The plan of a sandbox\<close>

datatype BrokerSandboxMode = Bwrap | NoSandbox

definition brokerSandboxMode :: "environ \<Rightarrow> bool \<Rightarrow> string + BrokerSandboxMode" where
  "brokerSandboxMode env linux =
     (let mode = (case env ''SPROUTBOAT_BROKER_SANDBOX'' of
                    Some m \<Rightarrow> m
                  | None \<Rightarrow> (case env ''SPROUTBOAT_SPROUT_SANDBOX'' of
                               Some m \<Rightarrow> m | None \<Rightarrow> if linux then ''bwrap'' else ''none''))
      in if mode = ''bwrap'' then Inr Bwrap else if mode = ''none'' then Inr NoSandbox
         else Inl (''unknown SPROUTBOAT_BROKER_SANDBOX value: '' @ mode))"

record BrokerPlanInput =
  bp_bun :: string
  bp_entry :: string
  bp_nodeModules :: "string option"
  bp_stateDir :: string
  bp_resourceDir :: string
  bp_bindingsPath :: string
  bp_secretsPath :: "string option"
  bp_assetsDir :: "string option"
  bp_r2 :: "R2Runtime option"
  bp_doDb :: "string option"

datatype mount_mode = Ro | Rw

record Mount =
  mt_mode :: mount_mode
  mt_source :: string
  mt_dest :: string

definition BROKER_ENTRY_MODULES :: "string list" where
  "BROKER_ENTRY_MODULES = [''sqlite-guard.ts'']"

text \<open>The text up to the first occurrence of \<open>p\<close>, if there is one.\<close>

fun before_sub :: "string \<Rightarrow> string \<Rightarrow> string option" where
  "before_sub [] p = (if p = [] then Some [] else None)"
| "before_sub (c # s) p = (if starts_with (c # s) p then Some [] else map_option (Cons c) (before_sub s p))"

definition nodeModulesOf :: "string \<Rightarrow> string \<Rightarrow> string option" where
  "nodeModulesOf cwd file = map_option (\<lambda>pre. pre @ ''/node_modules'') (before_sub (resolve cwd file) ''/node_modules/'')"

text \<open>
  \<open>String(entry?.id)\<close>, where its text can be an id: a string, or an array with one such element. No
  other JSON value's text matches \<open>RESOURCE_ID\<close>.
\<close>

fun id_text :: "json \<Rightarrow> string" where
  "id_text (JStr s) = s"
| "id_text (JArr [x]) = id_text x"
| "id_text _ = []"

definition json_values :: "json \<Rightarrow> json list" where
  "json_values v = (case v of JObj fs \<Rightarrow> map snd fs | JArr vs \<Rightarrow> vs | _ \<Rightarrow> [])"

text \<open>\<open>bindings\<close>: the parsed \<open>bindings.json\<close>, \<open>None\<close> when it cannot be read or parsed.\<close>

definition boundResourceIds :: "json option \<Rightarrow> string list" where
  "boundResourceIds bindings =
     (case bindings of
        None \<Rightarrow> []
      | Some b \<Rightarrow>
          (case json_field b ''resources'' of
             None \<Rightarrow> []
           | Some r \<Rightarrow> uniq (filter RESOURCE_ID
               (map (\<lambda>e. case json_field e ''id'' of None \<Rightarrow> [] | Some i \<Rightarrow> id_text i) (json_values r)))))"

definition resourceBackupsDir :: "string \<Rightarrow> string \<Rightarrow> string" where
  "resourceBackupsDir cwd resourceDir = path_join (dirname (resolve cwd resourceDir)) ''backups''"

definition ro :: "string \<Rightarrow> Mount" where "ro source = \<lparr>mt_mode = Ro, mt_source = source, mt_dest = source\<rparr>"

definition rw :: "string \<Rightarrow> string \<Rightarrow> Mount" where "rw source dest = \<lparr>mt_mode = Rw, mt_source = source, mt_dest = dest\<rparr>"

definition do_base :: "string \<Rightarrow> string \<Rightarrow> string" where
  "do_base cwd doDb =
     (let p = resolve cwd doDb in if ends_with p ''.sqlite'' then take (length p - 7) p else p)"

definition plan_ids :: "json option \<Rightarrow> R2Runtime option \<Rightarrow> string list" where
  "plan_ids bindings r2 =
     uniq (boundResourceIds bindings @ (case r2 of None \<Rightarrow> [] | Some r \<Rightarrow> filter RESOURCE_ID (r2_resource_ids r)))"

definition read_mounts :: "string \<Rightarrow> BrokerPlanInput \<Rightarrow> Mount list" where
  "read_mounts cwd input =
     (let entry = resolve cwd (bp_entry input)
      in [ro (resolve cwd (bp_bun input))]
         @ (case bp_nodeModules input of None \<Rightarrow> [] | Some m \<Rightarrow> if m = [] then [] else [ro (resolve cwd m)])
         @ [ro entry] @ map (\<lambda>f. ro (path_join (dirname entry) f)) BROKER_ENTRY_MODULES
         @ [ro (resolve cwd (bp_bindingsPath input))]
         @ (case bp_secretsPath input of None \<Rightarrow> [] | Some s \<Rightarrow> if s = [] then [] else [ro (resolve cwd s)])
         @ (case bp_assetsDir input of None \<Rightarrow> []
            | Some a \<Rightarrow> if a = [] then [] else [ro (resolve cwd a), ro (path_join (dirname (resolve cwd a)) ''assets.json'')]))"

definition state_mounts :: "string \<Rightarrow> BrokerPlanInput \<Rightarrow> Mount list" where
  "state_mounts cwd input =
     (let stateDir = resolve cwd (bp_stateDir input)
      in [rw stateDir stateDir,
          rw (path_join stateDir ''d1-backups'') (resourceBackupsDir cwd (resolve cwd (bp_resourceDir input)))])"

definition resource_mounts :: "string \<Rightarrow> string list \<Rightarrow> Mount list" where
  "resource_mounts resourceDir ids =
     concat (map (\<lambda>i. map (\<lambda>f. rw f f) (sqliteFileSet (path_join resourceDir (i @ ''.sqlite'')))) ids)"

definition do_mounts :: "string \<Rightarrow> string option \<Rightarrow> Mount list" where
  "do_mounts cwd doDb =
     (case doDb of None \<Rightarrow> []
      | Some d \<Rightarrow> if d = [] then []
          else map (\<lambda>f. rw f f) (sqliteFileSet (do_base cwd d @ ''.sqlite'') @ [do_base cwd d @ ''.do-sql'']))"

definition owner_mounts :: "string \<Rightarrow> string \<Rightarrow> Mount list" where
  "owner_mounts resourceDir own =
     [rw (path_join own ''r2-blobs'') (path_join resourceDir ''r2-blobs''),
      rw (path_join own ''r2-parts'') (path_join resourceDir ''r2-parts'')]
     @ map2 rw (sqliteFileSet (path_join own ''r2-quota.sqlite'')) (sqliteFileSet (path_join resourceDir ''r2-quota.sqlite''))"

definition planBrokerSandbox :: "(string \<Rightarrow> string) \<Rightarrow> string \<Rightarrow> json option \<Rightarrow> BrokerPlanInput \<Rightarrow> Mount list" where
  "planBrokerSandbox sha cwd bindings input =
     (let resourceDir = resolve cwd (bp_resourceDir input)
      in read_mounts cwd input @ state_mounts cwd input
         @ resource_mounts resourceDir (plan_ids bindings (bp_r2 input))
         @ do_mounts cwd (bp_doDb input)
         @ owner_mounts resourceDir (ownerStorageDir sha resourceDir (map_option r2_owner (bp_r2 input))))"

text \<open>\<open>/\.sqlite(-wal|-shm)?$/\<close>.\<close>

definition sqlite_name :: "string \<Rightarrow> bool" where
  "sqlite_name p \<longleftrightarrow> list_ex (ends_with p) [''.sqlite'', ''.sqlite-wal'', ''.sqlite-shm'']"

definition prepareBrokerHostFiles ::
  "(string \<Rightarrow> string) \<Rightarrow> (string \<Rightarrow> r2_rows option) \<Rightarrow> string \<Rightarrow> BrokerPlanInput \<Rightarrow> Mount list \<Rightarrow> files \<Rightarrow> files" where
  "prepareBrokerHostFiles sha rows_of cwd input mounts fs =
     (let resourceDir = resolve cwd (bp_resourceDir input);
          fs1 = fst (adoptOwnerR2Files sha rows_of resourceDir (map_option r2_owner (bp_r2 input))
                  (case bp_r2 input of None \<Rightarrow> [] | Some r \<Rightarrow> r2_resource_ids r) fs)
      in touchFiles (map mt_source (filter (\<lambda>m. mt_mode m = Rw \<and> sqlite_name (mt_source m)) mounts)) fs1)"

section \<open>Environment and command line\<close>

definition BROKER_ENV_KEYS :: "string list" where
  "BROKER_ENV_KEYS = [''SB_EGRESS_URL'', ''SB_EGRESS_TOKEN'', ''SB_EGRESS_ALLOW'', ''SB_R2_TRANSFER_MAX_BYTES'',
     ''SB_FETCH_MAX_BYTES'', ''TZ'']"

definition brokerEnv :: "environ \<Rightarrow> string option \<Rightarrow> string \<times> string \<times> string \<Rightarrow> (string \<times> string) list" where
  "brokerEnv base edgeCredential runtime =
     [(''PATH'', fst runtime), (''HOME'', fst (snd runtime)), (''TMPDIR'', snd (snd runtime))]
     @ List.map_filter (\<lambda>k. case base k of None \<Rightarrow> None | Some v \<Rightarrow> if v = [] then None else Some (k, v)) BROKER_ENV_KEYS
     @ (case edgeCredential of None \<Rightarrow> [] | Some c \<Rightarrow> if c = [] then [] else [(''SB_EDGE_SECRET'', c)])"

definition DEFAULT_ROBIND :: string where
  "DEFAULT_ROBIND = ''/usr:/lib:/lib64:/etc/ld.so.cache:/etc/ld.so.conf:/etc/ld.so.conf.d:/etc/alternatives''"

definition env_or :: "environ \<Rightarrow> string list \<Rightarrow> string \<Rightarrow> string" where
  "env_or env names fallback =
     (case List.map_filter (\<lambda>n. case env n of Some v \<Rightarrow> if v = [] then None else Some v | None \<Rightarrow> None) names of
        [] \<Rightarrow> fallback | v # _ \<Rightarrow> v)"

definition brokerBwrapArgs :: "environ \<Rightarrow> Mount list \<Rightarrow> (string \<times> string) list \<Rightarrow> string list" where
  "brokerBwrapArgs env mounts vars =
     [''bwrap'', ''--unshare-user'', ''--unshare-pid'', ''--unshare-ipc'', ''--unshare-uts'', ''--unshare-cgroup-try'',
      ''--clearenv'', ''--new-session'', ''--die-with-parent'',
      ''--uid'', env_or env [''SPROUTBOAT_BROKER_UID'', ''SPROUTBOAT_SPROUT_UID''] ''65534'',
      ''--gid'', env_or env [''SPROUTBOAT_BROKER_GID'', ''SPROUTBOAT_SPROUT_GID''] ''65534'',
      ''--hostname'', ''broker'', ''--proc'', ''/proc'', ''--dev'', ''/dev'', ''--tmpfs'', ''/tmp'', ''--chdir'', ''/tmp'']
     @ concat (map (\<lambda>(n, v). [''--setenv'', n, v]) vars)
     @ concat (map (\<lambda>p. [''--ro-bind-try'', p, p])
         (filter (\<lambda>p. p \<noteq> []) (split_on CHR '':'' (case env ''SPROUTBOAT_BROKER_ROBIND'' of None \<Rightarrow> DEFAULT_ROBIND | Some r \<Rightarrow> r))))
     @ concat (map (\<lambda>m. [if mt_mode m = Ro then ''--ro-bind'' else ''--bind'', mt_source m, mt_dest m]) mounts)
     @ [''--'']"

definition withoutToken :: "string list \<Rightarrow> string list" where
  "withoutToken args =
     (let pre = takeWhile (\<lambda>a. a \<noteq> ''--token'') args
      in if length pre = length args then args else pre @ drop (length pre + 2) args)"

definition bwrapArgsFileContent :: "string list \<Rightarrow> string" where
  "bwrapArgsFileContent argv = join_with nul (butlast (tl argv)) @ nul"

definition brokerLaunchCommand :: "string \<Rightarrow> string list \<Rightarrow> string \<Rightarrow> string list" where
  "brokerLaunchCommand argsFile payload bwrapPath =
     [''/bin/bash'', ''-c'',
      ''exec {fd}<'' @ [CHR 0x22] @ ''$0'' @ [CHR 0x22] @ ''; rm -f -- '' @ [CHR 0x22] @ ''$0'' @ [CHR 0x22]
      @ ''; bwrap=$1; shift; exec '' @ [CHR 0x22] @ ''$bwrap'' @ [CHR 0x22] @ '' --args '' @ [CHR 0x22] @ ''$fd'' @ [CHR 0x22]
      @ '' -- '' @ [CHR 0x22] @ ''$@'' @ [CHR 0x22],
      argsFile, bwrapPath] @ payload"

section \<open>The sprout's own command\<close>

definition cgroupWrapper :: "environ \<Rightarrow> bool \<Rightarrow> string list" where
  "cgroupWrapper env linux =
     (if env ''SPROUTBOAT_SPROUT_CGROUP'' \<noteq> Some ''1'' \<or> \<not> linux then []
      else [''systemd-run'', ''--scope'', ''--quiet'', ''--collect'',
            ''-p'', ''MemoryMax='' @ env_or env [''SPROUTBOAT_SPROUT_MEMORY_MAX''] ''128M'', ''-p'', ''MemorySwapMax=0'',
            ''-p'', ''CPUQuota='' @ env_or env [''SPROUTBOAT_SPROUT_CPU_QUOTA''] ''50%'',
            ''-p'', ''TasksMax='' @ env_or env [''SPROUTBOAT_SPROUT_TASKS_MAX''] ''24'', ''--''])"

text \<open>\<open>default_launcher\<close> is the launcher script of the checkout. \<open>Inl\<close>: the error thrown.\<close>

definition sproutCommand :: "environ \<Rightarrow> bool \<Rightarrow> string \<Rightarrow> string \<Rightarrow> string + string list" where
  "sproutCommand env linux default_launcher sproutPath =
     (let mode = (case env ''SPROUTBOAT_SPROUT_SANDBOX'' of Some m \<Rightarrow> m | None \<Rightarrow> if linux then ''bwrap'' else ''none'')
      in if mode = ''bwrap'' then Inr [env_or env [''SPROUTBOAT_SPROUT_SANDBOX_CMD''] default_launcher, sproutPath]
         else if mode = ''none'' then
           if linux \<and> env ''SPROUTBOAT_UNSAFE_NO_SANDBOX'' \<noteq> Some ''1''
           then Inl (''refusing to run an untrusted native sprout unsandboxed on Linux; set SPROUTBOAT_SPROUT_SANDBOX=bwrap ''
             @ ''(or SPROUTBOAT_UNSAFE_NO_SANDBOX=1 for a trusted local test)'')
           else Inr (cgroupWrapper env linux @ [sproutPath])
         else Inl (''unknown SPROUTBOAT_SPROUT_SANDBOX value: '' @ mode))"

section \<open>The broker's arguments\<close>

definition positiveEnv :: "environ \<Rightarrow> string \<Rightarrow> nat \<Rightarrow> nat" where
  "positiveEnv env name fallback =
     (case env name of
        None \<Rightarrow> fallback
      | Some t \<Rightarrow>
          (case js_number t of
             None \<Rightarrow> fallback
           | Some v \<Rightarrow> if v > 0 \<and> v = of_int \<lfloor>v\<rfloor> \<and> v \<le> 9007199254740991 then nat \<lfloor>v\<rfloor> else fallback))"

record broker_opts =
  bo_exec :: string
  bo_entry :: string
  bo_brokerPort :: nat
  bo_transferPort :: "nat option"
  bo_token :: string
  bo_stateDir :: string
  bo_resourceDir :: string
  bo_bindingsPath :: string
  bo_sproutPort :: nat
  bo_r2 :: "R2Runtime option"
  bo_r2QuotaBytes :: "nat option"
  bo_r2MinFreeBytes :: "nat option"
  bo_secretsPath :: "string option"
  bo_assetsDir :: "string option"
  bo_services :: "(string \<times> string) list option"
  bo_edgeUrl :: "string option"
  bo_doDb :: "string option"
  bo_dispatchDisabled :: bool

text \<open>\<open>if (x) args.push(flag, String(x))\<close>, for a number and for a text.\<close>

definition flag_nat :: "string \<Rightarrow> nat option \<Rightarrow> string list" where
  "flag_nat flag x = (case x of None \<Rightarrow> [] | Some n \<Rightarrow> if n = 0 then [] else [flag, nat_text n])"

definition flag_text :: "string \<Rightarrow> string option \<Rightarrow> string list" where
  "flag_text flag x = (case x of None \<Rightarrow> [] | Some t \<Rightarrow> if t = [] then [] else [flag, t])"

definition services_json :: "(string \<times> string) list \<Rightarrow> string" where
  "services_json ss = ''{'' @ join_with '','' (map (\<lambda>(k, v). json_quote k @ '':'' @ json_quote v) ss) @ ''}''"

definition calls_services :: "(string \<times> string) list option \<Rightarrow> string option \<Rightarrow> bool" where
  "calls_services services edgeUrl = (services \<notin> {None, Some []} \<and> edgeUrl \<notin> {None, Some []})"

definition brokerArgs :: "string \<Rightarrow> broker_opts \<Rightarrow> string list" where
  "brokerArgs cwd opts =
     [bo_exec opts, ''--smol'', bo_entry opts, ''--port'', nat_text (bo_brokerPort opts), ''--token'', bo_token opts,
      ''--db'', resolve (resolve cwd (bo_stateDir opts)) ''state.sqlite'',
      ''--data-dir'', resolve (resolve cwd (bo_stateDir opts)) ''d1'',
      ''--resource-dir'', bo_resourceDir opts, ''--bindings'', bo_bindingsPath opts,
      ''--sprout-url'', ''http://127.0.0.1:'' @ nat_text (bo_sproutPort opts) @ ''/'']
     @ flag_nat ''--transfer-port'' (bo_transferPort opts)
     @ (case bo_r2 opts of None \<Rightarrow> []
        | Some r \<Rightarrow> [''--owner-id'', r2_owner r, ''--r2-resource-ids'', join_with '','' (r2_resource_ids r)]
            @ flag_nat ''--r2-quota-bytes'' (bo_r2QuotaBytes opts) @ flag_nat ''--r2-min-free-bytes'' (bo_r2MinFreeBytes opts))
     @ flag_text ''--secrets'' (bo_secretsPath opts)
     @ (if calls_services (bo_services opts) (bo_edgeUrl opts)
        then [''--services'', services_json (the (bo_services opts)), ''--edge-url'', the (bo_edgeUrl opts)] else [])
     @ flag_text ''--assets-dir'' (bo_assetsDir opts)
     @ flag_text ''--do-db'' (bo_doDb opts)
     @ (if bo_dispatchDisabled opts then [''--dispatch-disabled''] else [])"

text \<open>The broker's token never reaches its command line.\<close>

lemma brokerArgs_without_token:
  assumes "\<forall>x \<in> {bo_exec opts, bo_entry opts, nat_text (bo_brokerPort opts)}. x \<noteq> ''--token''"
  shows "withoutToken (brokerArgs cwd opts) = take 5 (brokerArgs cwd opts) @ drop 7 (brokerArgs cwd opts)"
  using assms by (simp add: withoutToken_def brokerArgs_def Let_def)

text \<open>Its environment holds only the runtime's, allowlisted and credential variables.\<close>

lemma brokerEnv_allowlisted:
  "fst ` set (brokerEnv base cred rt) \<subseteq> {''PATH'', ''HOME'', ''TMPDIR'', ''SB_EDGE_SECRET''} \<union> set BROKER_ENV_KEYS"
  by (auto simp: brokerEnv_def List.map_filter_def split: option.splits if_splits)

section \<open>Where a broker can write\<close>

lemma plan_ids_valid: "i \<in> set (plan_ids b r2) \<Longrightarrow> RESOURCE_ID i"
  by (auto simp: plan_ids_def boundResourceIds_def split: option.splits)

text \<open>What the app is bound to: its bindings, and its owner's buckets.\<close>

lemma plan_ids_bound:
  "i \<in> set (plan_ids b r2) \<longleftrightarrow>
     i \<in> set (boundResourceIds b) \<or> RESOURCE_ID i \<and> (\<exists>r. r2 = Some r \<and> i \<in> set (r2_resource_ids r))"
  by (auto simp: plan_ids_def split: option.splits)

lemma resource_id_plain: "RESOURCE_ID i \<Longrightarrow> plain (i @ ''.sqlite'')"
proof -
  assume "RESOURCE_ID i"
  then obtain k where k: "k \<in> {''kv_'', ''d1_'', ''r2_'', ''queue_''}" "starts_with i k" "hex24 (drop (length k) i)"
    unfolding RESOURCE_ID_def list_ex_iff by fastforce
  have "\<not> is_hex CHR ''/''" by code_simp
  then have "CHR ''/'' \<notin> set (drop (length k) i)" using k(3) by (auto simp: hex24_def list_all_iff)
  moreover obtain t where "i = k @ t" using k(2) by (auto simp: starts_with_iff)
  moreover have "CHR ''/'' \<notin> set k" "k \<noteq> []" using k(1) by auto
  moreover have "s @ ''.sqlite'' \<noteq> ''.'' \<and> s @ ''.sqlite'' \<noteq> ''..''" for s by (cases s) simp_all
  ultimately show ?thesis by (simp add: plain_def)
qed

lemma read_mounts_read: "m \<in> set (read_mounts cwd input) \<Longrightarrow> mt_mode m = Ro"
  by (auto simp: read_mounts_def ro_def Let_def split: option.splits if_splits)

lemma state_mounts_sources:
  "m \<in> set (state_mounts cwd input) \<Longrightarrow>
     mt_source m \<in> {resolve cwd (bp_stateDir input), path_join (resolve cwd (bp_stateDir input)) ''d1-backups''}"
  by (auto simp: state_mounts_def rw_def Let_def)

lemma resource_mounts_sources:
  "m \<in> set (resource_mounts rd ids) \<Longrightarrow> \<exists>i \<in> set ids. mt_source m \<in> set (sqliteFileSet (path_join rd (i @ ''.sqlite'')))"
  unfolding resource_mounts_def by (auto simp: rw_def)

lemma do_mounts_sources:
  "m \<in> set (do_mounts cwd doDb) \<Longrightarrow>
     \<exists>d. doDb = Some d \<and> mt_source m \<in> set (sqliteFileSet (do_base cwd d @ ''.sqlite'') @ [do_base cwd d @ ''.do-sql''])"
  unfolding do_mounts_def by (auto simp: rw_def split: option.splits if_splits)

lemma owner_mounts_sources:
  "m \<in> set (owner_mounts rd own) \<Longrightarrow>
     mt_source m \<in> set (path_join own ''r2-blobs'' # path_join own ''r2-parts'' # sqliteFileSet (path_join own ''r2-quota.sqlite''))"
  unfolding owner_mounts_def by (auto simp: rw_def dest: set_zip_leftD)

lemma sqlite_files_in: "f \<in> set (sqliteFileSet p) \<Longrightarrow> \<exists>t. f = p @ t"
  by (auto simp: sqliteFileSet_def)


definition sample_plan :: BrokerPlanInput where
  "sample_plan = \<lparr>bp_bun = ''/bun'', bp_entry = ''/e/m.ts'', bp_nodeModules = None, bp_stateDir = ''/s'',
     bp_resourceDir = ''/r'', bp_bindingsPath = ''/b.json'', bp_secretsPath = None, bp_assetsDir = None,
     bp_r2 = None, bp_doDb = None\<rparr>"


end
