(* ===== verification/Artifact_Check.thy ===== *)
theory Artifact_Check
  imports Paths
begin

text \<open>
  What an uploaded artifact must look like (\<open>src/apps/control/src/artifact.ts\<close>): the shape of
  \<open>bindings.json\<close>, the assets and their hashes, the executable and the manifest.

  A directory is a tree of names; bytes are a \<open>string\<close>. \<open>parse\<close> is \<open>JSON.parse\<close> (\<open>None\<close> when it throws),
  \<open>sha\<close> the hex sha256 of bytes, and \<open>vm\<close> the manifest check of the package \<open>@sproutboat/artifact\<close>.
\<close>

datatype node = File string | Dir "(string \<times> node) list"

section \<open>JSON guards\<close>

definition isStr :: "json option \<Rightarrow> bool" where
  "isStr v = (case v of Some (JStr _) \<Rightarrow> True | _ \<Rightarrow> False)"

definition isObj :: "json option \<Rightarrow> bool" where
  "isObj v = (case v of Some (JObj _) \<Rightarrow> True | _ \<Rightarrow> False)"

definition isNum :: "json option \<Rightarrow> bool" where
  "isNum v = (case v of Some (JNum _) \<Rightarrow> True | _ \<Rightarrow> False)"

definition isStrArray :: "json option \<Rightarrow> bool" where
  "isStrArray v = (case v of Some (JArr xs) \<Rightarrow> list_all (\<lambda>x. isStr (Some x)) xs | _ \<Rightarrow> False)"

definition str_of :: "json option \<Rightarrow> string" where
  "str_of v = (case v of Some (JStr s) \<Rightarrow> s | _ \<Rightarrow> [])"

text \<open>\<open>value[key]\<close> of an object, and \<open>Object.entries\<close> with a repeated name taken once, with its last value.\<close>

definition fld :: "json option \<Rightarrow> string \<Rightarrow> json option" where
  "fld v k = (case v of None \<Rightarrow> None | Some j \<Rightarrow> json_field j k)"

definition obj_entries :: "json option \<Rightarrow> (string \<times> json) list" where
  "obj_entries v = (case v of Some (JObj kvs) \<Rightarrow> map (\<lambda>k. (k, the (map_of (rev kvs) k))) (uniq (map fst kvs)) | _ \<Rightarrow> [])"

section \<open>bindings.json\<close>

datatype resource_kind = RKv | RD1 | RR2 | RQueue

record ResourceBindingRef =
  rb_binding :: string
  rb_kind :: resource_kind
  rb_id :: string

definition kind_of_text :: "string \<Rightarrow> resource_kind option" where
  "kind_of_text s = (if s = ''kv'' then Some RKv else if s = ''d1'' then Some RD1 else if s = ''r2'' then Some RR2
     else if s = ''queue'' then Some RQueue else None)"

definition resource_entry_ok :: "json \<Rightarrow> bool" where
  "resource_entry_ok e \<longleftrightarrow>
     isObj (Some e) \<and> isStr (fld (Some e) ''id'') \<and> isStr (fld (Some e) ''kind'') \<and>
     kind_of_text (str_of (fld (Some e) ''kind'')) \<noteq> None"

definition do_entry_ok :: "json \<Rightarrow> bool" where
  "do_entry_ok e \<longleftrightarrow> isObj (Some e) \<and> isStr (fld (Some e) ''binding'') \<and> isStr (fld (Some e) ''className'')"

definition LIST_KEYS :: "string list" where
  "LIST_KEYS = [''kv'', ''secrets'', ''d1'', ''r2'', ''queues'', ''analytics'', ''crons'']"

text \<open>\<open>value\<close> is \<open>None\<close> for \<open>undefined\<close>.\<close>

definition bindingsErrors :: "json option \<Rightarrow> string list" where
  "bindingsErrors value =
     (if \<not> isObj value then [''bindings.json must be a JSON object'']
      else
        map (\<lambda>k. ''bindings.json.'' @ k @ '' must be a string[]'')
          (filter (\<lambda>k. fld value k \<noteq> None \<and> \<not> isStrArray (fld value k)) LIST_KEYS)
        @ (if fld value ''assets'' \<noteq> None \<and> \<not> isStr (fld value ''assets'') then [''bindings.json.assets must be a string''] else [])
        @ (if fld value ''vars'' \<noteq> None \<and>
              \<not> (isObj (fld value ''vars'') \<and> list_all (\<lambda>(_, v). isStr (Some v)) (obj_entries (fld value ''vars'')))
           then [''bindings.json.vars must map names to string values''] else [])
        @ (if fld value ''do'' \<noteq> None \<and> \<not> (case fld value ''do'' of Some (JArr ds) \<Rightarrow> list_all do_entry_ok ds | _ \<Rightarrow> False)
           then [''bindings.json.do must be an array of { binding, className }''] else [])
        @ (if fld value ''resources'' \<noteq> None \<and>
              \<not> (isObj (fld value ''resources'') \<and>
                 list_all (\<lambda>(_, e). resource_entry_ok e) (obj_entries (fld value ''resources'')))
           then [''bindings.json.resources must map binding names to { kind, id }''] else []))"

definition ref_of :: "string \<times> json \<Rightarrow> ResourceBindingRef option" where
  "ref_of be =
     (if resource_entry_ok (snd be)
      then Some \<lparr>rb_binding = fst be, rb_kind = the (kind_of_text (str_of (fld (Some (snd be)) ''kind''))),
                 rb_id = str_of (fld (Some (snd be)) ''id'')\<rparr>
      else None)"

definition resourceBindingsOf :: "json option \<Rightarrow> ResourceBindingRef list" where
  "resourceBindingsOf value =
     (if isObj value \<and> isObj (fld value ''resources'') then List.map_filter ref_of (obj_entries (fld value ''resources'')) else [])"

text \<open>Assigning a string to \<open>__proto__\<close> of a plain object has no effect.\<close>

definition varsOf :: "json option \<Rightarrow> (string \<times> string) list" where
  "varsOf value =
     (if isObj value \<and> isObj (fld value ''vars'')
      then map (\<lambda>(k, v). (k, str_of (Some v)))
             (filter (\<lambda>(k, v). isStr (Some v) \<and> k \<noteq> ''__proto__'') (obj_entries (fld value ''vars''))) else [])"

record ArtifactBindings =
  ab_lists :: "(string \<times> string list) list"
  ab_assets :: "string option"
  ab_durableObjects :: "(string \<times> string) list"
  ab_resources :: "ResourceBindingRef list"
  ab_vars :: "(string \<times> string) list"

text \<open>The seven name lists \<open>kv\<close> ... \<open>crons\<close> of the source are \<open>ab_lists\<close>, by key.\<close>

definition name_list :: "json option \<Rightarrow> string \<Rightarrow> string list" where
  "name_list value key =
     (case fld value key of
        Some (JArr xs) \<Rightarrow> if isObj value \<and> isStrArray (fld value key) then map (\<lambda>x. str_of (Some x)) xs else []
      | _ \<Rightarrow> [])"

definition bindingsOf :: "json option \<Rightarrow> ArtifactBindings" where
  "bindingsOf value =
     \<lparr>ab_lists = map (\<lambda>k. (k, name_list value k)) LIST_KEYS,
      ab_assets = (if isObj value \<and> isStr (fld value ''assets'') then Some (str_of (fld value ''assets'')) else None),
      ab_durableObjects =
        (case fld value ''do'' of
           Some (JArr ds) \<Rightarrow>
             map (\<lambda>e. (str_of (fld (Some e) ''binding''), str_of (fld (Some e) ''className''))) (filter do_entry_ok ds)
         | _ \<Rightarrow> []),
      ab_resources = resourceBindingsOf value,
      ab_vars = varsOf value\<rparr>"

section \<open>Assets\<close>

definition listedAssetKeys :: "(string \<Rightarrow> json option) \<Rightarrow> string \<Rightarrow> string list option" where
  "listedAssetKeys parse content =
     (let parsed = parse content
      in if isObj parsed \<and> isObj (fld parsed ''files'') then Some (map fst (obj_entries (fld parsed ''files''))) else None)"

fun walk_node :: "string \<Rightarrow> node \<Rightarrow> string list" and walkFiles :: "string \<Rightarrow> (string \<times> node) list \<Rightarrow> string list" where
  "walk_node path (File _) = [path]"
| "walk_node path (Dir es) = walkFiles path es"
| "walkFiles prefix [] = []"
| "walkFiles prefix ((name, n) # es) = walk_node (prefix @ ''/'' @ name) n @ walkFiles prefix es"

text \<open>The bytes at a path below a directory, by its segments.\<close>

fun read_at :: "(string \<times> node) list \<Rightarrow> string list \<Rightarrow> string option" where
  "read_at es [] = None"
| "read_at es [s] = (case map_of es s of Some (File b) \<Rightarrow> Some b | _ \<Rightarrow> None)"
| "read_at es (s # t # ss) = (case map_of es s of Some (Dir ds) \<Rightarrow> read_at ds (t # ss) | _ \<Rightarrow> None)"

definition MAX_ASSET_BYTES :: nat where "MAX_ASSET_BYTES = 64 * 1024 * 1024"

definition MAX_ASSET_FILES :: nat where "MAX_ASSET_FILES = 4096"

text \<open>The check of one listed file: its error, or its size. An unlisted one is an error of the caller.\<close>

definition asset_check :: "(string \<Rightarrow> string) \<Rightarrow> (string \<times> node) list \<Rightarrow> string \<times> json \<Rightarrow> string + nat" where
  "asset_check sha tree ke =
     (let key = fst ke; entry = Some (snd ke)
      in if \<not> starts_with key ''/'' \<or> includes_sub key ''..''
         then Inl (''assets.json key '' @ [CHR 0x22] @ key @ [CHR 0x22] @ '' must be an absolute posix path'')
         else if \<not> (isObj entry \<and> isStr (fld entry ''hash'') \<and> isNum (fld entry ''size''))
         then Inl (''assets.json['' @ [CHR 0x22] @ key @ [CHR 0x22] @ ''] needs a string hash and numeric size'')
         else case read_at tree (segments key) of
                None \<Rightarrow> Inl (''assets/'' @ key @ '' is missing'')
              | Some bytes \<Rightarrow>
                  if sha bytes \<noteq> str_of (fld entry ''hash'') then Inl (''assets/'' @ key @ '' does not match its recorded hash'')
                  else Inr (length bytes))"

definition errors_of :: "(string + 'a) list \<Rightarrow> string list" where
  "errors_of rs = List.map_filter (\<lambda>r. case r of Inl e \<Rightarrow> Some e | Inr _ \<Rightarrow> None) rs"

definition total_bytes :: "(string + nat) list \<Rightarrow> nat" where
  "total_bytes rs = sum_list (map (\<lambda>r. case r of Inl _ \<Rightarrow> 0 | Inr n \<Rightarrow> n) rs)"

definition run_first_ok :: "json option \<Rightarrow> bool" where
  "run_first_ok v \<longleftrightarrow> v = Some (JBool True) \<or> v = Some (JBool False) \<or> isStrArray v"

text \<open>\<open>manifest_text\<close> is the content of \<open>assets.json\<close>, \<open>tree\<close> the directory \<open>assets\<close>.\<close>

definition assetsErrors ::
  "(string \<Rightarrow> json option) \<Rightarrow> (string \<Rightarrow> string) \<Rightarrow> string \<Rightarrow> (string \<times> node) list \<Rightarrow> string list" where
  "assetsErrors parse sha manifest_text tree =
     (let parsed = parse manifest_text
      in if \<not> isObj parsed then [''assets.json is not a valid JSON object'']
         else if \<not> isStr (fld parsed ''notFound'') \<or>
                 str_of (fld parsed ''notFound'') \<notin> {''none'', ''single-page-application'', ''404-page''}
         then [''assets.json.notFound is invalid'']
         else if \<not> run_first_ok (fld parsed ''runSproutFirst'') then [''assets.json.runSproutFirst must be a boolean or string[]'']
         else if \<not> isObj (fld parsed ''files'') then [''assets.json.files must be an object'']
         else let entries = obj_entries (fld parsed ''files'')
              in if length entries > MAX_ASSET_FILES then [''assets.json lists '' @ nat_text (length entries) @ '' files (max '' @ nat_text MAX_ASSET_FILES @ '')'']
                 else let checks = map (asset_check sha tree) entries
                      in errors_of checks
                         @ map (\<lambda>p. ''assets'' @ p @ '' is not listed in assets.json'')
                             (filter (\<lambda>p. p \<notin> set (map fst entries)) (walkFiles [] tree))
                         @ (if total_bytes checks > MAX_ASSET_BYTES 
                            then [''assets total '' @ nat_text (total_bytes checks) @ '' bytes exceeds the '' @ nat_text MAX_ASSET_BYTES @ '' limit''] else []))"

section \<open>The whole directory\<close>

record ArtifactManifest =
  mf_project :: string
  mf_binaryHash :: string
  mf_binarySize :: nat
  mf_porfforVersion :: string
  mf_compileMs :: "nat option"

record ValidatedArtifact =
  va_manifest :: ArtifactManifest
  va_resourceBindings :: "ResourceBindingRef list"
  va_bindings :: "ArtifactBindings option"

definition OPTIONAL_ENTRIES :: "string list" where
  "OPTIONAL_ENTRIES = [''bindings.json'', ''assets.json'', ''assets'']"

definition safe_count :: "json option \<Rightarrow> nat option" where
  "safe_count v =
     (case v of
        Some (JNum n) \<Rightarrow> if n = of_int \<lfloor>n\<rfloor> \<and> 0 \<le> n \<and> n \<le> 9007199254740991 then Some (nat \<lfloor>n\<rfloor>) else None
      | _ \<Rightarrow> None)"

text \<open>The manifest, or the errors of reading it.\<close>

definition read_manifest ::
  "(string \<Rightarrow> json option) \<Rightarrow> (json option \<Rightarrow> string list + ArtifactManifest) \<Rightarrow> (string \<times> node) list \<Rightarrow> string list + ArtifactManifest" where
  "read_manifest parse vm entries =
     (case read_at entries [''manifest.json''] of
        None \<Rightarrow> Inl [''manifest.json is not valid JSON'']
      | Some content \<Rightarrow>
          let parsed = parse content
          in case vm parsed of
               Inl es \<Rightarrow> Inl es
             | Inr m \<Rightarrow>
                 if isObj parsed \<and> fld parsed ''compileMs'' \<noteq> None then
                   (case safe_count (fld parsed ''compileMs'') of
                      None \<Rightarrow> Inl [''compileMs must be a non-negative integer'']
                    | Some n \<Rightarrow> Inr (m\<lparr>mf_compileMs := Some n\<rparr>))
                 else Inr m)"

definition byte_at :: "string \<Rightarrow> nat \<Rightarrow> nat option" where
  "byte_at b i = (if i < length b then Some (of_char (b ! i)) else None)"

text \<open>The checks of the executable; reading the machine type throws on a file shorter than 20 bytes.\<close>

definition sprout_errors :: "string \<Rightarrow> string list" where
  "sprout_errors b =
     (if length b < 1 \<or> length b > 16 * 1024 * 1024 then [''sprout must be a 1 byte-16 MiB regular file''] else [])
     @ (if map (byte_at b) [0, 1, 2, 3] \<noteq> [Some 0x7f, Some 0x45, Some 0x4c, Some 0x46]
        then [''sprout is not an ELF executable'']
        else if byte_at b 4 \<noteq> Some 2 \<or> byte_at b 5 \<noteq> Some 1
        then [''sprout must be a 64-bit little-endian x86-64 ELF executable'']
        else case (byte_at b 18, byte_at b 19) of
               (Some lo, Some hi) \<Rightarrow>
                 if lo + 256 * hi \<noteq> 62 then [''sprout must be a 64-bit little-endian x86-64 ELF executable''] else []
             | _ \<Rightarrow> [''sprout is missing or unreadable''])"

definition sidecar_text :: "(string \<times> node) list \<Rightarrow> string \<Rightarrow> string" where
  "sidecar_text entries name = (case read_at entries [name] of None \<Rightarrow> [] | Some t \<Rightarrow> t)"

definition read_bindings :: "(string \<Rightarrow> json option) \<Rightarrow> (string \<times> node) list \<Rightarrow> string list \<times> ArtifactBindings option" where
  "read_bindings parse entries =
     (if ''bindings.json'' \<notin> set (map fst entries) then ([], None)
      else let parsed = parse (sidecar_text entries ''bindings.json'');
               issues = (if parsed = None then [''bindings.json is not valid JSON''] else bindingsErrors parsed)
           in (issues, if issues = [] then Some (bindingsOf parsed) else None))"

definition read_assets :: "(string \<Rightarrow> json option) \<Rightarrow> (string \<Rightarrow> string) \<Rightarrow> (string \<times> node) list \<Rightarrow> string list" where
  "read_assets parse sha entries =
     (let hasJson = ''assets.json'' \<in> set (map fst entries); hasDir = ''assets'' \<in> set (map fst entries)
      in if hasJson \<noteq> hasDir then [''assets.json and the assets/ directory must be present together'']
         else if hasJson
         then assetsErrors parse sha (sidecar_text entries ''assets.json'')
                (case map_of entries ''assets'' of Some (Dir ds) \<Rightarrow> ds | _ \<Rightarrow> [])
         else [])"

text \<open>\<open>None\<close>: the directory cannot be read.\<close>

definition validateArtifactDirectory ::
  "(string \<Rightarrow> json option) \<Rightarrow> (string \<Rightarrow> string) \<Rightarrow> (json option \<Rightarrow> string list + ArtifactManifest)
   \<Rightarrow> (string \<times> node) list option \<Rightarrow> string list + ValidatedArtifact" where
  "validateArtifactDirectory parse sha vm dir =
     (case dir of
        None \<Rightarrow> Inl [''artifact directory does not exist'']
      | Some entries \<Rightarrow>
          let names = sort (map fst entries);
              unexpected = filter (\<lambda>n. n \<noteq> ''manifest.json'' \<and> n \<noteq> ''sprout'' \<and> n \<notin> set OPTIONAL_ENTRIES) names;
              manifest = read_manifest parse vm entries;
              sprout = read_at entries [''sprout''];
              bindings = read_bindings parse entries;
              errors =
                (if ''manifest.json'' \<notin> set names \<or> ''sprout'' \<notin> set names
                 then [''artifact directory must contain manifest.json and sprout''] else [])
                @ (if unexpected \<noteq> [] then [''artifact directory has unexpected entries: '' @ join_with '', '' unexpected] else [])
                @ (case manifest of Inl es \<Rightarrow> es | Inr _ \<Rightarrow> [])
                @ (case sprout of None \<Rightarrow> [''sprout is missing or unreadable''] | Some b \<Rightarrow> sprout_errors b)
                @ (case (manifest, sprout) of
                     (Inr m, Some b) \<Rightarrow>
                       if ''sha256:'' @ sha b \<noteq> mf_binaryHash m then [''sprout digest does not match manifest binaryHash''] else []
                   | _ \<Rightarrow> [])
                @ fst bindings @ read_assets parse sha entries
          in case manifest of
               Inl _ \<Rightarrow> Inl errors
             | Inr m \<Rightarrow> if errors \<noteq> [] then Inl errors
                        else Inr \<lparr>va_manifest = m,
                                  va_resourceBindings = (case snd bindings of None \<Rightarrow> [] | Some b \<Rightarrow> ab_resources b),
                                  va_bindings = snd bindings\<rparr>)"

section \<open>What a valid artifact guarantees\<close>

text \<open>A \<open>bindings.json\<close> without errors is read in full: no declared entry is dropped.\<close>

lemma bindings_read_in_full:
  assumes "bindingsErrors v = []"
  shows "isObj v"
    and "map rb_binding (resourceBindingsOf v) = map fst (obj_entries (fld v ''resources''))"
    and "map fst (varsOf v) = filter (\<lambda>k. k \<noteq> ''__proto__'') (map fst (obj_entries (fld v ''vars'')))"
proof -
  show obj: "isObj v" using assms by (auto simp: bindingsErrors_def split: if_splits)
  have res: "fld v ''resources'' = None \<or> isObj (fld v ''resources'') \<and>
      list_all (\<lambda>(_, e). resource_entry_ok e) (obj_entries (fld v ''resources''))"
    and vars: "fld v ''vars'' = None \<or> isObj (fld v ''vars'') \<and> list_all (\<lambda>(_, v). isStr (Some v)) (obj_entries (fld v ''vars''))"
    using assms obj by (auto simp: bindingsErrors_def split: if_splits)
  have "map rb_binding (List.map_filter ref_of xs) = map fst xs" if "list_all (\<lambda>(_, e). resource_entry_ok e) xs" for xs
    using that by (induction xs) (auto simp: map_filter_simps ref_of_def)
  then show "map rb_binding (resourceBindingsOf v) = map fst (obj_entries (fld v ''resources''))"
    using res obj by (auto simp: resourceBindingsOf_def obj_entries_def isObj_def)
  have "map fst (map (\<lambda>(k, v). (k, str_of (Some v))) (filter (\<lambda>(k, v). isStr (Some v) \<and> k \<noteq> ''__proto__'') xs)) =
      filter (\<lambda>k. k \<noteq> ''__proto__'') (map fst xs)"
    if "list_all (\<lambda>(_, v). isStr (Some v)) xs" for xs
    using that by (induction xs) auto
  then show "map fst (varsOf v) = filter (\<lambda>k. k \<noteq> ''__proto__'') (map fst (obj_entries (fld v ''vars'')))"
    using vars obj by (auto simp: varsOf_def obj_entries_def isObj_def)
qed

lemma errors_of_none: "errors_of rs = [] \<longleftrightarrow> (\<forall>r \<in> set rs. \<exists>n. r = Inr n)"
  by (induction rs) (auto simp: errors_of_def map_filter_simps split: sum.splits)

lemma asset_check_ok:
  "asset_check sha tree ke = Inr n \<Longrightarrow>
     \<not> includes_sub (fst ke) ''..'' \<and>
     (\<exists>b. read_at tree (segments (fst ke)) = Some b \<and> sha b = str_of (fld (Some (snd ke)) ''hash''))"
  by (auto simp: asset_check_def Let_def split: if_splits option.splits)

text \<open>Assets without errors: every file there is listed, and every listed one has its recorded hash.\<close>

lemma assets_hashed:
  assumes "assetsErrors parse sha content tree = []"
  defines "files \<equiv> obj_entries (fld (parse content) ''files'')"
  shows "set (walkFiles [] tree) \<subseteq> fst ` set files"
    and "\<And>k e. (k, e) \<in> set files \<Longrightarrow>
      \<not> includes_sub k ''..'' \<and> (\<exists>b. read_at tree (segments k) = Some b \<and> sha b = str_of (fld (Some e) ''hash''))"
    and "length files \<le> MAX_ASSET_FILES"
proof -
  have ok: "errors_of (map (asset_check sha tree) files) = []" "filter (\<lambda>p. p \<notin> set (map fst files)) (walkFiles [] tree) = []"
    "length files \<le> MAX_ASSET_FILES"
    using assms(1) unfolding files_def by (auto simp: assetsErrors_def Let_def split: if_splits)
  show "set (walkFiles [] tree) \<subseteq> fst ` set files" using ok(2) by (auto simp: filter_empty_conv)
  show "length files \<le> MAX_ASSET_FILES" by (rule ok(3))
  fix k e assume "(k, e) \<in> set files"
  then obtain n where "asset_check sha tree (k, e) = Inr n" using ok(1) by (auto simp: errors_of_none)
  from asset_check_ok [OF this]
  show "\<not> includes_sub k ''..'' \<and> (\<exists>b. read_at tree (segments k) = Some b \<and> sha b = str_of (fld (Some e) ''hash''))" by simp
qed

lemma valid_artifact_parts:
  assumes "validateArtifactDirectory parse sha vm (Some entries) = Inr v"
  obtains b where "read_at entries [''sprout''] = Some b" "sprout_errors b = []" "''sha256:'' @ sha b = mf_binaryHash (va_manifest v)"
    "set (map fst entries) \<subseteq> {''manifest.json'', ''sprout''} \<union> set OPTIONAL_ENTRIES"
    "fst (read_bindings parse entries) = []" "va_bindings v = snd (read_bindings parse entries)"
    "va_resourceBindings v = (case va_bindings v of None \<Rightarrow> [] | Some b \<Rightarrow> ab_resources b)"
    "read_assets parse sha entries = []"
proof (cases "read_manifest parse vm entries")
  case (Inr m)
  obtain b where b: "read_at entries [''sprout''] = Some b"
    using assms Inr by (cases "read_at entries [''sprout'']") (auto simp: validateArtifactDirectory_def Let_def)
  show thesis
    using assms Inr b
    by (intro that [of b]) (auto simp: validateArtifactDirectory_def Let_def filter_empty_conv split: if_splits)
qed (use assms in \<open>simp add: validateArtifactDirectory_def Let_def\<close>)

lemma sprout_errors_none:
  assumes "sprout_errors b = []"
  shows "0 < length b \<and> length b \<le> 16 * 1024 * 1024 \<and> map of_char (take 6 b) = ([0x7f, 0x45, 0x4c, 0x46, 2, 1] :: nat list)"
proof -
  have len: "0 < length b" "length b \<le> 16 * 1024 * 1024" using assms by (auto simp: sprout_errors_def split: if_splits)
  have at: "byte_at b 0 = Some 0x7f" "byte_at b 1 = Some 0x45" "byte_at b 2 = Some 0x4c" "byte_at b 3 = Some 0x46"
    "byte_at b 4 = Some 2" "byte_at b 5 = Some 1"
    using assms by (auto simp: sprout_errors_def split: if_splits)
  then have "6 \<le> length b" by (simp add: byte_at_def split: if_splits)
  moreover from this have "(map of_char (take 6 b) :: nat list) = map (\<lambda>i. of_char (b ! i)) ([0..<6] :: nat list)"
    by (intro nth_equalityI) simp_all
  moreover have "([0..<6] :: nat list) = [0, 1, 2, 3, 4, 5]" by (simp add: upt_rec eval_nat_numeral)
  ultimately show ?thesis
    using at len by (simp add: byte_at_def split: if_splits)
qed


text \<open>A directory that passes: an ELF header of 20 bytes, a manifest and nothing else.\<close>

definition sample_elf :: string where
  "sample_elf = map char_of ([0x7f, 0x45, 0x4c, 0x46, 2, 1, 0, 0, 0, 0, 0, 0, 0, 0, 0, 0, 0, 0, 62, 0] :: nat list)"

definition sample_manifest :: ArtifactManifest where
  "sample_manifest = \<lparr>mf_project = ''web'', mf_binaryHash = ''sha256:d'', mf_binarySize = 20, mf_porfforVersion = ''1'',
     mf_compileMs = None\<rparr>"

definition sample_artifact :: "(string \<times> node) list" where
  "sample_artifact = [(''manifest.json'', File ''m''), (''sprout'', File sample_elf)]"

lemma sample_elf_ok: "sprout_errors sample_elf = []"
  by (simp add: sprout_errors_def sample_elf_def byte_at_def nth_Cons')

lemma sample_artifact_valid:
  "validateArtifactDirectory (\<lambda>_. None) (\<lambda>_. ''d'') (\<lambda>_. Inr sample_manifest) (Some sample_artifact) =
     Inr \<lparr>va_manifest = sample_manifest, va_resourceBindings = [], va_bindings = None\<rparr>"
  using sample_elf_ok by (simp add: validateArtifactDirectory_def sample_artifact_def sample_manifest_def read_manifest_def
      read_bindings_def read_assets_def isObj_def OPTIONAL_ENTRIES_def Let_def filter_empty_conv)


end
