(* ===== verification/Deploy_Handlers.thy ===== *)
theory Deploy_Handlers
  imports Artifact_Check Routes Artifact_GC Webhooks Store_Props
begin

text \<open>
  The deployment endpoints of the control plane (\<open>src/apps/control/src/deployments.ts\<close>), each run from
  request to answer. What a handler changes is \<open>control\<close>: the store with the artifact directories, the
  published route snapshot (as the rows it was written from), the events handed to \<open>recordEvent\<close> and the
  rate-limit windows. What it meets outside is \<open>deploy_env\<close>. How several deploys interleave is the
  matter of \<open>Deploy_Protocol\<close>.
\<close>

section \<open>Hostnames\<close>

definition label_char :: "char \<Rightarrow> bool" where
  "label_char c \<longleftrightarrow> is_lower c \<or> is_digit c"

text \<open>\<open>[a-z0-9](?:[a-z0-9-]{0,n}[a-z0-9])?\<close>: a label of at most \<open>n + 2\<close> characters.\<close>

definition label :: "nat \<Rightarrow> nat \<Rightarrow> string \<Rightarrow> bool" where
  "label least most s \<longleftrightarrow>
     s \<noteq> [] \<and> label_char (hd s) \<and>
     (length s = 1 \<or> least + 2 \<le> length s \<and> length s \<le> most + 2 \<and> label_char (last s) \<and>
        list_all (\<lambda>c. label_char c \<or> c = CHR ''-'') s)"

definition deploymentDomain :: "env \<Rightarrow> string + string" where
  "deploymentDomain env =
     (let domain = to_lower (case env ''SPROUTBOAT_DEPLOYMENT_DOMAIN'' of
                               None \<Rightarrow> ''sproutboat.com'' | Some d \<Rightarrow> if d = [] then ''sproutboat.com'' else d);
          labels = split_on CHR ''.'' domain
      in if 2 \<le> length labels \<and> list_all (label 0 61) labels then Inr domain
         else Inl ''SPROUTBOAT_DEPLOYMENT_DOMAIN must be a lowercase multi-label hostname'')"

definition hostname_in :: "string \<Rightarrow> string \<Rightarrow> string \<Rightarrow> string" where
  "hostname_in domain project username = project @ ''.'' @ username @ ''.'' @ domain"

definition deploymentHostname :: "env \<Rightarrow> string \<Rightarrow> string \<Rightarrow> string + string" where
  "deploymentHostname env project username =
     (case deploymentDomain env of Inl e \<Rightarrow> Inl e | Inr domain \<Rightarrow> Inr (hostname_in domain project username))"

definition slug_char :: "char \<Rightarrow> bool" where
  "slug_char c \<longleftrightarrow> label_char c \<or> c = CHR ''-''"

definition isDeploymentHostname :: "string \<Rightarrow> string \<Rightarrow> bool" where
  "isDeploymentHostname domain hostname \<longleftrightarrow>
     ends_with hostname (''.'' @ domain) \<and>
     (let labels = split_on CHR ''.'' (take (length hostname - length domain - 1) hostname)
      in length labels = 2 \<and> list_all (\<lambda>l. l \<noteq> [] \<and> list_all slug_char l) labels)"

text \<open>\<open>/^[a-z0-9](?:[a-z0-9-]{1,30}[a-z0-9])?$/\<close>: one character or three to thirty-two.\<close>

definition project_name_ok :: "string \<Rightarrow> bool" where
  "project_name_ok p \<longleftrightarrow> label 1 30 p"

section \<open>State\<close>

record Actor =
  ac_id :: owner
  ac_username :: string
  ac_session :: bool

datatype auth = AuthFailed "string option" | NoActor | SignedIn Actor

record control =
  ct_world :: world
  ct_routes :: "route_row list"
  ct_events :: "new_event list"
  ct_buckets :: buckets

text \<open>
  The clock and the caller's address, a fresh id, whether removing a directory succeeds, how the
  candidate's start ends (\<open>Some\<close> an error), whether placing the directory or writing the snapshot
  throws, and what the artifact directories hold.
\<close>

record deploy_env =
  de_env :: env
  de_now :: ms
  de_ip :: string
  de_uuid :: string
  de_rm_ok :: "artifact_ref \<Rightarrow> bool"
  de_stage :: "string option"
  de_place_error :: "string option"
  de_sync_error :: "string option"
  de_parse :: "string \<Rightarrow> json option"
  de_sha :: "string \<Rightarrow> string"
  de_vm :: "json option \<Rightarrow> string list + ArtifactManifest"
  de_dir :: "artifact_ref \<Rightarrow> (string \<times> node) list option"
  de_artifact_dir :: "artifact_ref \<Rightarrow> string"

definition ct_db :: "control \<Rightarrow> db" where
  "ct_db c = w_db (ct_world c)"

definition set_db :: "db \<Rightarrow> control \<Rightarrow> control" where
  "set_db d c = c\<lparr>ct_world := (ct_world c)\<lparr>w_db := d\<rparr>\<rparr>"

definition record_event :: "owner \<Rightarrow> string \<Rightarrow> string \<Rightarrow> string \<Rightarrow> string \<Rightarrow> (string \<times> event_value) list \<Rightarrow> control \<Rightarrow> control" where
  "record_event o1 project ty act summary dat c =
     c\<lparr>ct_events := ct_events c @
        [\<lparr>ne_owner = o1, ne_project = Some project, ne_type = ty, ne_actor = Some act, ne_summary = summary, ne_data = dat,
          ne_webhook = None\<rparr>]\<rparr>"

text \<open>\<open>syncRoutes()\<close>: the snapshot is rewritten from the store.\<close>

definition sync_routes :: "control \<Rightarrow> control" where
  "sync_routes c = c\<lparr>ct_routes := route_rows (ct_db c)\<rparr>"

text \<open>The rest of a handler after \<open>await syncRoutes()\<close>: a snapshot that cannot be written is thrown past it.\<close>

definition after_sync :: "deploy_env \<Rightarrow> control \<Rightarrow> (control \<Rightarrow> response \<times> control) \<Rightarrow> response \<times> control" where
  "after_sync en c rest = (case de_sync_error en of Some e \<Rightarrow> (error_response 500 e, c) | None \<Rightarrow> rest (sync_routes c))"

definition collect :: "deploy_env \<Rightarrow> artifact_ref list \<Rightarrow> control \<Rightarrow> control \<times> digest list \<times> digest list" where
  "collect en refs c =
     (case collectArtifacts (de_rm_ok en) refs (ct_world c) of (w, removed, failed) \<Rightarrow> (c\<lparr>ct_world := w\<rparr>, removed, failed))"

section \<open>Signing in\<close>

definition authorized :: "auth \<Rightarrow> response + Actor" where
  "authorized a =
     (case a of
        SignedIn actor \<Rightarrow> Inr actor
      | NoActor \<Rightarrow> Inl (error_response 401 ''sign in and reserve a username before using this endpoint'')
      | AuthFailed m \<Rightarrow> Inl (error_response 503 (case m of None \<Rightarrow> ''authentication is unavailable'' | Some t \<Rightarrow> t)))"

text \<open>A handler that answers 401 or 503 before it does anything.\<close>

definition with_actor :: "auth \<Rightarrow> (Actor \<Rightarrow> control \<Rightarrow> response \<times> control) \<Rightarrow> control \<Rightarrow> response \<times> control" where
  "with_actor a handler c = (case authorized a of Inl r \<Rightarrow> (r, c) | Inr actor \<Rightarrow> handler actor c)"

section \<open>Reading\<close>

definition json_opt :: "('a \<Rightarrow> json) \<Rightarrow> 'a option \<Rightarrow> json" where
  "json_opt f x = (case x of None \<Rightarrow> JNull | Some v \<Rightarrow> f v)"

definition json_nat :: "nat \<Rightarrow> json" where "json_nat n = JNum (of_nat n)"

definition json_strs :: "string list \<Rightarrow> json" where "json_strs xs = JArr (map JStr xs)"

text \<open>A deployment as the store answers it (\<open>isotime\<close> prints a time).\<close>

definition deployment_json :: "(ms \<Rightarrow> string) \<Rightarrow> deployment \<Rightarrow> json" where
  "deployment_json isotime d =
     JObj [(''id'', JStr (d_id d)), (''project'', JStr (d_project d)), (''ownerId'', JStr (d_owner d)),
           (''username'', JStr (d_username d)), (''hostname'', JStr (d_hostname d)), (''artifact'', JStr (d_artifact d)),
           (''sproutPath'', JStr (d_sprout_path d)), (''deployedAt'', JStr (isotime (d_deployed_at d))), (''active'', JBool (d_active d)),
           (''binarySize'', json_opt (\<lambda>n. JNum (of_int n)) (d_binary_size d)),
           (''compileMs'', json_opt (\<lambda>n. JNum (of_int n)) (d_compile_ms d))]"

definition listDeployments :: "(ms \<Rightarrow> string) \<Rightarrow> auth \<Rightarrow> string \<Rightarrow> control \<Rightarrow> response \<times> control" where
  "listDeployments isotime a project = with_actor a (\<lambda>actor c.
     (json_response 200 (JArr (map (deployment_json isotime) (projectDeployments (ac_id actor) project (ct_db c)))), c))"

definition resource_json :: "(ms \<Rightarrow> string) \<Rightarrow> storage_resource \<Rightarrow> json" where
  "resource_json isotime r =
     JObj [(''id'', JStr (r_id r)), (''kind'', JStr (kind_text (r_kind r))), (''name'', JStr (r_name r)),
           (''createdAt'', JStr (isotime (r_created_at r)))]"

text \<open>\<open>manifest\<close> and \<open>bindings\<close> print the validated sidecars.\<close>

definition deploymentDetail ::
  "(ms \<Rightarrow> string) \<Rightarrow> (ArtifactManifest \<Rightarrow> json) \<Rightarrow> (ArtifactBindings option \<Rightarrow> json) \<Rightarrow> deploy_env \<Rightarrow> auth \<Rightarrow> string \<Rightarrow> string
   \<Rightarrow> control \<Rightarrow> response \<times> control" where
  "deploymentDetail isotime manifest_json bindings_json en a project i = with_actor a (\<lambda>actor c.
     case projectDeployment (ac_id actor) project i (ct_db c) of
       None \<Rightarrow> (error_response 404 ''deployment not found'', c)
     | Some d \<Rightarrow>
         let v = validateArtifactDirectory (de_parse en) (de_sha en) (de_vm en) (de_dir en (ac_id actor, d_artifact d))
         in (json_response 200 (JObj
               [(''id'', JStr (d_id d)), (''project'', JStr (d_project d)), (''hostname'', JStr (d_hostname d)),
                (''artifact'', JStr (d_artifact d)), (''sproutPath'', JStr (d_sprout_path d)),
                (''deployedAt'', JStr (isotime (d_deployed_at d))), (''active'', JBool (d_active d)),
                (''deployedBy'', JStr (d_username d)),
                (''bindings'', case v of Inl _ \<Rightarrow> JNull | Inr x \<Rightarrow> bindings_json (va_bindings x)),
                (''resources'', JArr (map (resource_json isotime) (deploymentResources (ac_id actor) (d_id d) (ct_db c)))),
                (''manifest'', case v of Inl _ \<Rightarrow> JNull | Inr x \<Rightarrow> manifest_json (va_manifest x)),
                (''manifestError'', case v of Inl es \<Rightarrow> JStr (join_with ''; '' es) | Inr _ \<Rightarrow> JNull)]), c))"

definition logHostnames :: "string \<Rightarrow> Actor \<Rightarrow> string \<Rightarrow> db \<Rightarrow> string list" where
  "logHostnames domain actor project db =
     uniq (hostname_in domain project (ac_username actor) # projectHosts (ac_id actor) project db)"

text \<open>The Porffor pin of the active version, if its artifact can still be read.\<close>

definition active_version :: "owner \<Rightarrow> string \<Rightarrow> db \<Rightarrow> deployment option" where
  "active_version o1 project db = find d_active (projectDeployments o1 project db)"

definition activePorfforVersion :: "deploy_env \<Rightarrow> owner \<Rightarrow> string \<Rightarrow> db \<Rightarrow> string option" where
  "activePorfforVersion en o1 project db =
     (case active_version o1 project db of
        None \<Rightarrow> None
      | Some d \<Rightarrow>
          (case validateArtifactDirectory (de_parse en) (de_sha en) (de_vm en) (de_dir en (o1, d_artifact d)) of
             Inl _ \<Rightarrow> None | Inr v \<Rightarrow> Some (mf_porfforVersion (va_manifest v))))"

section \<open>Deleting and activating\<close>

definition cleanup_status :: "digest list \<Rightarrow> nat" where
  "cleanup_status failed = (if failed = [] then 200 else 207)"

definition delete_deployment :: "deploy_env \<Rightarrow> auth \<Rightarrow> string \<Rightarrow> string \<Rightarrow> control \<Rightarrow> response \<times> control" where
  "delete_deployment en a project i = with_actor a (\<lambda>actor c.
     case Store.deleteDeployment (ac_id actor) project i (ct_db c) of
       (_, None) \<Rightarrow> (error_response 404 ''deployment not found'', c)
     | (db', Some r) \<Rightarrow>
         if dd_active r then (error_response 409 ''cannot delete the active version - roll back or replace it first'', c)
         else let c1 = record_event (ac_id actor) project ''deploy.deleted'' (ac_username actor)
                         (''Deleted version '' @ take 8 i @ '' of '' @ project) [(''deploymentId'', EvStr i)] (set_db db' c)
              in case collect en (dd_orphanedArtifacts r) c1 of (c2, removed, failed) \<Rightarrow>
                   (json_response (cleanup_status failed)
                      (JObj [(''deleted'', JStr i), (''artifactsRemoved'', json_strs removed), (''artifactCleanupFailed'', json_strs failed)]),
                    c2))"

definition activate_deployment :: "deploy_env \<Rightarrow> auth \<Rightarrow> string \<Rightarrow> string \<Rightarrow> control \<Rightarrow> response \<times> control" where
  "activate_deployment en a project i = with_actor a (\<lambda>actor c.
     case projectDeployment (ac_id actor) project i (ct_db c) of
       None \<Rightarrow> (error_response 404 ''deployment not found'', c)
     | Some target \<Rightarrow>
         (case de_stage en of
            Some e \<Rightarrow> (error_response 409 e, c)
          | None \<Rightarrow>
              let previous = active_version (ac_id actor) project (ct_db c)
              in case Store.activateDeployment (ac_id actor) project i (ct_db c) of
                   (_, None) \<Rightarrow> (error_response 404 ''deployment not found'', c)
                 | (db', Some d) \<Rightarrow>
                     let rolledBack = (case previous of None \<Rightarrow> False
                                       | Some p \<Rightarrow> d_id p \<noteq> i \<and> d_deployed_at target < d_deployed_at p)
                     in after_sync en (set_db db' c) (\<lambda>c1. (json_response 200 (JObj [(''id'', JStr i), (''project'', JStr project), (''active'', JBool True),
                           (''url'', JStr (''https://'' @ d_hostname d))]),
                         record_event (ac_id actor) project (if rolledBack then ''deploy.rolled_back'' else ''deploy.activated'')
                           (ac_username actor)
                           ((if rolledBack then ''Rolled back '' else ''Activated '') @ project @ '' to version '' @ take 8 i)
                           [(''from'', case previous of None \<Rightarrow> EvNull | Some p \<Rightarrow> EvStr (d_id p)), (''to'', EvStr i)] c1))))"

definition delete_project :: "deploy_env \<Rightarrow> auth \<Rightarrow> string option \<Rightarrow> string \<Rightarrow> control \<Rightarrow> response \<times> control" where
  "delete_project en a confirm project = with_actor a (\<lambda>actor c.
     if confirm \<noteq> Some project then (error_response 400 ''add ?confirm=<project name> to delete a project'', c)
     else case Store.deleteProject (ac_id actor) project (ct_db c) of (db', r) \<Rightarrow>
       if pd_removed r = 0 then (error_response 404 ''project not found'', set_db db' c)
       else after_sync en (set_db db' c) (\<lambda>c1.
         let c2 = record_event (ac_id actor) project ''project.deleted'' (ac_username actor)
                    (''Deleted project '' @ project) [(''hostnames'', EvNum (of_nat (length (pd_hostnames r))))] c1
         in case collect en (pd_orphanedArtifacts r) c2 of (c3, removed, failed) \<Rightarrow>
              (json_response (cleanup_status failed)
                 (JObj [(''deleted'', JStr project), (''versionsRemoved'', json_nat (pd_removed r)),
                        (''routeRemoved'', json_strs (pd_hostnames r)), (''artifactsRemoved'', json_strs removed),
                        (''artifactCleanupFailed'', json_strs failed)]), c3)))"

text \<open>\<open>purge\<close>: what removing the identity rows answers.\<close>

definition deleteAccount :: "deploy_env \<Rightarrow> (owner \<Rightarrow> json) \<Rightarrow> auth \<Rightarrow> control \<Rightarrow> response \<times> control" where
  "deleteAccount en purge a = with_actor a (\<lambda>actor c.
     if \<not> ac_session actor then (error_response 403 ''account deletion requires an interactive session'', c)
     else case deleteOwner (ac_id actor) (ct_db c) of (db', r) \<Rightarrow>
       after_sync en (set_db db' c) (\<lambda>c1.
         case collect en (pd_orphanedArtifacts r) c1 of (c2, removed, failed) \<Rightarrow>
          ((json_response (cleanup_status failed)
             (JObj [(''deleted'', JBool True), (''versionsRemoved'', json_nat (pd_removed r)),
                    (''routesRemoved'', json_strs (pd_hostnames r)), (''artifactsRemoved'', json_strs removed),
                    (''artifactCleanupFailed'', json_strs failed), (''identityRemoved'', purge (ac_id actor))]))
             \<lparr>rs_headers := [(''set-cookie'', ''better-auth.session_token=; Path=/; Max-Age=0; HttpOnly; Secure; SameSite=Lax'')]\<rparr>,
           c2)))"

section \<open>Deploying: the checks\<close>

definition rkind :: "resource_kind \<Rightarrow> ResourceKind" where
  "rkind k = (case k of RKv \<Rightarrow> Kv | RD1 \<Rightarrow> D1 | RR2 \<Rightarrow> R2 | RQueue \<Rightarrow> Queue)"

definition kind_command :: "resource_kind \<Rightarrow> string" where
  "kind_command k = (if k = RQueue then ''queues'' else kind_text (rkind k))"

text \<open>The dash of the source's first message is written as a hyphen.\<close>

definition resolve_binding :: "owner \<Rightarrow> db \<Rightarrow> ResourceBindingRef \<Rightarrow> response + string" where
  "resolve_binding o1 db ref =
     (case resourceById o1 (rb_id ref) db of
        None \<Rightarrow> Inl (error_response 400 (''binding '' @ rb_binding ref @ '': no resource '' @ rb_id ref
            @ '' - create it with `sproutboat '' @ kind_command (rb_kind ref) @ '' create <name>`''))
      | Some r \<Rightarrow>
          if r_kind r \<noteq> rkind (rb_kind ref)
          then Inl (error_response 400 (''binding '' @ rb_binding ref @ '': '' @ rb_id ref @ '' is a '' @ kind_text (r_kind r)
            @ '', not a '' @ kind_text (rkind (rb_kind ref))))
          else Inr (rb_id ref))"

fun resolve_all :: "owner \<Rightarrow> db \<Rightarrow> ResourceBindingRef list \<Rightarrow> response + string list" where
  "resolve_all o1 db [] = Inr []"
| "resolve_all o1 db (ref # refs) =
     (case resolve_binding o1 db ref of
        Inl r \<Rightarrow> Inl r
      | Inr i \<Rightarrow> (case resolve_all o1 db refs of Inl r \<Rightarrow> Inl r | Inr is \<Rightarrow> Inr (i # is)))"

definition resolveResourceBindings :: "ResourceBindingRef list \<Rightarrow> owner \<Rightarrow> db \<Rightarrow> response + string list" where
  "resolveResourceBindings refs o1 db = (case resolve_all o1 db refs of Inl r \<Rightarrow> Inl r | Inr is \<Rightarrow> Inr (uniq is))"

definition artifactDigest :: "(string \<Rightarrow> string) \<Rightarrow> (string \<times> node) list \<Rightarrow> string \<Rightarrow> digest" where
  "artifactDigest sha dir binaryHash =
     sha (binaryHash @ concat (map (\<lambda>name. [CHR 0x0A] @ name @ [CHR 0x0A]
            @ (case read_at dir [name] of None \<Rightarrow> [] | Some body \<Rightarrow> body)) [''manifest.json'', ''bindings.json'', ''assets.json'']))"

text \<open>A multipart upload: the parts that are files; \<open>up_assets\<close> are the \<open>asset\<close> parts by file name.\<close>

record upload =
  up_manifest :: "string option"
  up_sprout :: "string option"
  up_bindings :: "string option"
  up_assets_manifest :: "string option"
  up_assets :: "(string \<times> string) list"

definition asset_key :: "string \<Rightarrow> string" where
  "asset_key name = (if starts_with name ''/'' then name else ''/'' @ name)"

text \<open>The checks on an upload before anything is written; \<open>Inr\<close> carries the two required parts.\<close>

definition screen_upload :: "(string \<Rightarrow> json option) \<Rightarrow> upload option \<Rightarrow> response + upload \<times> string \<times> string" where
  "screen_upload parse form =
     (case form of
        None \<Rightarrow> Inl (error_response 400 ''expected multipart artifact upload'')
      | Some f \<Rightarrow>
          (case (up_manifest f, up_sprout f) of
             (Some manifest, Some sprout) \<Rightarrow>
               if length manifest > 64 * 1024 \<or> length sprout > 16 * 1024 * 1024
               then Inl (error_response 413 ''artifact exceeds upload limit'')
               else if (case up_bindings f of None \<Rightarrow> False | Some b \<Rightarrow> length b > 64 * 1024)
               then Inl (error_response 413 ''bindings.json exceeds 64 KiB'')
               else if length (up_assets f) > 4096 then Inl (error_response 413 ''too many asset files'')
               else if sum_list (map (length \<circ> snd) (up_assets f)) > 64 * 1024 * 1024
               then Inl (error_response 413 ''assets exceed the 64 MiB limit'')
               else if (case up_assets_manifest f of None \<Rightarrow> False | Some m \<Rightarrow> length m > 2 * 1024 * 1024)
               then Inl (error_response 413 ''assets.json exceeds 2 MiB'')
               else
                 (case (case up_assets_manifest f of None \<Rightarrow> Some [] | Some m \<Rightarrow> listedAssetKeys parse m) of
                    None \<Rightarrow> Inl (error_response 400 ''assets_manifest must be a JSON object with a files map'')
                  | Some listed \<Rightarrow>
                      (case find (\<lambda>(name, _). asset_key name \<notin> set listed) (up_assets f) of
                         Some (name, _) \<Rightarrow> Inl (error_response 400 (''asset '' @ name @ '' is not listed in assets.json''))
                       | None \<Rightarrow> Inr (f, manifest, sprout)))
           | _ \<Rightarrow> Inl (error_response 400 ''upload must include manifest and sprout files'')))"

section \<open>Deploying: the staging directory\<close>

text \<open>
  \<open>mkdir\<close> with \<open>recursive\<close> and \<open>writeFile\<close> below a directory: \<open>None\<close> when a file is in the way of a
  directory or the other way round.
\<close>

fun write_at :: "string list \<Rightarrow> string \<Rightarrow> (string \<times> node) list \<Rightarrow> (string \<times> node) list option" where
  "write_at [] bytes es = None"
| "write_at [s] bytes es =
     (case map_of es s of Some (Dir _) \<Rightarrow> None | _ \<Rightarrow> Some (AList.update s (File bytes) es))"
| "write_at (s # t # ss) bytes es =
     (case (case map_of es s of None \<Rightarrow> Some [] | Some (Dir ds) \<Rightarrow> Some ds | Some (File _) \<Rightarrow> None) of
        None \<Rightarrow> None
      | Some ds \<Rightarrow> map_option (\<lambda>ds'. AList.update s (Dir ds') es) (write_at (t # ss) bytes ds))"

text \<open>Why a write stops the deploy: a bad path is a 400, a failing write throws.\<close>

fun write_assets :: "(string \<times> string) list \<Rightarrow> (string \<times> node) list \<Rightarrow> response + (string \<times> node) list" where
  "write_assets [] es = Inr es"
| "write_assets ((name, bytes) # rest) es =
     (let key = asset_key name
      in if includes_sub key ''..'' \<or> CHR 0x00 \<in> set key then Inl (error_response 400 (''invalid asset path: '' @ name))
         else if segments key = [] then Inl (error_response 400 (''asset path escapes the tree: '' @ name))
         else case write_at (''assets'' # segments key) bytes es of
                None \<Rightarrow> Inl (error_response 500 ''deployment failed'')
              | Some es' \<Rightarrow> write_assets rest es')"

definition staged_directory :: "upload \<Rightarrow> string \<Rightarrow> string \<Rightarrow> response + (string \<times> node) list" where
  "staged_directory f manifest sprout =
     (let base = [(''manifest.json'', File manifest), (''sprout'', File sprout)]
                 @ (case up_bindings f of None \<Rightarrow> [] | Some b \<Rightarrow> [(''bindings.json'', File b)])
      in case up_assets_manifest f of
           None \<Rightarrow> Inr base
         | Some m \<Rightarrow> write_assets (up_assets f) (base @ [(''assets.json'', File m)]))"

section \<open>Deploying: placing, starting, recording\<close>

record new_version =
  nv_project :: string
  nv_hostname :: string
  nv_digest :: digest
  nv_resources :: "string list"
  nv_manifest :: ArtifactManifest

definition version_row :: "deploy_env \<Rightarrow> Actor \<Rightarrow> new_version \<Rightarrow> deployment" where
  "version_row en actor v =
     \<lparr>d_id = de_uuid en, d_owner = ac_id actor, d_project = nv_project v, d_username = ac_username actor,
      d_hostname = nv_hostname v, d_artifact = nv_digest v,
      d_sprout_path = de_artifact_dir en (ac_id actor, nv_digest v) @ ''/sprout'', d_deployed_at = de_now en, d_active = True,
      d_binary_size = Some (int (mf_binarySize (nv_manifest v))),
      d_compile_ms = map_option int (mf_compileMs (nv_manifest v))\<rparr>"

definition sql_message :: "sql_error \<Rightarrow> string" where
  "sql_message e = (case e of UniqueViolation \<Rightarrow> ''UNIQUE constraint failed'' | ForeignKeyViolation \<Rightarrow> ''FOREIGN KEY constraint failed'')"

definition set_world :: "world \<Rightarrow> control \<Rightarrow> control" where
  "set_world w c = c\<lparr>ct_world := w\<rparr>"

text \<open>
  From \<open>holdArtifact\<close> to the release in the \<open>finally\<close>. A directory already there is reused; a failed
  start or a failed record removes only a directory this deploy placed.
\<close>

definition place_and_record :: "deploy_env \<Rightarrow> Actor \<Rightarrow> new_version \<Rightarrow> control \<Rightarrow> (response + deployment) \<times> control" where
  "place_and_record en actor v c =
     (let ref = (ac_id actor, nv_digest v);
          w = holdArtifact ref (ct_world c);
          placed = (ref \<notin> set (w_dirs w));
          undo = (\<lambda>w. if placed then rm_dir ref w else w)
      in case de_place_error en of
           Some e \<Rightarrow> (Inl (error_response 500 e), set_world (releaseArtifact ref w) c)
         | None \<Rightarrow>
             let w1 = (if placed then w\<lparr>w_dirs := w_dirs w @ [ref]\<rparr> else w)
             in case de_stage en of
                  Some e \<Rightarrow>
                    (Inl (json_response 409 (JObj [(''error'', JStr e), (''activated'', JBool False)])),
                     set_world (releaseArtifact ref (undo w1)) c)
                | None \<Rightarrow>
                    (case recordDeployment (version_row en actor v) (nv_resources v) (w_db w1) of
                       Inl e \<Rightarrow> (Inl (error_response 500 (sql_message e)), set_world (releaseArtifact ref (undo w1)) c)
                     | Inr (db', d) \<Rightarrow> (Inr d, set_world (releaseArtifact ref (w1\<lparr>w_db := db'\<rparr>)) c)))"

text \<open>After the record: routes, retention, events. A snapshot that cannot be written ends in a 500.\<close>

definition finish_deploy :: "deploy_env \<Rightarrow> Actor \<Rightarrow> bool \<Rightarrow> string option \<Rightarrow> new_version \<Rightarrow> deployment \<Rightarrow> control \<Rightarrow> response \<times> control" where
  "finish_deploy en actor newProject previousPorffor v d c =
     (case de_sync_error en of
        Some e \<Rightarrow> (error_response 500 e, c)
      | None \<Rightarrow>
          let c1 = sync_routes c;
              (db2, orphaned) = pruneProjectDeployments (ac_id actor) (nv_project v) (versionsPerProject (de_env en)) (ct_db c1);
              c2 = set_db db2 c1;
              c3 = (if orphaned = [] then c2 else fst (collect en orphaned c2));
              c4 = (if newProject
                    then record_event (ac_id actor) (nv_project v) ''project.created'' (ac_username actor)
                           (''Created project '' @ nv_project v) [(''hostname'', EvStr (nv_hostname v))] c3
                    else c3);
              incoming = mf_porfforVersion (nv_manifest v);
              drift = (case previousPorffor of
                         None \<Rightarrow> []
                       | Some p \<Rightarrow> if p = [] \<or> p = incoming then []
                           else [(''porfforDrift'', JObj [(''from'', JStr p), (''to'', JStr incoming)])])
          in (json_response 201 (JObj
                ([(''id'', JStr (d_id d)), (''hostname'', JStr (nv_hostname v)), (''url'', JStr (''https://'' @ nv_hostname v)),
                  (''artifact'', JStr (nv_digest v)), (''activated'', JBool True)] @ drift)),
              record_event (ac_id actor) (nv_project v) ''deploy.succeeded'' (ac_username actor)
                (''Deployed '' @ nv_project v @ '' to '' @ nv_hostname v)
                [(''deploymentId'', EvStr (d_id d)), (''digest'', EvStr (nv_digest v)), (''hostname'', EvStr (nv_hostname v)),
                 (''binarySize'', EvNum (of_nat (mf_binarySize (nv_manifest v)))),
                 (''compileMs'', case mf_compileMs (nv_manifest v) of None \<Rightarrow> EvNull | Some n \<Rightarrow> EvNum (of_nat n)),
                 (''newProject'', EvBool newProject)] c4))"

definition unchanged_answer :: "Actor \<Rightarrow> string \<Rightarrow> digest \<Rightarrow> deployment \<Rightarrow> control \<Rightarrow> response \<times> control" where
  "unchanged_answer actor project digest d c =
     (json_response 200 (JObj
        [(''id'', JStr (d_id d)), (''hostname'', JStr (d_hostname d)), (''url'', JStr (''https://'' @ d_hostname d)),
         (''artifact'', JStr digest), (''activated'', JBool False), (''unchanged'', JBool True)]),
      record_event (ac_id actor) project ''deploy.succeeded'' (ac_username actor)
        (''Deploy of '' @ project @ '' unchanged: the active version already matches'')
        [(''deploymentId'', EvStr (d_id d)), (''digest'', EvStr digest), (''hostname'', EvStr (d_hostname d)),
         (''unchanged'', EvBool True)] c)"

definition details_response :: "string list \<Rightarrow> response" where
  "details_response errors = json_response 400 (JObj [(''error'', JStr ''invalid artifact''), (''details'', json_strs errors)])"

text \<open>The staged directory is checked, named by its digest and deployed.\<close>

definition deploy_staged :: "deploy_env \<Rightarrow> Actor \<Rightarrow> string \<Rightarrow> bool \<Rightarrow> (string \<times> node) list \<Rightarrow> control \<Rightarrow> response \<times> control" where
  "deploy_staged en actor project newProject dir c =
     (case validateArtifactDirectory (de_parse en) (de_sha en) (de_vm en) (Some dir) of
        Inl errors \<Rightarrow> (details_response errors, c)
      | Inr va \<Rightarrow>
          let m = va_manifest va
          in if mf_project m \<noteq> project then (error_response 400 ''manifest project does not match request path'', c)
             else
               let digest = artifactDigest (de_sha en) dir (mf_binaryHash m)
               in case find (\<lambda>d. d_active d \<and> d_artifact d = digest) (projectDeployments (ac_id actor) project (ct_db c)) of
                    Some d \<Rightarrow> unchanged_answer actor project digest d c
                  | None \<Rightarrow>
                      (case resolveResourceBindings (va_resourceBindings va) (ac_id actor) (ct_db c) of
                         Inl r \<Rightarrow> (r, c)
                       | Inr ids \<Rightarrow>
                           let previous = activePorfforVersion en (ac_id actor) project (ct_db c)
                           in case deploymentHostname (de_env en) project (ac_username actor) of
                                Inl e \<Rightarrow> (error_response 500 e, c)
                              | Inr hostname \<Rightarrow>
                                  let v = \<lparr>nv_project = project, nv_hostname = hostname, nv_digest = digest,
                                           nv_resources = ids, nv_manifest = m\<rparr>
                                  in case place_and_record en actor v c of
                                       (Inl r, c1) \<Rightarrow> (r, c1)
                                     | (Inr d, c1) \<Rightarrow> finish_deploy en actor newProject previous v d c1))"

definition runDeploy :: "deploy_env \<Rightarrow> upload option \<Rightarrow> string \<Rightarrow> Actor \<Rightarrow> bool \<Rightarrow> control \<Rightarrow> response \<times> control" where
  "runDeploy en form project actor newProject c =
     (case screen_upload (de_parse en) form of
        Inl r \<Rightarrow> (r, c)
      | Inr (f, manifest, sprout) \<Rightarrow>
          (case staged_directory f manifest sprout of
             Inl r \<Rightarrow> (r, c)
           | Inr dir \<Rightarrow> deploy_staged en actor project newProject dir c))"

section \<open>Deploying: the endpoint\<close>

text \<open>\<open>body.error\<close> with the joined \<open>details\<close>, as the failure event reports it.\<close>

definition failure_reason :: "response \<Rightarrow> string" where
  "failure_reason r =
     (case json_field (rs_body r) ''error'' of
        Some (JStr e) \<Rightarrow> e
      | _ \<Rightarrow> ''HTTP '' @ nat_text (rs_status r))
     @ (case json_field (rs_body r) ''details'' of
          Some (JArr ds) \<Rightarrow> '': '' @ join_with ''; '' (map (\<lambda>d. case d of JStr t \<Rightarrow> t | _ \<Rightarrow> []) ds)
        | _ \<Rightarrow> [])"

definition too_many :: "guard_result \<Rightarrow> response option" where
  "too_many g = (case g of Proceed \<Rightarrow> None | TooMany wait msg _ \<Rightarrow> Some (error_response 429 msg))"

definition deployArtifact :: "deploy_env \<Rightarrow> auth \<Rightarrow> upload option \<Rightarrow> string \<Rightarrow> control \<Rightarrow> response \<times> control" where
  "deployArtifact en a form project = with_actor a (\<lambda>actor c.
     if \<not> project_name_ok project then (error_response 400 ''invalid project name'', c)
     else
       let (bs, g) = guardDeploy (de_env en) (ac_id actor) (de_ip en) (de_now en) (ct_buckets c);
           c0 = c\<lparr>ct_buckets := bs\<rparr>
       in case too_many g of
            Some r \<Rightarrow> (r, c0)
          | None \<Rightarrow>
              let newProject = (projectDeployments (ac_id actor) project (ct_db c0) = [])
              in case (if newProject then too_many (guardNewProject (de_env en) (ownerProjectCount (ac_id actor) (ct_db c0))) else None) of
                   Some r \<Rightarrow> (r, c0)
                 | None \<Rightarrow>
                     let c1 = record_event (ac_id actor) project ''deploy.started'' (ac_username actor)
                                (''Deploy of '' @ project @ '' started'') [(''project'', EvStr project)] c0;
                         (r, c2) = runDeploy en form project actor newProject c1
                     in (r, if rs_status r \<ge> 400
                            then record_event (ac_id actor) project ''deploy.failed'' (ac_username actor)
                                   (''Deploy of '' @ project @ '' failed'') [(''reason'', EvStr (failure_reason r))] c2
                            else c2))"

section \<open>A deploy is all or nothing\<close>

text \<open>What other requests see of the state: the store, the artifact directories and the routes.\<close>

definition seen :: "control \<Rightarrow> db \<times> artifact_ref list \<times> route_row list" where
  "seen c = (ct_db c, w_dirs (ct_world c), ct_routes c)"

lemma record_event_frame [frame_simps]:
  "seen (record_event o1 p ty act su dat c) = seen c"
  "ct_db (record_event o1 p ty act su dat c) = ct_db c"
  "ct_world (record_event o1 p ty act su dat c) = ct_world c"
  "ct_routes (record_event o1 p ty act su dat c) = ct_routes c"
  by (simp_all add: record_event_def seen_def ct_db_def)

lemma place_fails:
  assumes "place_and_record en actor v c = (Inl r, c')"
  shows "seen c' = seen c" "rs_status r \<in> {409, 500}"
proof -
  have "filter (\<lambda>r. r \<noteq> x) xs = xs" if "x \<notin> set xs" for x :: artifact_ref and xs
    using that by (induction xs) auto
  then show "seen c' = seen c"
    using assms by (auto simp: place_and_record_def Let_def seen_def ct_db_def set_world_def holdArtifact_def
        releaseArtifact_def rm_dir_def split: option.splits if_splits sum.splits)
  show "rs_status r \<in> {409, 500}"
    using assms by (auto simp: place_and_record_def Let_def split: option.splits if_splits sum.splits)
qed

lemma resolve_all_status: "resolve_all o1 db refs = Inl r \<Longrightarrow> rs_status r = 400"
  by (induction refs arbitrary: r)
    (auto simp: resolve_binding_def split: sum.splits option.splits if_splits)

lemma finish_status:
  "finish_deploy en actor np prev v d c = (r, c') \<Longrightarrow> rs_status r \<noteq> 201 \<Longrightarrow> rs_status r = 500 \<and> de_sync_error en \<noteq> None"
  by (auto simp: finish_deploy_def Let_def split: option.splits prod.splits)

lemma deploy_staged_refused:
  assumes "deploy_staged en actor p np dir c = (r, c')" "rs_status r \<noteq> 201" "de_sync_error en = None \<or> rs_status r < 500"
  shows "seen c' = seen c"
  using assms
  by (auto simp: deploy_staged_def unchanged_answer_def Let_def frame_simps
      dest: place_fails(1) finish_status split: sum.splits if_splits option.splits prod.splits)

lemma runDeploy_refused:
  assumes "runDeploy en form p actor np c = (r, c')" "rs_status r \<noteq> 201" "de_sync_error en = None \<or> rs_status r < 500"
  shows "seen c' = seen c"
  using assms by (auto simp: runDeploy_def dest: deploy_staged_refused split: sum.splits prod.splits)


definition sample_control :: control where
  "sample_control = \<lparr>ct_world = \<lparr>w_db = empty_db, w_dirs = [], w_inflight = []\<rparr>, ct_routes = [], ct_events = [], ct_buckets = []\<rparr>"

definition sample_deploy_env :: deploy_env where
  "sample_deploy_env = \<lparr>de_env = (\<lambda>_. None), de_now = 0, de_ip = ''1.2.3.4'', de_uuid = ''v1'', de_rm_ok = (\<lambda>_. True),
     de_stage = None, de_place_error = None, de_sync_error = None, de_parse = (\<lambda>_. None), de_sha = (\<lambda>_. ''d''),
     de_vm = (\<lambda>_. Inr sample_manifest), de_dir = (\<lambda>_. None), de_artifact_dir = (\<lambda>_. ''/a'')\<rparr>"

definition sample_upload :: upload where
  "sample_upload = \<lparr>up_manifest = Some ''m'', up_sprout = Some sample_elf, up_bindings = None, up_assets_manifest = None,
     up_assets = []\<rparr>"

definition sample_actor :: Actor where
  "sample_actor = \<lparr>ac_id = ''o1'', ac_username = ''ann'', ac_session = True\<rparr>"


section \<open>A deploy that is answered with 201 is live\<close>

lemma recordDeployment_result:
  assumes "recordDeployment input rids db = Inr (db', d)"
  shows "d = input\<lparr>d_active := True\<rparr>" "d \<in> set (deployments db')" "banned_owners db' = banned_owners db"
  using assms by (auto simp: recordDeployment_def Let_def split: if_splits)

lemma place_succeeds:
  assumes "place_and_record en actor v c = (Inr d, c')"
  shows "d = version_row en actor v" "d \<in> set (deployments (ct_db c'))" "refOf d \<in> set (w_dirs (ct_world c'))"
    "db_ok (ct_db c) \<Longrightarrow> db_ok (ct_db c')" "banned_owners (ct_db c') = banned_owners (ct_db c)"
proof -
  obtain db' where rec: "recordDeployment (version_row en actor v) (nv_resources v) (ct_db c) = Inr (db', d)"
    and c': "ct_db c' = db'" "(ac_id actor, nv_digest v) \<in> set (w_dirs (ct_world c'))"
    using assms by (auto simp: place_and_record_def Let_def ct_db_def set_world_def holdArtifact_def releaseArtifact_def
        split: option.splits if_splits sum.splits prod.splits)
  show d: "d = version_row en actor v"
    using recordDeployment_result(1) [OF rec] by (simp add: version_row_def)
  show "d \<in> set (deployments (ct_db c'))" "banned_owners (ct_db c') = banned_owners (ct_db c)"
    using recordDeployment_result(2,3) [OF rec] c' by simp_all
  show "refOf d \<in> set (w_dirs (ct_world c'))" using c' d by (simp add: refOf_def version_row_def)
  show "db_ok (ct_db c')" if "db_ok (ct_db c)" using recordDeployment_ok [OF that rec] c' by simp
qed

lemma prune_keeps_active:
  assumes "db_ok db" "d \<in> set (deployments db)" "d_active d"
  shows "d \<in> set (deployments (fst (pruneProjectDeployments o1 p keep db)))"
proof -
  have "d_id d \<notin> d_id ` set (doomed_versions o1 p n db)" for n
    using doomed_inactive id_inj [OF assms(1)] assms(2,3) by blast
  then show ?thesis using assms(2) by (auto simp: prune_eq delete_deployments_def)
qed

lemma collect_frame:
  assumes "collect en refs c = (c', rm, fl)"
  shows "deployments (ct_db c') = deployments (ct_db c)" "ct_routes c' = ct_routes c"
    "r \<in> set (w_dirs (ct_world c)) \<Longrightarrow> r \<in> refOf ` set (deployments (ct_db c)) \<Longrightarrow> r \<in> set (w_dirs (ct_world c'))"
    "db_ok (ct_db c) \<Longrightarrow> db_ok (ct_db c')"
  using assms fold_collect [of "de_rm_ok en" "uniq refs" "ct_world c" "[]" "[]"]
  by (auto simp: collect_def collectArtifacts_def ct_db_def split: prod.splits)

lemma finish_live:
  assumes "finish_deploy en actor np prev v d c = (r, c')" "rs_status r = 201" "db_ok (ct_db c)"
    and "d \<in> set (deployments (ct_db c))" "d_active d" "refOf d \<in> set (w_dirs (ct_world c))"
  shows "d \<in> set (deployments (ct_db c'))" "refOf d \<in> set (w_dirs (ct_world c'))" "db_ok (ct_db c')"
    "ct_routes c' = route_rows (ct_db c)"
proof -
  let ?pr = "pruneProjectDeployments (ac_id actor) (nv_project v) (versionsPerProject (de_env en)) (ct_db (sync_routes c))"
  define c2 where "c2 = set_db (fst ?pr) (sync_routes c)"
  define c3 where "c3 = (if snd ?pr = [] then c2 else fst (collect en (snd ?pr) c2))"
  have same: "ct_db (sync_routes c) = ct_db c" by (simp add: sync_routes_def ct_db_def)
  have c2: "d \<in> set (deployments (ct_db c2))" "refOf d \<in> set (w_dirs (ct_world c2))" "db_ok (ct_db c2)"
    "ct_routes c2 = route_rows (ct_db c)"
    using prune_keeps_active [OF assms(3,4,5)] prune_ok [OF assms(3)] assms(6)
    by (simp_all add: c2_def set_db_def ct_db_def sync_routes_def)
  have c3: "d \<in> set (deployments (ct_db c3))" "refOf d \<in> set (w_dirs (ct_world c3))" "db_ok (ct_db c3)"
    "ct_routes c3 = route_rows (ct_db c)"
    using c2 collect_frame [of en "snd ?pr" c2] by (cases "collect en (snd ?pr) c2"; auto simp: c3_def)+
  have sync: "de_sync_error en = None" using assms(1,2) by (auto simp: finish_deploy_def split: option.splits)
  have "ct_db c' = ct_db c3" "ct_world c' = ct_world c3" "ct_routes c' = ct_routes c3"
    using assms(1) sync by (auto simp: finish_deploy_def Let_def frame_simps c2_def c3_def split: prod.splits if_splits)
  with c3 show "d \<in> set (deployments (ct_db c'))" "refOf d \<in> set (w_dirs (ct_world c'))" "db_ok (ct_db c')"
    "ct_routes c' = route_rows (ct_db c)" by simp_all
qed

lemma deploy_staged_live:
  assumes "deploy_staged en actor p np dir c = (r, c')" "rs_status r = 201"
  obtains v prev d c1 where "nv_project v = p" "deploymentHostname (de_env en) p (ac_username actor) = Inr (nv_hostname v)"
    "place_and_record en actor v c = (Inr d, c1)" "finish_deploy en actor np prev v d c1 = (r, c')"
proof -
  obtain va where va: "validateArtifactDirectory (de_parse en) (de_sha en) (de_vm en) (Some dir) = Inr va"
    using assms by (cases "validateArtifactDirectory (de_parse en) (de_sha en) (de_vm en) (Some dir)")
      (auto simp: deploy_staged_def details_response_def)
  define digest where "digest = artifactDigest (de_sha en) dir (mf_binaryHash (va_manifest va))"
  have p: "mf_project (va_manifest va) = p"
    using assms va by (cases "mf_project (va_manifest va) = p") (auto simp: deploy_staged_def Let_def)
  have new: "find (\<lambda>d. d_active d \<and> d_artifact d = digest) (projectDeployments (ac_id actor) p (ct_db c)) = None"
    using assms va p by (cases "find (\<lambda>d. d_active d \<and> d_artifact d = digest) (projectDeployments (ac_id actor) p (ct_db c))")
      (auto simp: deploy_staged_def unchanged_answer_def digest_def Let_def)
  obtain ids where ids: "resolveResourceBindings (va_resourceBindings va) (ac_id actor) (ct_db c) = Inr ids"
  proof (cases "resolveResourceBindings (va_resourceBindings va) (ac_id actor) (ct_db c)")
    case (Inl x)
    then have "rs_status x = 400" using resolve_all_status by (auto simp: resolveResourceBindings_def split: sum.splits)
    then show ?thesis using assms va p new Inl by (auto simp: deploy_staged_def digest_def Let_def)
  qed (use that in blast)
  obtain h where h: "deploymentHostname (de_env en) p (ac_username actor) = Inr h"
    using assms va p new ids by (cases "deploymentHostname (de_env en) p (ac_username actor)")
      (auto simp: deploy_staged_def digest_def Let_def)
  let ?v = "\<lparr>nv_project = p, nv_hostname = h, nv_digest = digest, nv_resources = ids, nv_manifest = va_manifest va\<rparr>"
  have run: "(case place_and_record en actor ?v c of (Inl r, c1) \<Rightarrow> (r, c1)
      | (Inr d, c1) \<Rightarrow> finish_deploy en actor np (activePorfforVersion en (ac_id actor) p (ct_db c)) ?v d c1) = (r, c')"
    using assms(1) va p new ids h unfolding digest_def by (simp add: deploy_staged_def Let_def)
  obtain x c1 where x: "place_and_record en actor ?v c = (x, c1)" by force
  then obtain d where "x = Inr d"
    using run assms(2) place_fails(2) [of en actor ?v c _ c1] by (cases x) auto
  then show thesis using that [of ?v d c1] x run h by simp
qed

lemma version_row_sel:
  "d_id (version_row en actor v) = de_uuid en" "d_owner (version_row en actor v) = ac_id actor"
  "d_project (version_row en actor v) = nv_project v" "d_hostname (version_row en actor v) = nv_hostname v"
  "d_active (version_row en actor v)"
  by (simp_all add: version_row_def)

lemma deploy_row_routed:
  assumes "d \<in> set (deployments db)" "d_active d" "d_owner d \<notin> set (bannedOwners db)"
  shows "\<lparr>rr_hostname = d_hostname d, rr_sprout_path = d_sprout_path d, rr_owner = d_owner d, rr_project = d_project d\<rparr>
    \<in> set (route_rows db)"
  using assms by (auto simp: route_rows_def generated_rows_def)

text \<open>
  C38: a deploy that is answered with 201 is live. The new version is recorded and active under the
  project's generated hostname, its artifact directory is on disk, the published routes name it
  (unless the account is banned), and the store stays well-formed; retention and the collection of
  old artifacts, which run in the same request, take nothing of it away.
\<close>

theorem accepted_deploy_is_live:
  assumes "deployArtifact en (SignedIn actor) form project c = (r, c')" "rs_status r = 201" "db_ok (ct_db c)"
  shows "\<exists>d domain. deploymentDomain (de_env en) = Inr domain \<and> d \<in> set (deployments (ct_db c')) \<and> d_active d \<and>
    d_id d = de_uuid en \<and> d_key d = (ac_id actor, project) \<and> d_hostname d = hostname_in domain project (ac_username actor) \<and>
    refOf d \<in> set (w_dirs (ct_world c')) \<and> db_ok (ct_db c') \<and>
    (ac_id actor \<notin> set (bannedOwners (ct_db c)) \<longrightarrow>
       \<lparr>rr_hostname = d_hostname d, rr_sprout_path = d_sprout_path d, rr_owner = ac_id actor, rr_project = project\<rparr>
         \<in> set (ct_routes c'))"
proof -
  obtain c0 c2 np where run: "runDeploy en form project actor np c0 = (r, c2)" and c0: "ct_db c0 = ct_db c"
    and c': "ct_world c' = ct_world c2" "ct_routes c' = ct_routes c2"
    using assms(1,2)
    by (auto simp: deployArtifact_def with_actor_def authorized_def too_many_def Let_def frame_simps ct_db_def
        split: if_splits option.splits prod.splits guard_result.splits)
  have "rs_status x \<noteq> 201" if "screen_upload (de_parse en) form = Inl x" for x
    using that by (auto simp: screen_upload_def split: option.splits if_splits prod.splits)
  moreover have status: "rs_status x \<noteq> 201" if "write_assets as es = Inl x" for as es x
    using that by (induction as es rule: write_assets.induct) (auto simp: Let_def split: if_splits option.splits)
  moreover have "rs_status x \<noteq> 201" if "staged_directory f m sp = Inl x" for f m sp x
    using that status by (auto simp: staged_directory_def Let_def split: option.splits)
  ultimately obtain dir where "deploy_staged en actor project np dir c0 = (r, c2)"
    using run assms(2) by (auto simp: runDeploy_def split: sum.splits prod.splits)
  then obtain v prev d c1 where v: "nv_project v = project"
      "deploymentHostname (de_env en) project (ac_username actor) = Inr (nv_hostname v)"
      "place_and_record en actor v c0 = (Inr d, c1)" "finish_deploy en actor np prev v d c1 = (r, c2)"
    using assms(2) by (rule deploy_staged_live)
  note placed = place_succeeds [OF v(3)]
  have act: "d_active d" using placed(1) version_row_sel by simp
  note live = finish_live [OF v(4) assms(2) placed(4) placed(2) act placed(3)]
  obtain domain where domain: "deploymentDomain (de_env en) = Inr domain" "nv_hostname v = hostname_in domain project (ac_username actor)"
    using v(2) by (auto simp: deploymentHostname_def split: sum.splits)
  have "ac_id actor \<notin> set (bannedOwners (ct_db c)) \<Longrightarrow>
      \<lparr>rr_hostname = d_hostname d, rr_sprout_path = d_sprout_path d, rr_owner = ac_id actor, rr_project = project\<rparr> \<in> set (ct_routes c2)"
    using deploy_row_routed [OF placed(2) act] live(4) placed(1,5) c0 assms(3) v(1)
    by (simp add: version_row_sel bannedOwners_def)
  then show ?thesis
    using live placed(1) domain act v(1) c0 c' assms(3) by (auto simp: version_row_sel d_key_def ct_db_def)
qed

lemma sample_run_accepted:
  assumes "ct_db c = empty_db"
  shows "rs_status (fst (runDeploy sample_deploy_env (Some sample_upload) ''web'' sample_actor np c)) = 201"
proof -
  have len: "length sample_elf = 20" by (simp add: sample_elf_def)
  have up: "screen_upload (\<lambda>_. None) (Some sample_upload) = Inr (sample_upload, ''m'', sample_elf)"
    using len by (simp add: screen_upload_def sample_upload_def)
  have dir: "staged_directory sample_upload ''m'' sample_elf = Inr sample_artifact"
    by (simp add: staged_directory_def sample_upload_def sample_artifact_def Let_def)
  have host: "deploymentHostname (\<lambda>_. None) ''web'' ''ann'' = Inr ''web.ann.sproutboat.com''" by code_simp
  have fin: "rs_status (fst (finish_deploy sample_deploy_env sample_actor np prev v d c1)) = 201" for np prev v d c1
    by (simp add: finish_deploy_def sample_deploy_env_def Let_def split: prod.splits)
  have placed: "\<exists>d c1. place_and_record sample_deploy_env sample_actor v c = (Inr d, c1)" for v
  proof (cases "place_and_record sample_deploy_env sample_actor v c")
    case (Pair x c1)
    have "w_db (holdArtifact ref (ct_world c)) = empty_db" for ref using assms by (simp add: holdArtifact_def ct_db_def)
    then have "\<exists>d. x = Inr d"
      using Pair by (auto simp: place_and_record_def sample_deploy_env_def Let_def recordDeployment_def empty_db_def deactivate_def
          split: if_splits)
    then show ?thesis using Pair by blast
  qed
  have none: "projectDeployments o1 p (ct_db c) = []" for o1 p
    using assms by (simp add: projectDeployments_def empty_db_def sort_desc_def)
  define v where "v = \<lparr>nv_project = ''web'', nv_hostname = ''web.ann.sproutboat.com'', nv_digest = ''d'', nv_resources = [],
    nv_manifest = sample_manifest\<rparr>"
  obtain d c1 where d: "place_and_record sample_deploy_env sample_actor v c = (Inr d, c1)" using placed by blast
  have sel: "de_parse sample_deploy_env = (\<lambda>_. None)" "de_sha sample_deploy_env = (\<lambda>_. ''d'')" "de_env sample_deploy_env = (\<lambda>_. None)"
    "de_vm sample_deploy_env = (\<lambda>_. Inr sample_manifest)" "ac_username sample_actor = ''ann''" "mf_project sample_manifest = ''web''"
    by (simp_all add: sample_deploy_env_def sample_actor_def sample_manifest_def)
  have dig: "artifactDigest (\<lambda>_. ''d'') es h = ''d''" for es h by (simp add: artifactDigest_def)
  have "deploy_staged sample_deploy_env sample_actor ''web'' np sample_artifact c =
      finish_deploy sample_deploy_env sample_actor np (activePorfforVersion sample_deploy_env (ac_id sample_actor) ''web'' (ct_db c)) v d c1"
    by (simp add: deploy_staged_def sel sample_artifact_valid none host dig resolveResourceBindings_def uniq_def
        v_def [symmetric] d)
  then show ?thesis
    using up dir fin by (simp add: runDeploy_def sel)
qed

theorem accepted_deploy_is_live_witness:
  "\<exists>d. d \<in> set (deployments (ct_db (snd (deployArtifact sample_deploy_env (SignedIn sample_actor) (Some sample_upload) ''web'' sample_control))))
     \<and> d_active d \<and> d_id d = ''v1'' \<and> d_hostname d = ''web.ann.sproutboat.com''"
proof -
  let ?x = "deployArtifact sample_deploy_env (SignedIn sample_actor) (Some sample_upload) ''web'' sample_control"
  have guard: "snd (guardDeploy (de_env sample_deploy_env) (ac_id sample_actor) (de_ip sample_deploy_env) (de_now sample_deploy_env)
      (ct_buckets sample_control)) = Proceed" by code_simp
  have cap: "guardNewProject (de_env sample_deploy_env) 0 = Proceed" by code_simp
  have name: "project_name_ok ''web''" by code_simp
  have count: "ownerProjectCount o1 empty_db = 0" for o1 by (simp add: ownerProjectCount_def empty_db_def)
  have db: "ct_db (sample_control\<lparr>ct_buckets := bs\<rparr>) = empty_db" for bs by (simp add: sample_control_def ct_db_def)
  obtain bs where bs: "guardDeploy (de_env sample_deploy_env) (ac_id sample_actor) (de_ip sample_deploy_env) (de_now sample_deploy_env)
      (ct_buckets sample_control) = (bs, Proceed)" using guard by (metis prod.collapse)
  have new: "projectDeployments o1 p empty_db = []" for o1 p
    by (simp add: projectDeployments_def empty_db_def sort_desc_def)
  have st: "rs_status (fst ?x) = 201"
    by (simp add: deployArtifact_def with_actor_def authorized_def name bs too_many_def count db new cap case_prod_beta
        sample_run_accepted record_event_frame)
  have x: "?x = (fst ?x, snd ?x)" by simp
  have ok: "db_ok (ct_db sample_control)" using empty_db_ok by (simp add: sample_control_def ct_db_def)
  have host: "deploymentDomain (de_env sample_deploy_env) = Inr ''sproutboat.com''" by code_simp
  from accepted_deploy_is_live [OF x st ok] host show ?thesis
    by (auto simp: sample_deploy_env_def hostname_in_def sample_actor_def)
qed

end
