(* ===== verification/Account_Handlers.thy ===== *)
theory Account_Handlers
  imports Deploy_Handlers
begin

text \<open>
  The endpoints for custom domains, secrets and storage resources
  (\<open>domains.ts\<close>, \<open>secrets.ts\<close> and \<open>resources.ts\<close> under \<open>src/apps/control/src\<close>), over the state of
  \<open>Deploy_Handlers\<close>. A request body is the JSON it parses to, \<open>None\<close> when it is no JSON; an error thrown
  past the handler is a 500. DNS answers are arguments.
\<close>

section \<open>Bodies and texts\<close>

definition raw_field :: "json option \<Rightarrow> string \<Rightarrow> string" where
  "raw_field body k = (case body of None \<Rightarrow> [] | Some b \<Rightarrow> (case json_field b k of Some (JStr s) \<Rightarrow> s | _ \<Rightarrow> []))"

definition asText :: "json option \<Rightarrow> string \<Rightarrow> string" where
  "asText body k = js_trim (raw_field body k)"

text \<open>A cap as the messages print it; a cap that is no whole number prints as one.\<close>

definition cap_text :: "rat \<Rightarrow> string" where
  "cap_text r = nat_text (nat \<lfloor>r\<rfloor>)"

definition thrown :: "sql_error \<Rightarrow> response" where
  "thrown e = error_response 500 (sql_message e)"

section \<open>Custom domains\<close>

definition TXT_PREFIX :: string where "TXT_PREFIX = ''sproutboat-verify=''"

definition txtName :: "string \<Rightarrow> string" where "txtName hostname = ''_sproutboat.'' @ hostname"

definition isPlatformManagedHost :: "string \<Rightarrow> string \<Rightarrow> bool" where
  "isPlatformManagedHost hostname base \<longleftrightarrow>
     hostname \<noteq> base \<and> hostname \<noteq> ''www.'' @ base \<and> ends_with hostname (''.'' @ base)"

text \<open>The last label starts with a letter and has at least two characters.\<close>

definition top_label :: "string \<Rightarrow> bool" where
  "top_label s \<longleftrightarrow>
     2 \<le> length s \<and> length s \<le> 63 \<and> is_lower (hd s) \<and> label_char (last s) \<and> list_all slug_char s"

definition HOSTNAME :: "string \<Rightarrow> bool" where
  "HOSTNAME h \<longleftrightarrow>
     (let labels = split_on CHR ''.'' h
      in 1 \<le> length h \<and> length h \<le> 253 \<and> 2 \<le> length labels \<and> list_all (label 0 61) (butlast labels) \<and> top_label (last labels))"

text \<open>The resolver's answers: TXT records or an error code, A and AAAA records or none.\<close>

record dns =
  dns_txt :: "string \<Rightarrow> string + string list list"
  dns_a :: "string \<Rightarrow> string list option"
  dns_aaaa :: "string \<Rightarrow> string list option"

definition addressesOf :: "dns \<Rightarrow> string \<Rightarrow> string list" where
  "addressesOf dns hostname =
     concat (map (\<lambda>query. case query hostname of None \<Rightarrow> [] | Some addrs \<Rightarrow> addrs) [dns_a dns, dns_aaaa dns])"

definition serverAddresses :: "dns \<Rightarrow> string \<Rightarrow> string list" where
  "serverAddresses dns base =
     uniq (concat (map (addressesOf dns) [''dashboard.'' @ base, ''control.'' @ base, ''www.'' @ base]))"

definition txt_expected :: "custom_domain \<Rightarrow> json" where
  "txt_expected d =
     JObj [(''type'', JStr ''TXT''), (''name'', JStr (txtName (cd_hostname d))), (''value'', JStr (TXT_PREFIX @ cd_token d))]"

definition publicView :: "(ms \<Rightarrow> string) \<Rightarrow> custom_domain \<Rightarrow> (string \<times> json) list" where
  "publicView isotime d =
     [(''hostname'', JStr (cd_hostname d)), (''verified'', JBool (cd_verified d)),
      (''verifiedAt'', json_opt (\<lambda>t. JStr (isotime t)) (cd_verified_at d)), (''createdAt'', JStr (isotime (cd_created_at d))),
      (''verification'', if cd_verified d then JNull else txt_expected d)]"

text \<open>The dash of the source's warning is written as a hyphen; a missing deployment domain is thrown.\<close>

definition withReachability :: "dns \<Rightarrow> env \<Rightarrow> (string \<times> json) list \<Rightarrow> string \<Rightarrow> response" where
  "withReachability dns env view hostname =
     (case deploymentDomain env of
        Inl e \<Rightarrow> error_response 500 e
      | Inr base \<Rightarrow>
          let servers = serverAddresses dns base
          in json_response 200 (JObj
               (if servers = [] \<or> list_ex (\<lambda>x. x \<in> set servers) (addressesOf dns hostname) then view
                else view @
                  [(''warning'', JStr (hostname @ '' does not resolve to this server ('' @ hd servers
                      @ '') yet. Add an A or AAAA record for it, DNS-only (not proxied). If you just added one, DNS may still be ''
                      @ ''propagating - re-run verify in a minute.'')),
                   (''serverAddresses'', json_strs servers)])))"

definition listDomains :: "(ms \<Rightarrow> string) \<Rightarrow> auth \<Rightarrow> string \<Rightarrow> control \<Rightarrow> response \<times> control" where
  "listDomains isotime a project = with_actor a (\<lambda>actor c.
     (json_response 200 (JArr (map (\<lambda>d. JObj (publicView isotime d)) (projectCustomDomains (ac_id actor) project (ct_db c)))), c))"

text \<open>\<open>token\<close> is the random token of the claim.\<close>

definition addDomain ::
  "(ms \<Rightarrow> string) \<Rightarrow> dns \<Rightarrow> deploy_env \<Rightarrow> string \<Rightarrow> auth \<Rightarrow> json option \<Rightarrow> string \<Rightarrow> control \<Rightarrow> response \<times> control" where
  "addDomain isotime dns en token a body project = with_actor a (\<lambda>actor c.
     if projectDeployments (ac_id actor) project (ct_db c) = []
     then (error_response 409 ''deploy the project at least once before attaching a domain'', c)
     else
       let hostname = to_lower (asText body ''hostname'')
       in if \<not> HOSTNAME hostname then (error_response 400 ''hostname must be a valid lowercase FQDN'', c)
          else case deploymentDomain (de_env en) of
            Inl e \<Rightarrow> (error_response 500 e, c)
          | Inr base \<Rightarrow>
              if isPlatformManagedHost hostname base
              then (error_response 400 (hostname @ '' is inside the platform-managed '' @ base @ '' space; only '' @ base
                      @ '' and www.'' @ base @ '' can be attached here''), c)
              else
                (case (case customDomainByHostname (de_now en) hostname (ct_db c) of
                   Some ex \<Rightarrow>
                     if cd_owner ex = ac_id actor \<or> cd_verified ex
                     then Some (if cd_owner ex = ac_id actor \<and> cd_project ex = project
                                then ''this project already has that domain'' else ''that hostname is already claimed'')
                     else None
                 | None \<Rightarrow> None) of
                   Some msg \<Rightarrow> (error_response 409 msg, c)
                 | None \<Rightarrow>
                     if of_nat (length (projectCustomDomains (ac_id actor) project (ct_db c))) \<ge> domainsPerProject (de_env en)
                     then (error_response 429 (''a project may hold at most '' @ cap_text (domainsPerProject (de_env en)) @ '' custom domains''), c)
                     else
                       (case claimCustomDomain (de_now en) hostname (ac_id actor) project token (ct_db c) of
                          Inl e \<Rightarrow> (thrown e, c)
                        | Inr (db', Claimed d) \<Rightarrow>
                            (json_response 201 (JObj (publicView isotime d @ [(''serverAddresses'', json_strs (serverAddresses dns base))])),
                             record_event (ac_id actor) project ''domain.added'' (ac_username actor)
                               (''Added domain '' @ hostname @ '' to '' @ project) [(''hostname'', EvStr hostname)] (set_db db' c))
                        | Inr (db', _) \<Rightarrow> (error_response 409 ''that hostname is already claimed'', set_db db' c))))"

definition verifyDomain ::
  "(ms \<Rightarrow> string) \<Rightarrow> dns \<Rightarrow> deploy_env \<Rightarrow> auth \<Rightarrow> string \<Rightarrow> string \<Rightarrow> control \<Rightarrow> response \<times> control" where
  "verifyDomain isotime dns en a project hostname = with_actor a (\<lambda>actor c.
     case find (\<lambda>d. cd_hostname d = to_lower hostname) (projectCustomDomains (ac_id actor) project (ct_db c)) of
       None \<Rightarrow> (error_response 404 ''domain not found'', c)
     | Some d \<Rightarrow>
         if cd_verified d then (withReachability dns (de_env en) (publicView isotime d) (cd_hostname d), c)
         else case dns_txt dns (txtName (cd_hostname d)) of
           Inl code \<Rightarrow>
             (json_response 400 (JObj [(''error'', JStr (if code = ''ENOTFOUND'' \<or> code = ''ENODATA'' then ''no TXT record found''
                 else ''TXT lookup failed'')), (''expected'', txt_expected d)]), c)
         | Inr records \<Rightarrow>
             if \<not> list_ex (\<lambda>chunks. js_trim (concat chunks) = TXT_PREFIX @ cd_token d) records
             then (json_response 400 (JObj [(''error'', JStr ''TXT record does not match''), (''expected'', txt_expected d)]), c)
             else
               (case markCustomDomainVerified (de_now en) (ac_id actor) project (cd_hostname d) (ct_db c) of
                  (db', False) \<Rightarrow> (error_response 409 ''that hostname was verified by another account first'', set_db db' c)
                | (db', True) \<Rightarrow>
                    after_sync en (set_db db' c) (\<lambda>c1.
                      (withReachability dns (de_env en)
                         [(''hostname'', JStr (cd_hostname d)), (''verified'', JBool True), (''verifiedAt'', JStr (isotime (de_now en))),
                          (''createdAt'', JStr (isotime (cd_created_at d))), (''verification'', JNull)] (cd_hostname d),
                       record_event (ac_id actor) project ''domain.verified'' (ac_username actor)
                         (''Verified domain '' @ cd_hostname d @ '' on '' @ project) [(''hostname'', EvStr (cd_hostname d))] c1))))"

definition deleteDomain :: "deploy_env \<Rightarrow> auth \<Rightarrow> string \<Rightarrow> string \<Rightarrow> control \<Rightarrow> response \<times> control" where
  "deleteDomain en a project hostname = with_actor a (\<lambda>actor c.
     let h = to_lower hostname
     in case deleteCustomDomain (ac_id actor) project h (ct_db c) of
          (db', False) \<Rightarrow> (error_response 404 ''domain not found'', set_db db' c)
        | (db', True) \<Rightarrow>
            after_sync en (set_db db' c) (\<lambda>c1.
              (json_response 200 (JObj [(''deleted'', JStr h)]),
               record_event (ac_id actor) project ''domain.removed'' (ac_username actor)
                 (''Removed domain '' @ h @ '' from '' @ project) [(''hostname'', EvStr h)] c1)))"

section \<open>Secrets\<close>

definition secret_name_ok :: "string \<Rightarrow> bool" where
  "secret_name_ok n \<longleftrightarrow> n \<noteq> [] \<and> is_upper (hd n) \<and> list_all (\<lambda>c. is_upper c \<or> is_digit c \<or> c = CHR ''_'') n"

definition MAX_VALUE_BYTES :: nat where "MAX_VALUE_BYTES = 8 * 1024"

definition listSecrets :: "auth \<Rightarrow> string \<Rightarrow> control \<Rightarrow> response \<times> control" where
  "listSecrets a project = with_actor a (\<lambda>actor c.
     (json_response 200 (JObj [(''names'', json_strs (secretNames (ac_id actor) project (ct_db c)))]), c))"

text \<open>A string is its UTF-8 bytes here, so its length is what \<open>Buffer.byteLength\<close> counts.\<close>

definition putSecret ::
  "(string \<Rightarrow> string) \<Rightarrow> deploy_env \<Rightarrow> auth \<Rightarrow> json option \<Rightarrow> string \<Rightarrow> string \<Rightarrow> control \<Rightarrow> response \<times> control" where
  "putSecret encrypt en a body project name = with_actor a (\<lambda>actor c.
     if \<not> secret_name_ok name then (error_response 400 ''secret name must be UPPER_SNAKE_CASE'', c)
     else if projectDeployments (ac_id actor) project (ct_db c) = []
     then (error_response 409 ''deploy the project at least once before setting secrets'', c)
     else
       let v = raw_field body ''value'';
           isNew = (name \<notin> set (secretNames (ac_id actor) project (ct_db c)))
       in if v = [] then (error_response 400 ''a non-empty string `value` is required'', c)
          else if length v > MAX_VALUE_BYTES
          then (error_response 413 (''value exceeds '' @ nat_text MAX_VALUE_BYTES @ '' bytes''), c)
          else if isNew \<and> of_nat (secretCount (ac_id actor) project (ct_db c)) \<ge> secretsPerProject (de_env en)
          then (error_response 429 (''a project may hold at most '' @ cap_text (secretsPerProject (de_env en)) @ '' secrets''), c)
          else case setSecret encrypt (de_now en) (ac_id actor) project name v (ct_db c) of
                 Inl e \<Rightarrow> (thrown e, c)
               | Inr (db', _) \<Rightarrow>
                   after_sync en (set_db db' c) (\<lambda>c1.
                     (json_response (if isNew then 201 else 200)
                        (JObj [(''name'', JStr name), (''set'', JBool True), (''appliesOn'', JStr ''next deploy or sprout restart'')]),
                      record_event (ac_id actor) project ''secret.set'' (ac_username actor)
                        ((if isNew then ''Set'' else ''Updated'') @ '' secret '' @ name @ '' on '' @ project) [(''name'', EvStr name)] c1)))"

definition removeSecret :: "deploy_env \<Rightarrow> auth \<Rightarrow> string \<Rightarrow> string \<Rightarrow> control \<Rightarrow> response \<times> control" where
  "removeSecret en a project name = with_actor a (\<lambda>actor c.
     case deleteSecret (ac_id actor) project name (ct_db c) of
       (db', False) \<Rightarrow> (error_response 404 ''secret not found'', set_db db' c)
     | (db', True) \<Rightarrow>
         after_sync en (set_db db' c) (\<lambda>c1.
           (json_response 200 (JObj [(''deleted'', JStr name)]),
            record_event (ac_id actor) project ''secret.deleted'' (ac_username actor) (''Deleted secret '' @ name @ '' from '' @ project)
              [(''name'', EvStr name)] c1)))"

section \<open>Storage resources\<close>

text \<open>\<open>/^[a-z0-9][a-z0-9-]{0,61}[a-z0-9]$/\<close>: two to sixty-three characters.\<close>

definition resource_name_ok :: "string \<Rightarrow> bool" where
  "resource_name_ok n \<longleftrightarrow> 2 \<le> length n \<and> length n \<le> 63 \<and> label_char (hd n) \<and> label_char (last n) \<and> list_all slug_char n"

definition NAME_MESSAGE :: string where
  "NAME_MESSAGE = ''name must be a 2-63 character lowercase slug (a-z, 0-9, hyphen)''"

definition resourceKindForSegment :: "string \<Rightarrow> ResourceKind option" where
  "resourceKindForSegment seg = map_of [(''kv'', Kv), (''d1'', D1), (''r2'', R2), (''queues'', Queue)] seg"

definition kind_for_text :: "string \<Rightarrow> ResourceKind option" where
  "kind_for_text s = find (\<lambda>k. kind_text k = s) RESOURCE_KINDS"

definition listResources :: "(ms \<Rightarrow> string) \<Rightarrow> auth \<Rightarrow> control \<Rightarrow> response \<times> control" where
  "listResources isotime a = with_actor a (\<lambda>actor c.
     (json_response 200 (JObj [(''resources'', JArr (map (resource_json isotime) (ownerResources (ac_id actor) (ct_db c))))]), c))"

definition listResourcesOfKind :: "(ms \<Rightarrow> string) \<Rightarrow> auth \<Rightarrow> ResourceKind \<Rightarrow> control \<Rightarrow> response \<times> control" where
  "listResourcesOfKind isotime a k = with_actor a (\<lambda>actor c.
     let bound = ownerResourceProjects (ac_id actor) (ct_db c);
         row = (\<lambda>r. case resource_json isotime r of
                  JObj fs \<Rightarrow> JObj (fs @ [(''projects'', json_strs (case map_of bound (r_id r) of None \<Rightarrow> [] | Some ps \<Rightarrow> ps))])
                | j \<Rightarrow> j)
     in (json_response 200 (JObj [(''kind'', JStr (kind_text k)),
           (''resources'', JArr (map row (filter (\<lambda>r. r_kind r = k) (ownerResources (ac_id actor) (ct_db c)))))]), c))"

text \<open>
  The part two endpoints share from the name check on; \<open>hex\<close> are the random digits of the new id.
  The dashes of the source's messages are written as hyphens.
\<close>

definition create_named ::
  "(ms \<Rightarrow> string) \<Rightarrow> deploy_env \<Rightarrow> string \<Rightarrow> json option \<Rightarrow> ResourceKind \<Rightarrow> Actor \<Rightarrow> control \<Rightarrow> response \<times> control" where
  "create_named isotime en hex body k actor c =
    (let name = asText body ''name''
     in if \<not> resource_name_ok name then (error_response 400 NAME_MESSAGE, c)
        else case find (\<lambda>r. r_kind r = k \<and> r_name r = name) (ownerResources (ac_id actor) (ct_db c)) of
          Some ex \<Rightarrow>
            if asText body ''ifExists'' = ''return'' then (json_response 200 (JObj [(''resource'', resource_json isotime ex)]), c)
            else (error_response 409 (''a '' @ kind_text k @ '' named '' @ json_quote name @ '' already exists''), c)
        | None \<Rightarrow>
            if of_nat (resourceCount (ac_id actor) (ct_db c)) \<ge> resourcesPerAccount (de_env en)
            then (error_response 429 (''an account may hold at most '' @ cap_text (resourcesPerAccount (de_env en)) @ '' resources''), c)
            else case createResource hex (de_now en) (ac_id actor) k name (ct_db c) of
                   Inl e \<Rightarrow> (thrown e, c)
                 | Inr (db', r) \<Rightarrow> (json_response 201 (JObj [(''resource'', resource_json isotime r)]), set_db db' c))"

definition createResourceOfKind ::
  "(ms \<Rightarrow> string) \<Rightarrow> deploy_env \<Rightarrow> string \<Rightarrow> auth \<Rightarrow> json option \<Rightarrow> ResourceKind \<Rightarrow> control \<Rightarrow> response \<times> control" where
  "createResourceOfKind isotime en hex a body k = with_actor a (create_named isotime en hex body k)"

definition createResourceHandler ::
  "(ms \<Rightarrow> string) \<Rightarrow> deploy_env \<Rightarrow> string \<Rightarrow> auth \<Rightarrow> json option \<Rightarrow> control \<Rightarrow> response \<times> control" where
  "createResourceHandler isotime en hex a body = with_actor a (\<lambda>actor c.
     case kind_for_text (asText body ''kind'') of
       None \<Rightarrow> (error_response 400 (''kind must be one of: '' @ join_with '', '' (map kind_text RESOURCE_KINDS)), c)
     | Some k \<Rightarrow> create_named isotime en hex body k actor c)"

definition resourceOfKind :: "auth \<Rightarrow> ResourceKind \<Rightarrow> string \<Rightarrow> control \<Rightarrow> response option" where
  "resourceOfKind a k i c =
     (case authorized a of
        Inl r \<Rightarrow> Some r
      | Inr actor \<Rightarrow>
          (case resourceById (ac_id actor) i (ct_db c) of
             Some r \<Rightarrow> if r_kind r = k then None else Some (error_response 404 ''resource not found'')
           | None \<Rightarrow> Some (error_response 404 ''resource not found'')))"

definition updateResourceHandler ::
  "(ms \<Rightarrow> string) \<Rightarrow> auth \<Rightarrow> json option \<Rightarrow> string \<Rightarrow> control \<Rightarrow> response \<times> control" where
  "updateResourceHandler isotime a body i = with_actor a (\<lambda>actor c.
     case resourceById (ac_id actor) i (ct_db c) of
       None \<Rightarrow> (error_response 404 ''resource not found'', c)
     | Some ex \<Rightarrow>
         let name = asText body ''name''
         in if \<not> resource_name_ok name then (error_response 400 NAME_MESSAGE, c)
            else if name \<noteq> r_name ex \<and>
                    list_ex (\<lambda>r. r_kind r = r_kind ex \<and> r_name r = name) (ownerResources (ac_id actor) (ct_db c))
            then (error_response 409 (''a '' @ kind_text (r_kind ex) @ '' named '' @ json_quote name @ '' already exists''), c)
            else case renameResource (ac_id actor) i name (ct_db c) of
                   Inl e \<Rightarrow> (thrown e, c)
                 | Inr (db', _) \<Rightarrow>
                     (json_response 200 (JObj [(''resource'', resource_json isotime (ex\<lparr>r_name := name\<rparr>))]), set_db db' c))"

definition deleteResourceHandler :: "auth \<Rightarrow> string \<Rightarrow> control \<Rightarrow> response \<times> control" where
  "deleteResourceHandler a i = with_actor a (\<lambda>actor c.
     if resourceById (ac_id actor) i (ct_db c) = None then (error_response 404 ''resource not found'', c)
     else let referencing = resourceReferencingProjects (ac_id actor) i (ct_db c)
          in if referencing \<noteq> []
             then (json_response 409 (JObj [(''error'', JStr (''still bound by '' @ join_with '', '' referencing
                     @ '' - redeploy those without it first'')), (''projects'', json_strs referencing)]), c)
             else (json_response 200 (JObj [(''deleted'', JStr i)]), set_db (fst (deleteResource (ac_id actor) i (ct_db c))) c))"

end
