(* ===== verification/Spec2Isabelle.thy ===== *)
theory Spec2Isabelle
  imports Store_Props Routes Artifact_GC Deploy_Protocol Abuse_Limits Events Webhooks Edge_Cache Sqlite_Guard Sprout_Pool
    Sprout_Process Broker_Sandbox Artifact_Check Deploy_Handlers Account_Handlers
begin

text \<open>
  A verification development of Sproutboat, a self-hosted platform that compiles projects to
  native "sprouts" and serves them.
\<close>

end
